theory Spec2Isabelle
  imports Main "HOL-Library.Product_Lexorder"
begin

section \<open>Version resolver (src/cli/index.ts)\<close>

subsection \<open>JavaScript string and number primitives\<close>

text \<open>
  Strings are lists of code units; the model covers code units below 256. A JavaScript
  number that holds an integer is modelled as an \<open>int\<close>, and \<open>NaN\<close> as \<open>None\<close>. The
  source keeps numbers in IEEE doubles, which are exact for integers of magnitude below
  \<open>2^53\<close>; \<open>exact_version\<close> below names the version strings whose compared components stay
  in that range, and the theorems on the ordering are stated for them. The difference of
  two such components can reach \<open>2^53\<close>, where the subtraction rounds: \<open>nearest_double\<close>
  below is that rounding.
\<close>

definition is_digit :: "char \<Rightarrow> bool" where
  "is_digit c \<longleftrightarrow> 48 \<le> (of_char c :: nat) \<and> (of_char c :: nat) \<le> 57"

text \<open>The white space that \<open>parseInt\<close> skips (StrWhiteSpaceChar), below code unit 256.\<close>

definition js_space :: "char \<Rightarrow> bool" where
  "js_space c \<longleftrightarrow> c \<in> set [CHR 0x09, CHR 0x0A, CHR 0x0B, CHR 0x0C, CHR 0x0D, CHR 0x20, CHR 0xA0]"

definition digit_val :: "char \<Rightarrow> int" where
  "digit_val c = int (of_char c) - 48"

definition dec_val :: "string \<Rightarrow> int" where
  "dec_val ds = foldl (\<lambda>a c. 10 * a + digit_val c) 0 ds"

text \<open>
  \<open>parseInt(str, 10)\<close>: leading white space is skipped, one sign is read, then the
  longest run of decimal digits; no digit at all gives \<open>NaN\<close>.
\<close>

definition parseInt :: "string \<Rightarrow> int option" where
  "parseInt str =
    (let s = dropWhile js_space str;
         sign = (if take 1 s = ''-'' then - 1 else 1);
         s' = (if take 1 s = ''-'' \<or> take 1 s = ''+'' then drop 1 s else s);
         z = takeWhile is_digit s'
     in if z = [] then None else Some (sign * dec_val z))"

text \<open>\<open>parseInt(n, 10) || 0\<close>: \<open>NaN\<close> and \<open>0\<close> are falsy, so both give \<open>0\<close>.\<close>

definition parse_or_zero :: "string \<Rightarrow> int" where
  "parse_or_zero n = (case parseInt n of None \<Rightarrow> 0 | Some k \<Rightarrow> if k = 0 then 0 else k)"

text \<open>\<open>s.split(c)\<close> for a one-character separator: never empty, \<open>''''\<close> gives \<open>['''']\<close>.\<close>

fun js_split :: "char \<Rightarrow> string \<Rightarrow> string list" where
  "js_split c [] = [[]]"
| "js_split c (x # xs) =
     (if x = c then [] # js_split c xs
      else (case js_split c xs of [] \<Rightarrow> [[x]] | w # ws \<Rightarrow> (x # w) # ws))"

text \<open>Reading an array element: \<open>undefined\<close> (here \<open>None\<close>) beyond the end.\<close>

definition at :: "'a list \<Rightarrow> nat \<Rightarrow> 'a option" where
  "at xs i = (if i < length xs then Some (xs ! i) else None)"

text \<open>\<open>pa[i] || 0\<close> on an array of numbers.\<close>

definition at_or_zero :: "int list \<Rightarrow> nat \<Rightarrow> int" where
  "at_or_zero xs i = (case at xs i of None \<Rightarrow> 0 | Some k \<Rightarrow> k)"

text \<open>\<open>s.replace(/^v/, '')\<close>: one leading \<open>v\<close> is removed.\<close>

definition strip_v :: "string \<Rightarrow> string" where
  "strip_v s = (case s of [] \<Rightarrow> [] | c # cs \<Rightarrow> if c = CHR ''v'' then cs else s)"

definition startsWith :: "string \<Rightarrow> string \<Rightarrow> bool" where
  "startsWith s p \<longleftrightarrow> take (length p) s = p"

subsection \<open>compareVersions, satisfies, findBestVersion\<close>

text \<open>
  The double that a subtraction returns for an exact difference \<open>d\<close> of magnitude below
  \<open>2^54\<close> (the operands are doubles that hold integers of magnitude below \<open>2^53\<close>): up to
  \<open>2^53\<close> every integer is a double; above, the doubles are the even integers, and an odd
  difference lies halfway between two of them and goes to the one that is a multiple of
  \<open>4\<close> (round to nearest, ties to even).
\<close>

definition nearest_double :: "int \<Rightarrow> int" where
  "nearest_double d =
     (if \<bar>d\<bar> \<le> 9007199254740992 then d
      else if even d then d
      else if d mod 4 = 1 then d - 1 else d + 1)"

text \<open>The loop \<open>for (let i = 0; i < 3; i++)\<close> of \<open>compareVersions\<close>, from index \<open>i\<close> on.\<close>

function cmp_loop :: "nat \<Rightarrow> int list \<Rightarrow> int list \<Rightarrow> int" where
  "cmp_loop i pa pb =
     (if i < 3 then
        (let diff = nearest_double (at_or_zero pa i - at_or_zero pb i)
         in if diff \<noteq> 0 then diff else cmp_loop (i + 1) pa pb)
      else 0)"
  by pat_completeness auto
termination
  by (relation "measure (\<lambda>(i, pa, pb). 3 - i)") auto

declare cmp_loop.simps [simp del]

definition compareVersions :: "string \<Rightarrow> string \<Rightarrow> int" where
  "compareVersions a b =
     (let pa = map parse_or_zero (js_split CHR ''.'' a);
          pb = map parse_or_zero (js_split CHR ''.'' b)
      in cmp_loop 0 pa pb)"

definition satisfies :: "string \<Rightarrow> string \<Rightarrow> bool" where
  "satisfies version rng =
     (if rng = ''*'' \<or> rng = ''latest'' then True
      else
        let cleanVersion = strip_v version;
            cleanRange = strip_v rng
        in
          if startsWith cleanRange ''^'' then
            (let base = drop 1 cleanRange;
                 major = at (js_split CHR ''.'' base) 0;
                 vMajor = at (js_split CHR ''.'' cleanVersion) 0
             in major = vMajor \<and> compareVersions cleanVersion base \<ge> 0)
          else if startsWith cleanRange ''~'' then
            (let base = drop 1 cleanRange;
                 major = at (js_split CHR ''.'' base) 0;
                 minor = at (js_split CHR ''.'' base) 1;
                 vMajor = at (js_split CHR ''.'' cleanVersion) 0;
                 vMinor = at (js_split CHR ''.'' cleanVersion) 1
             in major = vMajor \<and> minor = vMinor \<and> compareVersions cleanVersion base \<ge> 0)
          else if startsWith cleanRange ''>='' then
            compareVersions cleanVersion (drop 2 cleanRange) \<ge> 0
          else if startsWith cleanRange ''>'' then
            compareVersions cleanVersion (drop 1 cleanRange) > 0
          else if startsWith cleanRange ''<='' then
            compareVersions cleanVersion (drop 2 cleanRange) \<le> 0
          else if startsWith cleanRange ''<'' then
            compareVersions cleanVersion (drop 1 cleanRange) < 0
          else cleanVersion = cleanRange)"

text \<open>
  \<open>Array.prototype.sort(cmp)\<close>: the sort is stable and orders by the comparator
  (ECMAScript 2019), which for a consistent comparator fixes the result. It is modelled as
  insertion sort: an element goes before the first later element it does not exceed.
\<close>

fun insert_by :: "('a \<Rightarrow> 'a \<Rightarrow> int) \<Rightarrow> 'a \<Rightarrow> 'a list \<Rightarrow> 'a list" where
  "insert_by cmp x [] = [x]"
| "insert_by cmp x (y # ys) = (if cmp x y \<le> 0 then x # y # ys else y # insert_by cmp x ys)"

fun sort_by :: "('a \<Rightarrow> 'a \<Rightarrow> int) \<Rightarrow> 'a list \<Rightarrow> 'a list" where
  "sort_by cmp [] = []"
| "sort_by cmp (x # xs) = insert_by cmp x (sort_by cmp xs)"

text \<open>
  \<open>matching[0] || null\<close>: \<open>null\<close> (here \<open>None\<close>) when nothing matches, and also when the
  first match is the empty string, which is falsy.
\<close>

definition findBestVersion :: "string list \<Rightarrow> string \<Rightarrow> string option" where
  "findBestVersion versions rng =
     (let matching = sort_by (\<lambda>a b. compareVersions b a)
                       (filter (\<lambda>v. satisfies v rng) versions)
      in case matching of [] \<Rightarrow> None | m # _ \<Rightarrow> if m = [] then None else Some m)"

subsection \<open>The ordering the specification names\<close>

text \<open>
  The numeric reading of a version string: its first three dot-separated components as
  integers, a missing or non-numeric component counting as \<open>0\<close>; triples are ordered
  lexicographically (major, then minor, then patch).
\<close>

definition component :: "string \<Rightarrow> nat \<Rightarrow> int" where
  "component s i =
     (case at (js_split CHR ''.'' s) i of None \<Rightarrow> 0 | Some c \<Rightarrow> parse_or_zero c)"

definition version_key :: "string \<Rightarrow> int \<times> int \<times> int" where
  "version_key s = (component s 0, component s 1, component s 2)"

text \<open>Version strings whose three compared components are exact as doubles.\<close>

definition exact_version :: "string \<Rightarrow> bool" where
  "exact_version s \<longleftrightarrow>
     \<bar>component s 0\<bar> < 2 ^ 53 \<and> \<bar>component s 1\<bar> < 2 ^ 53 \<and> \<bar>component s 2\<bar> < 2 ^ 53"

subsection \<open>The supported grammar\<close>

text \<open>
  A version of the grammar is \<open>major.minor.patch\<close>, three decimal numerals; a range is
  \<open>*\<close>, \<open>latest\<close>, a version, or a version behind one of \<open>^ ~ >= > <= <\<close>. Both are
  written out as the strings the resolver receives.
\<close>

type_synonym version = "nat \<times> nat \<times> nat"

datatype semver_range =
    Any | Latest | Exact version | Caret version | Tilde version
  | GreaterEq version | Greater version | LessEq version | Less version

definition digit_char :: "nat \<Rightarrow> char" where
  "digit_char d = char_of (48 + d)"

fun show_nat :: "nat \<Rightarrow> string" where
  "show_nat n = (if n < 10 then [digit_char n] else show_nat (n div 10) @ [digit_char (n mod 10)])"

declare show_nat.simps [simp del]

fun show_version :: "version \<Rightarrow> string" where
  "show_version (major, minor, patch) =
     show_nat major @ ''.'' @ show_nat minor @ ''.'' @ show_nat patch"

fun show_range :: "semver_range \<Rightarrow> string" where
  "show_range Any = ''*''"
| "show_range Latest = ''latest''"
| "show_range (Exact b) = show_version b"
| "show_range (Caret b) = ''^'' @ show_version b"
| "show_range (Tilde b) = ''~'' @ show_version b"
| "show_range (GreaterEq b) = ''>='' @ show_version b"
| "show_range (Greater b) = ''>'' @ show_version b"
| "show_range (LessEq b) = ''<='' @ show_version b"
| "show_range (Less b) = ''<'' @ show_version b"

text \<open>
  What the specification says a range means: caret is same major and at least the base,
  tilde is same major and minor and at least the base, the comparison operators compare
  numerically, major before minor before patch.
\<close>

fun satisfies_spec :: "version \<Rightarrow> semver_range \<Rightarrow> bool" where
  "satisfies_spec v Any = True"
| "satisfies_spec v Latest = True"
| "satisfies_spec v (Exact b) = (v = b)"
| "satisfies_spec v (Caret b) = (fst v = fst b \<and> b \<le> v)"
| "satisfies_spec v (Tilde b) = (fst v = fst b \<and> fst (snd v) = fst (snd b) \<and> b \<le> v)"
| "satisfies_spec v (GreaterEq b) = (b \<le> v)"
| "satisfies_spec v (Greater b) = (b < v)"
| "satisfies_spec v (LessEq b) = (v \<le> b)"
| "satisfies_spec v (Less b) = (v < b)"

text \<open>The versions and ranges of the grammar whose numerals are exact as doubles.\<close>

definition version_ok :: "version \<Rightarrow> bool" where
  "version_ok v \<longleftrightarrow> fst v < 2 ^ 53 \<and> fst (snd v) < 2 ^ 53 \<and> snd (snd v) < 2 ^ 53"

fun range_ok :: "semver_range \<Rightarrow> bool" where
  "range_ok Any = True"
| "range_ok Latest = True"
| "range_ok (Exact b) = version_ok b"
| "range_ok (Caret b) = version_ok b"
| "range_ok (Tilde b) = version_ok b"
| "range_ok (GreaterEq b) = version_ok b"
| "range_ok (Greater b) = version_ok b"
| "range_ok (LessEq b) = version_ok b"
| "range_ok (Less b) = version_ok b"

section \<open>Dependency graph resolver (src/cli/index.ts)\<close>

subsection \<open>Data\<close>

text \<open>
  A \<open>Record<string, string>\<close> and a \<open>Map\<close> are association lists in insertion order with
  one entry per key. Record fields carry a prefix: \<open>rp_\<close> for \<open>ResolvedPackage\<close>, \<open>vd_\<close> for
  the data of one version in the registry's answer, \<open>dist_\<close> for its \<open>dist\<close> object.
\<close>

type_synonym deps = "(string \<times> string) list"

record dist_info =
  dist_integrity :: "string option"
  dist_shasum :: "string option"
  dist_tarball :: "string option"

record version_data =
  vd_dist :: "dist_info option"
  vd_dependencies :: "deps option"
  vd_peerDependencies :: "deps option"
  vd_optionalDependencies :: "deps option"

text \<open>The registry's answer for a package; \<open>None\<close> is a \<open>versions\<close> field that is absent.\<close>

type_synonym metadata = "(string \<times> version_data) list option"

record ResolvedPackage =
  rp_name :: string
  rp_version :: string
  rp_integrity :: string
  rp_tarballUrl :: string
  rp_dependencies :: deps
  rp_peerDependencies :: "deps option"
  rp_optionalDependencies :: "deps option"

type_synonym resolved_map = "(string \<times> ResolvedPackage) list"

text \<open>\<open>Map.prototype.has\<close> and \<open>Map.prototype.set\<close>: a key that is present keeps its place.\<close>

definition map_has :: "('k \<times> 'v) list \<Rightarrow> 'k \<Rightarrow> bool" where
  "map_has m k \<longleftrightarrow> k \<in> set (map fst m)"

fun map_set :: "('k \<times> 'v) list \<Rightarrow> 'k \<Rightarrow> 'v \<Rightarrow> ('k \<times> 'v) list" where
  "map_set [] k v = [(k, v)]"
| "map_set ((k', v') # m) k v = (if k' = k then (k, v) # m else (k', v') # map_set m k v)"

text \<open>\<open>a || b\<close> on an optional string: \<open>undefined\<close> and \<open>''\<close> are falsy.\<close>

definition or_else :: "string option \<Rightarrow> string \<Rightarrow> string" where
  "or_else a b = (case a of None \<Rightarrow> b | Some s \<Rightarrow> if s = [] then b else s)"

datatype resolve_error = FetchFailed | MalformedMetadata | DepthExceeded

datatype warning =
    NoMatchingVersion string string
  | FailedToResolve string resolve_error

subsection \<open>The asynchronous calls in flight\<close>

text \<open>
  \<open>resolveDependencies\<close> is an \<open>async\<close> function: it runs until it awaits, and goes on when
  what it awaits settles. A call that has not returned is a \<open>frame\<close>: its \<open>depth\<close>, the
  callbacks of the batch it awaits with \<open>Promise.all\<close>, and the part of \<open>toResolve\<close> behind
  that batch. A callback of \<open>batch.map\<close> is a \<open>task\<close>: it has returned (\<open>Done\<close>), or it
  awaits \<open>fetchPackageMetadata(name)\<close>, or it awaits the recursive call.
\<close>

datatype task = Done | Fetching string string | Awaiting frame
  and frame = Frame nat "task list" deps

definition batchSize :: "nat \<Rightarrow> nat" where
  "batchSize num_cpus = min 32 (num_cpus * 4)"

text \<open>A callback starts: \<open>if (resolved.has(name)) return;\<close> and then the request goes out.\<close>

definition start_task :: "resolved_map \<Rightarrow> string \<times> string \<Rightarrow> task" where
  "start_task resolved entry =
     (if map_has resolved (fst entry) then Done else Fetching (fst entry) (snd entry))"

definition all_done :: "task list \<Rightarrow> bool" where
  "all_done ts \<longleftrightarrow> list_all (\<lambda>t. t = Done) ts"

text \<open>
  The loop \<open>for (let i = 0; i < toResolve.length; i += batchSize)\<close> from the position
  where \<open>rest\<close> begins, up to its next \<open>await\<close> that does not settle at once: \<open>None\<close> when
  the loop ends and the call returns. With a batch size of \<open>0\<close> the loop never advances.
\<close>

function next_batch :: "nat \<Rightarrow> resolved_map \<Rightarrow> nat \<Rightarrow> deps \<Rightarrow> frame option" where
  "next_batch bs resolved depth rest =
     (if rest = [] then None
      else if bs = 0 then Some (Frame depth [] rest)
      else
        let tasks = map (start_task resolved) (take bs rest) in
        if all_done tasks then next_batch bs resolved depth (drop bs rest)
        else Some (Frame depth tasks (drop bs rest)))"
  by pat_completeness auto
termination
  by (relation "measure (\<lambda>(bs, resolved, depth, rest). length rest)") auto

declare next_batch.simps [simp del]

text \<open>
  A call of \<open>resolveDependencies\<close> up to its first \<open>await\<close>: the depth check, the filter
  on \<open>resolved\<close>, the first batch.
\<close>

definition call_resolveDependencies ::
  "nat \<Rightarrow> deps \<Rightarrow> resolved_map \<Rightarrow> nat \<Rightarrow> resolve_error + frame option" where
  "call_resolveDependencies num_cpus dependencies resolved depth =
     (if depth > 50 then Inl DepthExceeded
      else
        let toResolve = filter (\<lambda>entry. \<not> map_has resolved (fst entry)) dependencies
        in Inr (next_batch (batchSize num_cpus) resolved depth toResolve))"

text \<open>
  A callback goes on with the registry's answer (\<open>None\<close>: the request failed or the status
  was not 200): the best version, \<open>resolved.set\<close>, the recursive call. Whatever is thrown
  inside the \<open>try\<close> block, the error of the recursive call included, is caught and logged.
\<close>

definition make_package :: "string \<Rightarrow> string \<Rightarrow> version_data \<Rightarrow> ResolvedPackage" where
  "make_package name bestVersion versionData =
     \<lparr> rp_name = name,
       rp_version = bestVersion,
       rp_integrity =
         or_else (case vd_dist versionData of None \<Rightarrow> None | Some d \<Rightarrow> dist_integrity d)
           (or_else (case vd_dist versionData of None \<Rightarrow> None | Some d \<Rightarrow> dist_shasum d) ''''),
       rp_tarballUrl =
         or_else (case vd_dist versionData of None \<Rightarrow> None | Some d \<Rightarrow> dist_tarball d) '''',
       rp_dependencies = (case vd_dependencies versionData of None \<Rightarrow> [] | Some ds \<Rightarrow> ds),
       rp_peerDependencies = vd_peerDependencies versionData,
       rp_optionalDependencies = vd_optionalDependencies versionData \<rparr>"

definition on_metadata ::
  "nat \<Rightarrow> resolved_map \<Rightarrow> nat \<Rightarrow> string \<Rightarrow> string \<Rightarrow> metadata option
     \<Rightarrow> resolved_map \<times> warning list \<times> task" where
  "on_metadata num_cpus resolved depth name rng answer =
     (case answer of
        None \<Rightarrow> (resolved, [FailedToResolve name FetchFailed], Done)
      | Some metadata \<Rightarrow>
          let versions = map fst (case metadata of None \<Rightarrow> [] | Some vs \<Rightarrow> vs) in
          (case findBestVersion versions rng of
             None \<Rightarrow> (resolved, [NoMatchingVersion name rng], Done)
           | Some bestVersion \<Rightarrow>
               (case map_of (case metadata of None \<Rightarrow> [] | Some vs \<Rightarrow> vs) bestVersion of
                  None \<Rightarrow> (resolved, [FailedToResolve name MalformedMetadata], Done)
                | Some versionData \<Rightarrow>
                    let pkg = make_package name bestVersion versionData;
                        resolved' = map_set resolved name pkg
                    in
                      if rp_dependencies pkg \<noteq> [] then
                        (case call_resolveDependencies num_cpus (rp_dependencies pkg)
                                resolved' (depth + 1) of
                           Inl e \<Rightarrow> (resolved', [FailedToResolve name e], Done)
                         | Inr None \<Rightarrow> (resolved', [], Done)
                         | Inr (Some f) \<Rightarrow> (resolved', [], Awaiting f))
                      else (resolved', [], Done))))"

text \<open>The requests in flight, left to right, each with the way to it and its frame's depth.\<close>

fun pending_task :: "nat \<Rightarrow> task \<Rightarrow> (nat list \<times> nat \<times> string \<times> string) list"
  and pending_tasks :: "nat \<Rightarrow> nat \<Rightarrow> task list \<Rightarrow> (nat list \<times> nat \<times> string \<times> string) list" where
  "pending_task d Done = []"
| "pending_task d (Fetching n r) = [([], d, n, r)]"
| "pending_task d (Awaiting (Frame d' ts rest)) = pending_tasks d' 0 ts"
| "pending_tasks d i [] = []"
| "pending_tasks d i (t # ts) =
     map (\<lambda>(p, x). (i # p, x)) (pending_task d t) @ pending_tasks d (Suc i) ts"

fun put_task :: "nat list \<Rightarrow> task \<Rightarrow> task \<Rightarrow> task" where
  "put_task [] new t = new"
| "put_task (i # p) new (Awaiting (Frame d ts rest)) =
     Awaiting (Frame d (ts[i := put_task p new (ts ! i)]) rest)"
| "put_task (i # p) new t = t"

text \<open>
  Promises settle upwards: a frame whose callbacks have all returned goes on with its
  loop, and a call that returns lets the callback that awaits it return.
\<close>

fun settle_task :: "nat \<Rightarrow> resolved_map \<Rightarrow> task \<Rightarrow> task"
  and settle_frame :: "nat \<Rightarrow> resolved_map \<Rightarrow> frame \<Rightarrow> frame option" where
  "settle_task bs resolved Done = Done"
| "settle_task bs resolved (Fetching n r) = Fetching n r"
| "settle_task bs resolved (Awaiting f) =
     (case settle_frame bs resolved f of None \<Rightarrow> Done | Some f' \<Rightarrow> Awaiting f')"
| "settle_frame bs resolved (Frame d ts rest) =
     (let ts' = map (settle_task bs resolved) ts
      in if all_done ts' then next_batch bs resolved d rest else Some (Frame d ts' rest))"

subsection \<open>The event loop\<close>

text \<open>
  The state of a resolution pass: the \<open>resolved\<close> map, the warnings logged, the requests
  answered so far (with the depth of the call that made them), and the call \<open>install\<close>
  awaits. One step is one turn of the event loop: the answer to one of the requests in
  flight arrives, its callback goes on, and the promises that settle by it settle. The
  schedule names, step by step, which request in flight is answered next; the requests
  made are those answered and those still in flight.
\<close>

record rstate =
  st_resolved :: resolved_map
  st_warnings :: "warning list"
  st_answered :: "(nat \<times> string) list"
  st_root :: task

type_synonym registry = "string \<Rightarrow> metadata option"

definition deliver :: "nat \<Rightarrow> registry \<Rightarrow> nat \<Rightarrow> rstate \<Rightarrow> rstate" where
  "deliver num_cpus registry k st =
     (let ps = pending_task 0 (st_root st) in
      if k < length ps then
        (case ps ! k of (path, d, n, r) \<Rightarrow>
           (case on_metadata num_cpus (st_resolved st) d n r (registry n) of (resolved', ws, t) \<Rightarrow>
              st\<lparr> st_resolved := resolved',
                  st_warnings := st_warnings st @ ws,
                  st_answered := st_answered st @ [(d, n)],
                  st_root := settle_task (batchSize num_cpus) resolved' (put_task path t (st_root st)) \<rparr>))
      else st)"

datatype ('e, 'a) run = Throws 'e | NeverReturns | Returns 'a

definition start_state :: "resolved_map \<Rightarrow> frame option \<Rightarrow> rstate" where
  "start_state resolved0 started =
     \<lparr> st_resolved = resolved0, st_warnings = [], st_answered = [],
       st_root = (case started of None \<Rightarrow> Done | Some f \<Rightarrow> Awaiting f) \<rparr>"

definition run_schedule :: "nat \<Rightarrow> registry \<Rightarrow> nat list \<Rightarrow> rstate \<Rightarrow> rstate" where
  "run_schedule num_cpus registry schedule st0 =
     foldl (\<lambda>st k. deliver num_cpus registry k st) st0 schedule"

text \<open>
  The awaited call as a whole: it throws at once when the depth is beyond the limit, it
  returns when every callback has returned, and it never returns while an answer is
  outstanding.
\<close>

definition resolveDependencies ::
  "nat \<Rightarrow> registry \<Rightarrow> nat list \<Rightarrow> deps \<Rightarrow> resolved_map \<Rightarrow> nat \<Rightarrow> (resolve_error, rstate) run" where
  "resolveDependencies num_cpus registry schedule dependencies resolved0 depth =
     (case call_resolveDependencies num_cpus dependencies resolved0 depth of
        Inl e \<Rightarrow> Throws e
      | Inr started \<Rightarrow>
          let st = run_schedule num_cpus registry schedule (start_state resolved0 started)
          in if st_root st = Done then Returns st else NeverReturns)"


section \<open>install (src/cli/index.ts)\<close>

text \<open>A JSON file as \<open>install\<close> finds it: absent, not parsable, or holding a value.\<close>

datatype 'a json_file = Missing | Unparsable | Parsed 'a

record PackageJson =
  pj_dependencies :: "deps option"
  pj_devDependencies :: "deps option"

record store_entry =
  se_integrity :: string
  se_compressedSize :: nat
  se_originalSize :: nat
  se_dictionary :: string
  se_extractedPath :: "string option"

record StoreIndex =
  si_version :: nat
  si_packages :: "(string \<times> (string \<times> store_entry) list) list"

record lock_entry =
  le_version :: string
  le_integrity :: string
  le_dependencies :: deps
  le_tarballUrl :: "string option"

record Lockfile =
  lf_lockfileVersion :: nat
  lf_packages :: "(string \<times> lock_entry) list"

text \<open>
  What \<open>downloadAndExtract(url, destDir)\<close> does for a URL: the download or the
  decompression throws, or the extraction throws after \<open>mkdirSync(destDir)\<close>, or the
  archive is extracted and the two sizes are returned.
\<close>

datatype download_result = DownloadFailed | ExtractFailed | Extracted nat nat

datatype failure =
    PackageJsonNotFound | PackageJsonSyntaxError | ResolveFailed resolve_error | LinkFailed

datatype install_warning =
    Resolving warning
  | FailedToDownload string string
  | PackageNotInStore string string

text \<open>
  Everything \<open>install\<close> reads from outside: the three JSON files, the paths that exist
  (\<open>existsSync\<close>), the registry and the order in which its answers arrive, the tarball
  hosts, whether linking a store directory throws, SHA-256 in hexadecimal, the packages
  directory of the store, the number of CPUs, and the options that matter.
\<close>

record env =
  package_json :: "PackageJson json_file"
  lock_file :: "Lockfile json_file"
  index_file :: "StoreIndex json_file"
  existing :: "string list"
  registry :: registry
  schedule :: "nat list"
  tarball :: "string \<Rightarrow> download_result"
  link_throws :: "string \<Rightarrow> bool"
  sha256_hex :: "string \<Rightarrow> string"
  PACKAGES_DIR :: string
  NUM_CPUS :: nat
  opt_dev :: bool
  opt_production :: bool
  opt_parallel :: "int option"

definition existsSync :: "string list \<Rightarrow> string \<Rightarrow> bool" where
  "existsSync paths p \<longleftrightarrow> p \<in> set paths"

definition hashPackage :: "(string \<Rightarrow> string) \<Rightarrow> string \<Rightarrow> string \<Rightarrow> string" where
  "hashPackage sha name version = sha (name @ ''@'' @ version)"

definition getPackageDir :: "string \<Rightarrow> string \<Rightarrow> string" where
  "getPackageDir packages_dir hash = packages_dir @ ''/'' @ take 2 hash @ ''/'' @ hash"

definition loadStoreIndex :: "StoreIndex json_file \<Rightarrow> StoreIndex" where
  "loadStoreIndex f =
     (case f of Parsed i \<Rightarrow> i | _ \<Rightarrow> \<lparr> si_version = 1, si_packages = [] \<rparr>)"

definition loadLockfile :: "Lockfile json_file \<Rightarrow> Lockfile option" where
  "loadLockfile f = (case f of Missing \<Rightarrow> None | Unparsable \<Rightarrow> None | Parsed l \<Rightarrow> Some l)"

text \<open>\<open>Object.assign(target, source)\<close>; an \<open>undefined\<close> source is skipped.\<close>

definition object_assign :: "deps \<Rightarrow> deps option \<Rightarrow> deps" where
  "object_assign target source =
     (case source of None \<Rightarrow> target
      | Some kvs \<Rightarrow> foldl (\<lambda>m kv. map_set m (fst kv) (snd kv)) target kvs)"

text \<open>
  \<open>key.replace(/@[^@]+$/, '')\<close>: the part from the last \<open>@\<close> on is removed when at least
  one character follows that \<open>@\<close>.
\<close>

definition name_of_key :: "string \<Rightarrow> string" where
  "name_of_key key =
     (let suffix = takeWhile (\<lambda>c. c \<noteq> CHR ''@'') (rev key) in
      if suffix \<noteq> [] \<and> length suffix < length key
      then take (length key - length suffix - 1) key else key)"

definition default_tarballUrl :: "string \<Rightarrow> string \<Rightarrow> string" where
  "default_tarballUrl name version =
     ''https://registry.npmjs.org/'' @ name @ ''/-/'' @ last (js_split CHR ''/'' name)
       @ ''-'' @ version @ ''.tgz''"

definition from_lockfile :: "Lockfile \<Rightarrow> resolved_map" where
  "from_lockfile lockfile =
     foldl (\<lambda>resolved entry.
         let name = name_of_key (fst entry); pkg = snd entry in
         map_set resolved name
           \<lparr> rp_name = name,
             rp_version = le_version pkg,
             rp_integrity = le_integrity pkg,
             rp_tarballUrl = or_else (le_tarballUrl pkg) (default_tarballUrl name (le_version pkg)),
             rp_dependencies = le_dependencies pkg,
             rp_peerDependencies = None,
             rp_optionalDependencies = None \<rparr>)
       [] (lf_packages lockfile)"

text \<open>
  \<open>storeIndex.packages[name]?.versions[version]\<close>. The two records are objects, so a key
  that has no entry of its own is looked up in \<open>Object.prototype\<close>. For a version this
  changes nothing: what is found there has no \<open>extractedPath\<close>, as if nothing were found.
  For a name it does: \<open>packages[name]\<close> is then a value without \<open>versions\<close>, and reading
  \<open>versions[version]\<close> of it throws a \<open>TypeError\<close>, outside any \<open>try\<close>. Writing an entry
  adds it to the record except under the key \<open>__proto__\<close>, which sets the prototype of the
  record instead, so that the entry is found in this run but is not saved with the index.
  The model is a lookup among the entries of the record itself; it covers the package
  names that \<open>Object.prototype\<close> does not have and the versions other than \<open>__proto__\<close>.
  \<open>plain_names\<close> collects the resolved maps that keep to them, and the theorem on the fetch
  phase is stated for those.
\<close>

definition object_prototype_names :: "string list" where
  "object_prototype_names =
     [''constructor'', ''__defineGetter__'', ''__defineSetter__'', ''hasOwnProperty'',
      ''__lookupGetter__'', ''__lookupSetter__'', ''isPrototypeOf'', ''propertyIsEnumerable'',
      ''toString'', ''valueOf'', ''__proto__'', ''toLocaleString'']"

definition plain_names :: "resolved_map \<Rightarrow> bool" where
  "plain_names res \<longleftrightarrow>
     (\<forall>entry\<in>set res. fst entry \<notin> set object_prototype_names \<and>
        rp_name (snd entry) \<notin> set object_prototype_names \<and>
        rp_version (snd entry) \<noteq> ''__proto__'')"

definition index_lookup :: "StoreIndex \<Rightarrow> string \<Rightarrow> string \<Rightarrow> store_entry option" where
  "index_lookup idx name version =
     (case map_of (si_packages idx) name of None \<Rightarrow> None | Some vs \<Rightarrow> map_of vs version)"

definition index_store :: "StoreIndex \<Rightarrow> string \<Rightarrow> string \<Rightarrow> store_entry \<Rightarrow> StoreIndex" where
  "index_store idx name version e =
     (let vs = (case map_of (si_packages idx) name of None \<Rightarrow> [] | Some vs \<Rightarrow> vs)
      in idx\<lparr> si_packages := map_set (si_packages idx) name (map_set vs version e) \<rparr>)"

text \<open>\<open>existing?.extractedPath && existsSync(existing.extractedPath)\<close>\<close>

definition in_store :: "StoreIndex \<Rightarrow> string list \<Rightarrow> string \<Rightarrow> string \<Rightarrow> bool" where
  "in_store idx paths name version =
     (case index_lookup idx name version of
        None \<Rightarrow> False
      | Some e \<Rightarrow>
          (case se_extractedPath e of
             None \<Rightarrow> False
           | Some p \<Rightarrow> p \<noteq> [] \<and> existsSync paths p))"

record fetch_state =
  fs_index :: StoreIndex
  fs_paths :: "string list"
  fs_downloadCount :: nat
  fs_attempts :: "string list"
  fs_failed :: "install_warning list"

text \<open>One callback of the download batch, with its \<open>try\<close> and \<open>catch\<close>.\<close>

definition download_one :: "env \<Rightarrow> fetch_state \<Rightarrow> ResolvedPackage \<Rightarrow> fetch_state" where
  "download_one e st pkg =
     (let hash = hashPackage (sha256_hex e) (rp_name pkg) (rp_version pkg);
          extractDir = getPackageDir (PACKAGES_DIR e) hash;
          st1 = st\<lparr> fs_attempts := fs_attempts st @ [rp_tarballUrl pkg] \<rparr>
      in case tarball e (rp_tarballUrl pkg) of
           DownloadFailed \<Rightarrow>
             st1\<lparr> fs_failed := fs_failed st1 @ [FailedToDownload (rp_name pkg) (rp_version pkg)] \<rparr>
         | ExtractFailed \<Rightarrow>
             st1\<lparr> fs_paths := extractDir # fs_paths st1,
                  fs_failed := fs_failed st1 @ [FailedToDownload (rp_name pkg) (rp_version pkg)] \<rparr>
         | Extracted downloadSize extractedSize \<Rightarrow>
             st1\<lparr> fs_paths := extractDir # fs_paths st1,
                  fs_index := index_store (fs_index st1) (rp_name pkg) (rp_version pkg)
                    \<lparr> se_integrity = rp_integrity pkg,
                      se_compressedSize = downloadSize,
                      se_originalSize = extractedSize,
                      se_dictionary = ''node_modules'',
                      se_extractedPath = Some extractDir \<rparr>,
                  fs_downloadCount := fs_downloadCount st1 + 1 \<rparr>)"

text \<open>
  The loop \<open>for (let i = 0; i < toDownload.length; i += parallelLimit)\<close> for a positive
  limit. The callbacks of a batch touch different index entries, so taking them in order
  fixes nothing but the order of keys and warnings.
\<close>

function download_loop ::
  "env \<Rightarrow> nat \<Rightarrow> ResolvedPackage list \<Rightarrow> fetch_state \<Rightarrow> fetch_state" where
  "download_loop e limit rest st =
     (if rest = [] \<or> limit = 0 then st
      else download_loop e limit (drop limit rest) (foldl (download_one e) st (take limit rest)))"
  by pat_completeness auto
termination
  by (relation "measure (\<lambda>(e, limit, rest, st). length rest)") auto

declare download_loop.simps [simp del]

definition parallelLimit :: "env \<Rightarrow> int" where
  "parallelLimit e =
     (case opt_parallel e of
        None \<Rightarrow> int (min 16 (NUM_CPUS e * 2))
      | Some n \<Rightarrow> if n = 0 then int (min 16 (NUM_CPUS e * 2)) else n)"

record linked_package =
  ln_name :: string
  ln_version :: string
  ln_source :: string

text \<open>
  \<open>createVirtualStore\<close>: a package whose store entry is missing is skipped with a
  warning; the others are linked, and an error thrown while linking leaves \<open>install\<close>.
\<close>

fun createVirtualStore ::
  "env \<Rightarrow> StoreIndex \<Rightarrow> string list \<Rightarrow> resolved_map
     \<Rightarrow> (linked_package list \<times> install_warning list) option" where
  "createVirtualStore e idx paths [] = Some ([], [])"
| "createVirtualStore e idx paths ((name, pkg) # others) =
     (case (case index_lookup idx name (rp_version pkg) of
              None \<Rightarrow> None | Some entry \<Rightarrow> se_extractedPath entry) of
        None \<Rightarrow>
          map_option (\<lambda>(ls, ws). (ls, PackageNotInStore name (rp_version pkg) # ws))
            (createVirtualStore e idx paths others)
      | Some p \<Rightarrow>
          if p = [] \<or> \<not> existsSync paths p then
            map_option (\<lambda>(ls, ws). (ls, PackageNotInStore name (rp_version pkg) # ws))
              (createVirtualStore e idx paths others)
          else if link_throws e p then None
          else
            map_option
              (\<lambda>(ls, ws). (\<lparr> ln_name = name, ln_version = rp_version pkg, ln_source = p \<rparr> # ls, ws))
              (createVirtualStore e idx paths others))"

definition make_lockfile :: "resolved_map \<Rightarrow> Lockfile" where
  "make_lockfile resolved =
     \<lparr> lf_lockfileVersion = 1,
       lf_packages =
         foldl (\<lambda>m entry. map_set m (fst entry @ ''@'' @ rp_version (snd entry))
                  \<lparr> le_version = rp_version (snd entry),
                    le_integrity = rp_integrity (snd entry),
                    le_dependencies = rp_dependencies (snd entry),
                    le_tarballUrl = Some (rp_tarballUrl (snd entry)) \<rparr>)
           [] resolved \<rparr>"

record install_result =
  out_resolved :: resolved_map
  out_requests :: "(nat \<times> string) list"
  out_cachedCount :: nat
  out_downloadCount :: nat
  out_attempts :: "string list"
  out_index :: StoreIndex
  out_paths :: "string list"
  out_linked :: "linked_package list"
  out_lockfile :: Lockfile
  out_warnings :: "install_warning list"


text \<open>The dependencies to resolve: \<open>allDeps\<close> as the three \<open>Object.assign\<close> calls leave it.\<close>

definition allDeps :: "env \<Rightarrow> PackageJson \<Rightarrow> deps" where
  "allDeps e packageJson =
     (let deps0 = (if \<not> opt_production e
                   then object_assign [] (pj_devDependencies packageJson) else []);
          deps1 = object_assign deps0 (pj_dependencies packageJson)
      in if opt_dev e then object_assign deps1 (pj_devDependencies packageJson) else deps1)"

text \<open>Resolution over the network: \<open>await resolveDependencies(allDeps, resolved, 0)\<close>.\<close>

definition network_resolution ::
  "env \<Rightarrow> PackageJson \<Rightarrow> (failure, resolved_map \<times> (nat \<times> string) list \<times> warning list) run" where
  "network_resolution e packageJson =
     (case resolveDependencies (NUM_CPUS e) (registry e) (schedule e) (allDeps e packageJson) [] 0 of
        Throws err \<Rightarrow> Throws (ResolveFailed err)
      | NeverReturns \<Rightarrow> NeverReturns
      | Returns st \<Rightarrow> Returns (st_resolved st, st_answered st, st_warnings st))"

text \<open>The resolution phase: the lockfile when it holds a package, the registry otherwise.\<close>

definition resolve_phase ::
  "env \<Rightarrow> PackageJson \<Rightarrow> (failure, resolved_map \<times> (nat \<times> string) list \<times> warning list) run" where
  "resolve_phase e packageJson =
     (case loadLockfile (lock_file e) of
        Some lockfile \<Rightarrow>
          if lf_packages lockfile \<noteq> [] then Returns (from_lockfile lockfile, [], [])
          else network_resolution e packageJson
      | None \<Rightarrow> network_resolution e packageJson)"

text \<open>The fetch phase: what is in the store is counted, the rest is downloaded.\<close>

definition fetch_phase :: "env \<Rightarrow> StoreIndex \<Rightarrow> resolved_map \<Rightarrow> (nat \<times> fetch_state) option" where
  "fetch_phase e storeIndex resolved =
     (let pkgs = map snd resolved;
          cached = filter (\<lambda>pkg. in_store storeIndex (existing e) (rp_name pkg) (rp_version pkg)) pkgs;
          toDownload =
            filter (\<lambda>pkg. \<not> in_store storeIndex (existing e) (rp_name pkg) (rp_version pkg)) pkgs;
          st0 = \<lparr> fs_index = storeIndex, fs_paths = existing e, fs_downloadCount = 0,
                  fs_attempts = [], fs_failed = [] \<rparr>
      in if toDownload \<noteq> [] \<and> parallelLimit e \<le> 0 then None
         else Some (length cached, download_loop e (nat (parallelLimit e)) toDownload st0))"

definition install :: "env \<Rightarrow> (failure, install_result) run" where
  "install e =
     (case package_json e of
        Missing \<Rightarrow> Throws PackageJsonNotFound
      | Unparsable \<Rightarrow> Throws PackageJsonSyntaxError
      | Parsed packageJson \<Rightarrow>
          let storeIndex = loadStoreIndex (index_file e) in
          (case resolve_phase e packageJson of
             Throws err \<Rightarrow> Throws err
           | NeverReturns \<Rightarrow> NeverReturns
           | Returns (resolved, requests, ws) \<Rightarrow>
               (case fetch_phase e storeIndex resolved of
                  None \<Rightarrow> NeverReturns
                | Some (cachedCount, st) \<Rightarrow>
                    (case createVirtualStore e (fs_index st) (fs_paths st) resolved of
                       None \<Rightarrow> Throws LinkFailed
                     | Some (linked, notInStore) \<Rightarrow>
                         Returns
                           \<lparr> out_resolved = resolved,
                             out_requests = requests,
                             out_cachedCount = cachedCount,
                             out_downloadCount = fs_downloadCount st,
                             out_attempts = fs_attempts st,
                             out_index = fs_index st,
                             out_paths = fs_paths st,
                             out_linked = linked,
                             out_lockfile = make_lockfile resolved,
                             out_warnings = map Resolving ws @ fs_failed st @ notInStore \<rparr>))))"

text \<open>
  What the next \<open>install\<close> finds when nothing else touches the project and the store: the
  lockfile and the store index as written, the paths that exist now, the same manifest.
\<close>

definition after_install :: "env \<Rightarrow> install_result \<Rightarrow> env" where
  "after_install e out =
     e\<lparr> lock_file := Parsed (out_lockfile out),
        index_file := Parsed (out_index out),
        existing := out_paths out \<rparr>"

definition next_env :: "env \<Rightarrow> env" where
  "next_env e = (case install e of Returns out \<Rightarrow> after_install e out | _ \<Rightarrow> e)"

definition returned :: "('e, 'a) run \<Rightarrow> 'a option" where
  "returned r = (case r of Returns x \<Rightarrow> Some x | _ \<Rightarrow> None)"

subsection \<open>Notions used in the statements\<close>

text \<open>
  The store entry the specification trusts: the index has a record for the package's name
  and version, the record names an extracted path, and that path exists.
\<close>

definition entry_with_directory :: "StoreIndex \<Rightarrow> string list \<Rightarrow> ResolvedPackage \<Rightarrow> bool" where
  "entry_with_directory idx paths pkg \<longleftrightarrow>
     (\<exists>entry p. index_lookup idx (rp_name pkg) (rp_version pkg) = Some entry \<and>
        se_extractedPath entry = Some p \<and> p \<noteq> [] \<and> existsSync paths p)"

text \<open>
  A package is stored under its own directory: the index records the directory that
  \<open>getPackageDir(hashPackage(name, version))\<close> names, and the directory exists.
\<close>

definition stored :: "env \<Rightarrow> fetch_state \<Rightarrow> string \<Rightarrow> string \<Rightarrow> bool" where
  "stored e st n v \<longleftrightarrow>
     (\<exists>entry. index_lookup (fs_index st) n v = Some entry \<and>
        se_extractedPath entry = Some (getPackageDir (PACKAGES_DIR e) (hashPackage (sha256_hex e) n v)) \<and>
        getPackageDir (PACKAGES_DIR e) (hashPackage (sha256_hex e) n v) \<in> set (fs_paths st))"

text \<open>
  A \<open>resolved\<close> map as \<open>install\<close> builds it: one entry per name, each package under its
  own name. \<open>without_optional\<close> is a package as the lockfile keeps it.
\<close>

definition keyed_by_name :: "resolved_map \<Rightarrow> bool" where
  "keyed_by_name res \<longleftrightarrow> distinct (map fst res) \<and> (\<forall>entry\<in>set res. rp_name (snd entry) = fst entry)"

definition without_optional :: "ResolvedPackage \<Rightarrow> ResolvedPackage" where
  "without_optional pkg = pkg\<lparr> rp_peerDependencies := None, rp_optionalDependencies := None \<rparr>"

text \<open>The key and the value of a package in the lockfile.\<close>

definition lock_key :: "string \<times> ResolvedPackage \<Rightarrow> string" where
  "lock_key entry = fst entry @ ''@'' @ rp_version (snd entry)"

definition lock_value :: "string \<times> ResolvedPackage \<Rightarrow> lock_entry" where
  "lock_value entry =
     \<lparr> le_version = rp_version (snd entry), le_integrity = rp_integrity (snd entry),
       le_dependencies = rp_dependencies (snd entry),
       le_tarballUrl = Some (rp_tarballUrl (snd entry)) \<rparr>"

text \<open>
  Packages that come back from the lockfile as they went in: the tarball URL is not
  empty, the version is not empty and has no \<open>@\<close>.
\<close>

definition sound_versions :: "resolved_map \<Rightarrow> bool" where
  "sound_versions res \<longleftrightarrow>
     (\<forall>entry\<in>set res. rp_tarballUrl (snd entry) \<noteq> [] \<and> rp_version (snd entry) \<noteq> [] \<and>
        CHR ''@'' \<notin> set (rp_version (snd entry)))"


section \<open>linkPackage (src/cli/index.ts)\<close>

text \<open>
  A path is the list of its names from the root; \<open>join(dir, name)\<close> is \<open>dir @ [name]\<close>. The
  source of a link is a tree of regular files and directories, as \<open>readdirSync\<close> with file
  types lists it level by level. It lies outside the destination, so linking does not
  change it. Reading and writing a regular file is taken to succeed; what can fail is
  \<open>linkSync\<close> and \<open>symlinkSync\<close> (caught by the source), \<open>mkdirSync\<close> on a path that is a
  file, \<open>unlinkSync\<close> on a directory, and \<open>readdirSync\<close> on a file.
\<close>

type_synonym path = "string list"

type_synonym bytes = "nat list"

datatype tree = File bytes | Dir "(string \<times> tree) list"

text \<open>
  What the destination holds: a file of its own, a hard link to a source file (the same
  inode), a symbolic link to a source path, or a directory.
\<close>

datatype entry = Regular bytes | HardLink path | SymLink path | Folder "(string \<times> entry) list"

datatype link_mode = Hardlink | Symlink | Copy

datatype fs_error = EEXIST | EISDIR | ENOTDIR

text \<open>
  \<open>existsSync\<close>, \<open>mkdirSync\<close> and \<open>writeFileSync\<close> follow a symbolic link at the
  destination. Where the link leads to the source file that is being linked (as a link
  does that an earlier \<open>linkPackage\<close> of the same source has made), the target exists:
  \<open>existsSync\<close> is true and \<open>unlinkSync\<close> removes the link. Any other link leads out of
  the two trees: if its target is missing, \<open>existsSync\<close> is false, nothing is unlinked,
  the link call fails and the content is written through the link; at the place of a
  directory the call goes on in the target. The model keeps no state for such targets
  and stops there with \<open>FollowsLink\<close>, saying nothing about what the call does; \<open>Thrown\<close>
  is an error that leaves \<open>linkPackage\<close>.
\<close>

datatype halt = Thrown fs_error | FollowsLink

definition map_delete :: "('k \<times> 'v) list \<Rightarrow> 'k \<Rightarrow> ('k \<times> 'v) list" where
  "map_delete m k = filter (\<lambda>kv. fst kv \<noteq> k) m"

text \<open>
  The three branches on \<open>mode\<close> with their \<open>try\<close> and \<open>catch\<close>: what is at the destination
  path afterwards. \<open>links p\<close> says that the link call for the source path \<open>p\<close>
  succeeds; when it throws, the content read from the source is written.
\<close>

definition linked_entry :: "(path \<Rightarrow> bool) \<Rightarrow> link_mode \<Rightarrow> path \<Rightarrow> bytes \<Rightarrow> entry" where
  "linked_entry links mode srcPath content =
     (case mode of
        Hardlink \<Rightarrow> if links srcPath then HardLink srcPath else Regular content
      | Symlink \<Rightarrow> if links srcPath then SymLink srcPath else Regular content
      | Copy \<Rightarrow> Regular content)"

text \<open>
  The branch for an entry that is not a directory: \<open>existsSync\<close> and \<open>unlinkSync\<close>, then
  the link.
\<close>

definition link_file ::
  "(path \<Rightarrow> bool) \<Rightarrow> link_mode \<Rightarrow> path \<Rightarrow> string \<Rightarrow> bytes \<Rightarrow> (string \<times> entry) list
     \<Rightarrow> halt + (string \<times> entry) list" where
  "link_file links mode srcDir name content dest =
     (let linked = linked_entry links mode (srcDir @ [name]) content
      in case map_of dest name of
           None \<Rightarrow> Inr (map_set dest name linked)
         | Some (Folder es) \<Rightarrow> Inl (Thrown EISDIR)
         | Some (SymLink target) \<Rightarrow>
             if target = srcDir @ [name]
             then Inr (map_set (map_delete dest name) name linked)
             else Inl FollowsLink
         | Some old \<Rightarrow> Inr (map_set (map_delete dest name) name linked))"

text \<open>
  \<open>linkPackage(srcDir, destDir, mode)\<close> for the source node at \<open>srcDir\<close> and what is at
  \<open>destDir\<close> (\<open>None\<close>: nothing); it returns the entries of \<open>destDir\<close> afterwards.
  \<open>link_entries\<close> is its loop over the entries that \<open>readdirSync\<close> returned.
\<close>

fun linkPackage ::
  "(path \<Rightarrow> bool) \<Rightarrow> link_mode \<Rightarrow> path \<Rightarrow> tree \<Rightarrow> entry option
     \<Rightarrow> halt + (string \<times> entry) list"
  and link_entries ::
  "(path \<Rightarrow> bool) \<Rightarrow> link_mode \<Rightarrow> path \<Rightarrow> (string \<times> tree) list \<Rightarrow> (string \<times> entry) list
     \<Rightarrow> halt + (string \<times> entry) list" where
  "linkPackage links mode srcDir src destNode =
     (case (case destNode of
              None \<Rightarrow> Inr []
            | Some (Folder es) \<Rightarrow> Inr es
            | Some (SymLink target) \<Rightarrow> Inl FollowsLink
            | Some other \<Rightarrow> Inl (Thrown EEXIST)) of
        Inl err \<Rightarrow> Inl err
      | Inr dest \<Rightarrow>
          (case src of
             File content \<Rightarrow> Inl (Thrown ENOTDIR)
           | Dir entries \<Rightarrow> link_entries links mode srcDir entries dest))"
| "link_entries links mode srcDir [] dest = Inr dest"
| "link_entries links mode srcDir ((name, node) # rest) dest =
     (case node of
        Dir sub \<Rightarrow>
          (case linkPackage links mode (srcDir @ [name]) node (map_of dest name) of
             Inl err \<Rightarrow> Inl err
           | Inr es \<Rightarrow> link_entries links mode srcDir rest (map_set dest name (Folder es)))
      | File content \<Rightarrow>
          (case link_file links mode srcDir name content dest of
             Inl err \<Rightarrow> Inl err
           | Inr dest' \<Rightarrow> link_entries links mode srcDir rest dest'))"

text \<open>The file of the source tree at a path below its root, and the entry of a directory.\<close>

fun src_file :: "tree \<Rightarrow> path \<Rightarrow> bytes option" where
  "src_file (File content) [] = Some content"
| "src_file (File content) (n # p) = None"
| "src_file (Dir entries) [] = None"
| "src_file (Dir entries) (n # p) =
     (case map_of entries n of None \<Rightarrow> None | Some node \<Rightarrow> src_file node p)"

fun dest_entry :: "(string \<times> entry) list \<Rightarrow> path \<Rightarrow> entry option" where
  "dest_entry es [] = None"
| "dest_entry es [n] = map_of es n"
| "dest_entry es (n # p) =
     (case map_of es n of Some (Folder sub) \<Rightarrow> dest_entry sub p | _ \<Rightarrow> None)"

text \<open>What reading a destination entry gives, links followed into the source tree.\<close>

definition read_through :: "path \<Rightarrow> tree \<Rightarrow> entry \<Rightarrow> bytes option" where
  "read_through srcDir src e =
     (case e of
        Regular content \<Rightarrow> Some content
      | HardLink p \<Rightarrow>
          if take (length srcDir) p = srcDir then src_file src (drop (length srcDir) p) else None
      | SymLink p \<Rightarrow>
          if take (length srcDir) p = srcDir then src_file src (drop (length srcDir) p) else None
      | Folder es \<Rightarrow> None)"

text \<open>A directory listing has each name once.\<close>

fun listing :: "tree \<Rightarrow> bool" where
  "listing (File content) = True"
| "listing (Dir entries) =
     (distinct (map fst entries) \<and> list_all (\<lambda>e. listing (snd e)) entries)"

text \<open>A destination without a symbolic link.\<close>

fun symlink_free :: "entry \<Rightarrow> bool" where
  "symlink_free (Regular content) = True"
| "symlink_free (HardLink p) = True"
| "symlink_free (SymLink p) = False"
| "symlink_free (Folder es) = list_all (\<lambda>e. symlink_free (snd e)) es"

section \<open>Dictionary detection (src/dictionaries/index.ts)\<close>

subsection \<open>Regular expressions\<close>

text \<open>
  The detection heuristics are lists of regular expression literals, each used through
  \<open>RegExp.prototype.test\<close>. The type \<open>rx\<close> holds the constructs those literals use:
  literal text (\<open>LitI\<close> under the flag \<open>i\<close>), character classes and negated classes over
  single characters, ranges, \<open>\s\<close>, \<open>\S\<close> and \<open>\w\<close>, the dot, sequence, alternation, the
  quantifiers \<open>?\<close>, \<open>*\<close>, \<open>+\<close>, \<open>{n,m}\<close> and \<open>{n,}\<close>, the anchors \<open>^\<close> (with and without
  the flag \<open>m\<close>) and \<open>$\<close> (with the flag \<open>m\<close>), and the word boundary \<open>\b\<close>. Groups only
  group here (no literal has a back reference), and a lazy quantifier matches the same
  texts as the greedy one, so neither has a constructor of its own. Texts are strings of
  code units below 256, as in the version resolver.
\<close>

datatype atom = Ch char | Rg char char | Sp | NotSp | Wd

datatype rx = Lit string | LitI string | OneOf "atom list" | NoneOf "atom list" | AnyChar
  | Seq rx rx | Alt rx rx | Opt rx | Star rx | Plus rx | Rep nat nat rx | AtLeast nat rx
  | Start | LineStart | LineEnd | WordB

abbreviation Space :: rx where
  "Space \<equiv> OneOf [Sp]"

abbreviation Word :: rx where
  "Word \<equiv> OneOf [Wd]"

fun seq :: "rx list \<Rightarrow> rx" where
  "seq [] = Lit []"
| "seq [r] = r"
| "seq (r # rs) = Seq r (seq rs)"

fun alt :: "rx list \<Rightarrow> rx" where
  "alt [] = NoneOf [Sp, NotSp]"
| "alt [r] = r"
| "alt (r # rs) = Alt r (alt rs)"

text \<open>
  A position in the text is the character before it, if there is one, and the text that
  follows it. The white space of \<open>\s\<close> is the white space of \<open>js_space\<close>; \<open>\w\<close> is
  \<open>[A-Za-z0-9_]\<close>; a line ends at a line feed or a carriage return; under the flag \<open>i\<close>
  two characters are the same when their upper-case forms are, and the literals with that
  flag hold ASCII characters only.
\<close>

type_synonym pos = "char option \<times> string"

text \<open>
  The order of two characters by their code, read off their bits: the bits are compared
  from the lowest to the highest, and the highest bit in which the two differ decides.
\<close>

fun bits :: "char \<Rightarrow> bool list" where
  "bits (Char b0 b1 b2 b3 b4 b5 b6 b7) = [b0, b1, b2, b3, b4, b5, b6, b7]"

fun bits_le :: "bool \<Rightarrow> bool list \<Rightarrow> bool list \<Rightarrow> bool" where
  "bits_le le (x # xs) (y # ys) = bits_le (if x = y then le else y) xs ys"
| "bits_le le xs ys = le"

definition char_le :: "char \<Rightarrow> char \<Rightarrow> bool" where
  "char_le c d = bits_le True (bits c) (bits d)"

definition between :: "char \<Rightarrow> char \<Rightarrow> char \<Rightarrow> bool" where
  "between lo hi c \<longleftrightarrow> char_le lo c \<and> char_le c hi"

definition word_char :: "char \<Rightarrow> bool" where
  "word_char c \<longleftrightarrow> between CHR ''a'' CHR ''z'' c \<or> between CHR ''A'' CHR ''Z'' c
     \<or> between CHR ''0'' CHR ''9'' c \<or> c = CHR ''_''"

fun in_atom :: "atom \<Rightarrow> char \<Rightarrow> bool" where
  "in_atom (Ch d) c \<longleftrightarrow> c = d"
| "in_atom (Rg lo hi) c \<longleftrightarrow> between lo hi c"
| "in_atom Sp c \<longleftrightarrow> js_space c"
| "in_atom NotSp c \<longleftrightarrow> \<not> js_space c"
| "in_atom Wd c \<longleftrightarrow> word_char c"

definition line_end :: "char \<Rightarrow> bool" where
  "line_end c \<longleftrightarrow> c = CHR 0x0A \<or> c = CHR 0x0D"

text \<open>The upper-case form of a letter \<open>a\<close> to \<open>z\<close> is 32 below it: bit 5 is cleared.\<close>

fun upper :: "char \<Rightarrow> char" where
  "upper (Char b0 b1 b2 b3 b4 b5 b6 b7) =
     (if between CHR ''a'' CHR ''z'' (Char b0 b1 b2 b3 b4 b5 b6 b7)
      then Char b0 b1 b2 b3 b4 False b6 b7 else Char b0 b1 b2 b3 b4 b5 b6 b7)"

fun match_char :: "(char \<Rightarrow> bool) \<Rightarrow> pos \<Rightarrow> pos list" where
  "match_char P (prev, []) = []"
| "match_char P (prev, c # s) = (if P c then [(Some c, s)] else [])"

fun match_lit :: "(char \<Rightarrow> char) \<Rightarrow> string \<Rightarrow> pos \<Rightarrow> pos list" where
  "match_lit f [] p = [p]"
| "match_lit f (d # w) (prev, []) = []"
| "match_lit f (d # w) (prev, c # s) = (if f c = f d then match_lit f w (Some c, s) else [])"

text \<open>
  \<open>exactly m n p\<close> are the positions after \<open>n\<close> matches of \<open>m\<close> in a row from \<open>p\<close>;
  \<open>at_most m n p\<close> those after at most \<open>n\<close> further matches, none of them empty (an
  iteration past the minimum that consumes nothing ends the repetition); \<open>many\<close> is
  \<open>at_most\<close> with as many iterations as characters are left.
\<close>

fun exactly :: "(pos \<Rightarrow> pos list) \<Rightarrow> nat \<Rightarrow> pos \<Rightarrow> pos list" where
  "exactly m 0 p = [p]"
| "exactly m (Suc n) p = concat (map (exactly m n) (m p))"

fun at_most :: "(pos \<Rightarrow> pos list) \<Rightarrow> nat \<Rightarrow> pos \<Rightarrow> pos list" where
  "at_most m 0 p = [p]"
| "at_most m (Suc n) p = p # concat (map (at_most m n) (filter (\<lambda>q. snd q \<noteq> snd p) (m p)))"

definition many :: "(pos \<Rightarrow> pos list) \<Rightarrow> pos \<Rightarrow> pos list" where
  "many m p = at_most m (length (snd p)) p"

definition at_boundary :: "pos \<Rightarrow> bool" where
  "at_boundary p \<longleftrightarrow>
     (case fst p of None \<Rightarrow> False | Some c \<Rightarrow> word_char c) \<noteq>
     (case snd p of [] \<Rightarrow> False | c # s \<Rightarrow> word_char c)"

definition guard :: "bool \<Rightarrow> pos \<Rightarrow> pos list" where
  "guard b p = (if b then [p] else [])"

text \<open>\<open>ends r p\<close> are the positions at which a match of \<open>r\<close> that starts at \<open>p\<close> can end.\<close>

primrec ends :: "rx \<Rightarrow> pos \<Rightarrow> pos list" where
  "ends (Lit w) = match_lit id w"
| "ends (LitI w) = match_lit upper w"
| "ends (OneOf as) = match_char (\<lambda>c. list_ex (\<lambda>a. in_atom a c) as)"
| "ends (NoneOf as) = match_char (\<lambda>c. \<not> list_ex (\<lambda>a. in_atom a c) as)"
| "ends AnyChar = match_char (\<lambda>c. \<not> line_end c)"
| "ends (Seq r1 r2) = (\<lambda>p. concat (map (ends r2) (ends r1 p)))"
| "ends (Alt r1 r2) = (\<lambda>p. ends r1 p @ ends r2 p)"
| "ends (Opt r) = at_most (ends r) 1"
| "ends (Star r) = many (ends r)"
| "ends (Plus r) = (\<lambda>p. concat (map (many (ends r)) (ends r p)))"
| "ends (Rep n m r) = (\<lambda>p. concat (map (at_most (ends r) (m - n)) (exactly (ends r) n p)))"
| "ends (AtLeast n r) = (\<lambda>p. concat (map (many (ends r)) (exactly (ends r) n p)))"
| "ends Start = (\<lambda>p. guard (fst p = None) p)"
| "ends LineStart = (\<lambda>p. guard (case fst p of None \<Rightarrow> True | Some c \<Rightarrow> line_end c) p)"
| "ends LineEnd = (\<lambda>p. guard (case snd p of [] \<Rightarrow> True | c # s \<Rightarrow> line_end c) p)"
| "ends WordB = (\<lambda>p. guard (at_boundary p) p)"

text \<open>\<open>test\<close>: some match starts somewhere in the text.\<close>

fun search :: "rx \<Rightarrow> char option \<Rightarrow> string \<Rightarrow> bool" where
  "search r prev [] = (ends r (prev, []) \<noteq> [])"
| "search r prev (c # s) = (if ends r (prev, c # s) \<noteq> [] then True else search r (Some c) s)"

definition test :: "rx \<Rightarrow> string \<Rightarrow> bool" where
  "test r text = search r None text"

subsection \<open>The pattern lists\<close>

text \<open>
  The arrays of the heuristics, in the order of the source, and the five literals that
  \<open>isMinifiedJs\<close> tests outside an array. Each list comes after the literals it embeds.
\<close>

text \<open>
  \<open>htmlPatterns\<close> (lines 286 to 302), as the source writes them:
  \<^enum> \<^verbatim>\<open>/<!DOCTYPE\s+html/i\<close>
  \<^enum> \<^verbatim>\<open>/<html[\s>]/i\<close>
  \<^enum> \<^verbatim>\<open>/<head[\s>]/i\<close>
  \<^enum> \<^verbatim>\<open>/<body[\s>]/i\<close>
  \<^enum> \<^verbatim>\<open>/<div[\s>]/i\<close>
  \<^enum> \<^verbatim>\<open>/<script[\s>]/i\<close>
  \<^enum> \<^verbatim>\<open>/<style[\s>]/i\<close>
  \<^enum> \<^verbatim>\<open>/<link[\s>]/i\<close>
  \<^enum> \<^verbatim>\<open>/<meta[\s>]/i\<close>
  \<^enum> \<^verbatim>\<open>/<title[\s>]/i\<close>
  \<^enum> \<^verbatim>\<open>/<p[\s>]/i\<close>
  \<^enum> \<^verbatim>\<open>/<span[\s>]/i\<close>
  \<^enum> \<^verbatim>\<open>/<a\s+href/i\<close>
  \<^enum> \<^verbatim>\<open>/<img\s+src/i\<close>
  \<^enum> \<^verbatim>\<open>/<svg[\s>]/i\<close>
  \<^enum> \<^verbatim>\<open>/class=["']/\<close>
  \<^enum> \<^verbatim>\<open>/id=["']/\<close>
\<close>

definition htmlPatterns :: "rx list" where
  "htmlPatterns = [
     seq [LitI ''<!DOCTYPE'', Plus Space, LitI ''html''],
     seq [LitI ''<html'', OneOf [Sp, Ch CHR ''>'']],
     seq [LitI ''<head'', OneOf [Sp, Ch CHR ''>'']],
     seq [LitI ''<body'', OneOf [Sp, Ch CHR ''>'']],
     seq [LitI ''<div'', OneOf [Sp, Ch CHR ''>'']],
     seq [LitI ''<script'', OneOf [Sp, Ch CHR ''>'']],
     seq [LitI ''<style'', OneOf [Sp, Ch CHR ''>'']],
     seq [LitI ''<link'', OneOf [Sp, Ch CHR ''>'']],
     seq [LitI ''<meta'', OneOf [Sp, Ch CHR ''>'']],
     seq [LitI ''<title'', OneOf [Sp, Ch CHR ''>'']],
     seq [LitI ''<p'', OneOf [Sp, Ch CHR ''>'']],
     seq [LitI ''<span'', OneOf [Sp, Ch CHR ''>'']],
     seq [LitI ''<a'', Plus Space, LitI ''href''],
     seq [LitI ''<img'', Plus Space, LitI ''src''],
     seq [LitI ''<svg'', OneOf [Sp, Ch CHR ''>'']],
     seq [Lit ''class='', OneOf [Ch CHR 0x22, Ch CHR 0x27]],
     seq [Lit ''id='', OneOf [Ch CHR 0x22, Ch CHR 0x27]]
   ]"

text \<open>
  \<open>cssPatterns\<close> (lines 318 to 325), as the source writes them:
  \<^enum> \<^verbatim>\<open>/@media\s*\(/\<close>
  \<^enum> \<^verbatim>\<open>/@keyframes\s+\w/\<close>
  \<^enum> \<^verbatim>\<open>/@import\s+['"]/\<close>
  \<^enum> \<^verbatim>\<open>/@font-face\s*\{/\<close>
  \<^enum> \<^verbatim>\<open>/\.[a-z][\w-]*\s*\{/\<close>
  \<^enum> \<^verbatim>\<open>/#[a-z][\w-]*\s*\{/\<close>
  \<^enum> \<^verbatim>\<open>/:\s*(flex|grid|block|none|inline)/\<close>
  \<^enum> \<^verbatim>\<open>/\{[^}]*:\s*[^}]+;[^}]*\}/\<close>
\<close>

definition cssPatterns :: "rx list" where
  "cssPatterns = [
     seq [Lit ''@media'', Star Space, Lit ''(''],
     seq [Lit ''@keyframes'', Plus Space, Word],
     seq [Lit ''@import'', Plus Space, OneOf [Ch CHR 0x27, Ch CHR 0x22]],
     seq [Lit ''@font-face'', Star Space, Lit ''{''],
     seq [Lit ''.'', OneOf [Rg CHR ''a'' CHR ''z''], Star (OneOf [Wd, Ch CHR ''-'']), Star Space,
       Lit ''{''],
     seq [Lit ''#'', OneOf [Rg CHR ''a'' CHR ''z''], Star (OneOf [Wd, Ch CHR ''-'']), Star Space,
       Lit ''{''],
     seq [Lit '':'', Star Space, alt [Lit ''flex'', Lit ''grid'', Lit ''block'', Lit ''none'',
       Lit ''inline'']],
     seq [Lit ''{'', Star (NoneOf [Ch CHR ''}'']), Lit '':'', Star Space,
       Plus (NoneOf [Ch CHR ''}'']), Lit '';'', Star (NoneOf [Ch CHR ''}'']), Lit ''}'']
   ]"

text \<open>
  \<open>strongPythonPatterns\<close> (lines 383 to 391), as the source writes them:
  \<^enum> \<^verbatim>\<open>/^def\s+\w+\s*\([^)]*\)\s*:/m\<close>
  \<^enum> \<^verbatim>\<open>/^class\s+\w+.*:\s*$/m\<close>
  \<^enum> \<^verbatim>\<open>/if\s+__name__\s*==\s*["']__main__["']/\<close>
  \<^enum> \<^verbatim>\<open>/def\s+__init__\s*\(\s*self/\<close>
  \<^enum> \<^verbatim>\<open>/def\s+__\w+__\s*\(/\<close>
  \<^enum> \<^verbatim>\<open>/@\w+\s*\n\s*def/\<close>
  \<^enum> \<^verbatim>\<open>/except\s+\w+\s*:/\<close>
  \<^enum> \<^verbatim>\<open>/elif\s+.*:/\<close>
  \<^enum> \<^verbatim>\<open>/^\s*self\.\w+\s*=/m\<close>
\<close>

definition strongPythonPatterns :: "rx list" where
  "strongPythonPatterns = [
     seq [LineStart, Lit ''def'', Plus Space, Plus Word, Star Space, Lit ''('',
       Star (NoneOf [Ch CHR '')'']), Lit '')'', Star Space, Lit '':''],
     seq [LineStart, Lit ''class'', Plus Space, Plus Word, Star AnyChar, Lit '':'', Star Space,
       LineEnd],
     seq [Lit ''if'', Plus Space, Lit ''__name__'', Star Space, Lit ''=='', Star Space,
       OneOf [Ch CHR 0x22, Ch CHR 0x27], Lit ''__main__'', OneOf [Ch CHR 0x22, Ch CHR 0x27]],
     seq [Lit ''def'', Plus Space, Lit ''__init__'', Star Space, Lit ''('', Star Space,
       Lit ''self''],
     seq [Lit ''def'', Plus Space, Lit ''__'', Plus Word, Lit ''__'', Star Space, Lit ''(''],
     seq [Lit ''@'', Plus Word, Star Space, Lit [CHR 0x0A], Star Space, Lit ''def''],
     seq [Lit ''except'', Plus Space, Plus Word, Star Space, Lit '':''],
     seq [Lit ''elif'', Plus Space, Star AnyChar, Lit '':''],
     seq [LineStart, Star Space, Lit ''self.'', Plus Word, Star Space, Lit ''='']
   ]"

text \<open>
  \<open>weakPythonPatterns\<close> (lines 396 to 399), as the source writes them:
  \<^enum> \<^verbatim>\<open>/^from\s+\w+\s+import/m\<close>
  \<^enum> \<^verbatim>\<open>/\bTrue\b|\bFalse\b|\bNone\b/\<close>
  \<^enum> \<^verbatim>\<open>/print\s*\(/\<close>
  \<^enum> \<^verbatim>\<open>/:\s*\n\s{4}/\<close>
\<close>

definition weakPythonPatterns :: "rx list" where
  "weakPythonPatterns = [
     seq [LineStart, Lit ''from'', Plus Space, Plus Word, Plus Space, Lit ''import''],
     alt [seq [WordB, Lit ''True'', WordB], seq [WordB, Lit ''False'', WordB], seq [WordB,
       Lit ''None'', WordB]],
     seq [Lit ''print'', Star Space, Lit ''(''],
     seq [Lit '':'', Star Space, Lit [CHR 0x0A], Rep 4 4 Space]
   ]"

text \<open>
  \<open>rustPatterns\<close> (lines 427 to 444), as the source writes them:
  \<^enum> \<^verbatim>\<open>/^fn\s+\w+/m\<close>
  \<^enum> \<^verbatim>\<open>/^pub\s+fn/m\<close>
  \<^enum> \<^verbatim>\<open>/^struct\s+\w+/m\<close>
  \<^enum> \<^verbatim>\<open>/^enum\s+\w+/m\<close>
  \<^enum> \<^verbatim>\<open>/^impl\s+/m\<close>
  \<^enum> \<^verbatim>\<open>/^trait\s+\w+/m\<close>
  \<^enum> \<^verbatim>\<open>/^use\s+\w+::/m\<close>
  \<^enum> \<^verbatim>\<open>/^mod\s+\w+/m\<close>
  \<^enum> \<^verbatim>\<open>/let\s+mut\s+/\<close>
  \<^enum> \<^verbatim>\<open>/\.unwrap\(\)/\<close>
  \<^enum> \<^verbatim>\<open>/\.expect\(/\<close>
  \<^enum> \<^verbatim>\<open>/Option<|Result<|Vec<|Box<|Rc<|Arc</\<close>
  \<^enum> \<^verbatim>\<open>/Some\(|None|Ok\(|Err\(/\<close>
  \<^enum> \<^verbatim>\<open>/\?\s*;?\s*$/m\<close>
  \<^enum> \<^verbatim>\<open>/#\[derive\(/\<close>
  \<^enum> \<^verbatim>\<open>/&self|&mut self/\<close>
  \<^enum> \<^verbatim>\<open>/::\s*new\s*\(/\<close>
  \<^enum> \<^verbatim>\<open>/->.*\{/\<close>
\<close>

definition rustPatterns :: "rx list" where
  "rustPatterns = [
     seq [LineStart, Lit ''fn'', Plus Space, Plus Word],
     seq [LineStart, Lit ''pub'', Plus Space, Lit ''fn''],
     seq [LineStart, Lit ''struct'', Plus Space, Plus Word],
     seq [LineStart, Lit ''enum'', Plus Space, Plus Word],
     seq [LineStart, Lit ''impl'', Plus Space],
     seq [LineStart, Lit ''trait'', Plus Space, Plus Word],
     seq [LineStart, Lit ''use'', Plus Space, Plus Word, Lit ''::''],
     seq [LineStart, Lit ''mod'', Plus Space, Plus Word],
     seq [Lit ''let'', Plus Space, Lit ''mut'', Plus Space],
     Lit ''.unwrap()'',
     Lit ''.expect('',
     alt [Lit ''Option<'', Lit ''Result<'', Lit ''Vec<'', Lit ''Box<'', Lit ''Rc<'', Lit ''Arc<''],
     alt [Lit ''Some('', Lit ''None'', Lit ''Ok('', Lit ''Err(''],
     seq [Lit [CHR 0x3F], Star Space, Opt (Lit '';''), Star Space, LineEnd],
     Lit ''#[derive('',
     alt [Lit ''&self'', Lit ''&mut self''],
     seq [Lit ''::'', Star Space, Lit ''new'', Star Space, Lit ''(''],
     seq [Lit ''->'', Star AnyChar, Lit ''{'']
   ]"

text \<open>
  \<open>goPatterns\<close> (lines 460 to 476), as the source writes them:
  \<^enum> \<^verbatim>\<open>/^package\s+\w+/m\<close>
  \<^enum> \<^verbatim>\<open>/^import\s+\(/m\<close>
  \<^enum> \<^verbatim>\<open>/^func\s+\w+\s*\(/m\<close>
  \<^enum> \<^verbatim>\<open>/^func\s+\(\w+\s+\*?\w+\)/m\<close>
  \<^enum> \<^verbatim>\<open>/^type\s+\w+\s+struct/m\<close>
  \<^enum> \<^verbatim>\<open>/^type\s+\w+\s+interface/m\<close>
  \<^enum> \<^verbatim>\<open>/if\s+err\s*!=\s*nil/\<close>
  \<^enum> \<^verbatim>\<open>/:\s*=\s*/\<close>
  \<^enum> \<^verbatim>\<open>/\bnil\b/\<close>
  \<^enum> \<^verbatim>\<open>/\bdefer\s+/\<close>
  \<^enum> \<^verbatim>\<open>/\bgo\s+func/\<close>
  \<^enum> \<^verbatim>\<open>/\bchan\s+/\<close>
  \<^enum> \<^verbatim>\<open>/<-\w+|<-\s*\w+/\<close>
  \<^enum> \<^verbatim>\<open>/\.Error\(\)/\<close>
  \<^enum> \<^verbatim>\<open>/fmt\.Print/\<close>
  \<^enum> \<^verbatim>\<open>/make\(map\[|make\(\[\]/\<close>
  \<^enum> \<^verbatim>\<open>/\bfunc\s*\(/\<close>
\<close>

definition goPatterns :: "rx list" where
  "goPatterns = [
     seq [LineStart, Lit ''package'', Plus Space, Plus Word],
     seq [LineStart, Lit ''import'', Plus Space, Lit ''(''],
     seq [LineStart, Lit ''func'', Plus Space, Plus Word, Star Space, Lit ''(''],
     seq [LineStart, Lit ''func'', Plus Space, Lit ''('', Plus Word, Plus Space, Opt (Lit ''*''),
       Plus Word, Lit '')''],
     seq [LineStart, Lit ''type'', Plus Space, Plus Word, Plus Space, Lit ''struct''],
     seq [LineStart, Lit ''type'', Plus Space, Plus Word, Plus Space, Lit ''interface''],
     seq [Lit ''if'', Plus Space, Lit ''err'', Star Space, Lit ''!='', Star Space, Lit ''nil''],
     seq [Lit '':'', Star Space, Lit ''='', Star Space],
     seq [WordB, Lit ''nil'', WordB],
     seq [WordB, Lit ''defer'', Plus Space],
     seq [WordB, Lit ''go'', Plus Space, Lit ''func''],
     seq [WordB, Lit ''chan'', Plus Space],
     alt [seq [Lit ''<-'', Plus Word], seq [Lit ''<-'', Star Space, Plus Word]],
     Lit ''.Error()'',
     Lit ''fmt.Print'',
     alt [Lit ''make(map['', Lit ''make([]''],
     seq [WordB, Lit ''func'', Star Space, Lit ''('']
   ]"

text \<open>
  \<open>javaPatterns\<close> (lines 492 to 509), as the source writes them:
  \<^enum> \<^verbatim>\<open>/^package\s+[\w.]+;/m\<close>
  \<^enum> \<^verbatim>\<open>/^import\s+[\w.]+;/m\<close>
  \<^enum> \<^verbatim>\<open>/^import\s+static\s+[\w.]+;/m\<close>
  \<^enum> \<^verbatim>\<open>/public\s+class\s+\w+/\<close>
  \<^enum> \<^verbatim>\<open>/public\s+interface\s+\w+/\<close>
  \<^enum> \<^verbatim>\<open>/public\s+enum\s+\w+/\<close>
  \<^enum> \<^verbatim>\<open>/public\s+static\s+void\s+main/\<close>
  \<^enum> \<^verbatim>\<open>/private\s+(final\s+)?[\w<>[\]]+\s+\w+/\<close>
  \<^enum> \<^verbatim>\<open>/@Override/\<close>
  \<^enum> \<^verbatim>\<open>/@Autowired/\<close>
  \<^enum> \<^verbatim>\<open>/@Service|@Repository|@Controller|@Component/\<close>
  \<^enum> \<^verbatim>\<open>/System\.out\.print/\<close>
  \<^enum> \<^verbatim>\<open>/\.equals\(/\<close>
  \<^enum> \<^verbatim>\<open>/\.hashCode\(\)/\<close>
  \<^enum> \<^verbatim>\<open>/new\s+\w+\s*</\<close>
  \<^enum> \<^verbatim>\<open>/throws\s+\w+Exception/\<close>
  \<^enum> \<^verbatim>\<open>/implements\s+\w+/\<close>
  \<^enum> \<^verbatim>\<open>/extends\s+\w+/\<close>
\<close>

definition javaPatterns :: "rx list" where
  "javaPatterns = [
     seq [LineStart, Lit ''package'', Plus Space, Plus (OneOf [Wd, Ch CHR ''.'']), Lit '';''],
     seq [LineStart, Lit ''import'', Plus Space, Plus (OneOf [Wd, Ch CHR ''.'']), Lit '';''],
     seq [LineStart, Lit ''import'', Plus Space, Lit ''static'', Plus Space, Plus (OneOf [Wd,
       Ch CHR ''.'']), Lit '';''],
     seq [Lit ''public'', Plus Space, Lit ''class'', Plus Space, Plus Word],
     seq [Lit ''public'', Plus Space, Lit ''interface'', Plus Space, Plus Word],
     seq [Lit ''public'', Plus Space, Lit ''enum'', Plus Space, Plus Word],
     seq [Lit ''public'', Plus Space, Lit ''static'', Plus Space, Lit ''void'', Plus Space,
       Lit ''main''],
     seq [Lit ''private'', Plus Space, Opt (seq [Lit ''final'', Plus Space]), Plus (OneOf [Wd,
       Ch CHR ''<'', Ch CHR ''>'', Ch CHR ''['', Ch CHR '']'']), Plus Space, Plus Word],
     Lit ''@Override'',
     Lit ''@Autowired'',
     alt [Lit ''@Service'', Lit ''@Repository'', Lit ''@Controller'', Lit ''@Component''],
     Lit ''System.out.print'',
     Lit ''.equals('',
     Lit ''.hashCode()'',
     seq [Lit ''new'', Plus Space, Plus Word, Star Space, Lit ''<''],
     seq [Lit ''throws'', Plus Space, Plus Word, Lit ''Exception''],
     seq [Lit ''implements'', Plus Space, Plus Word],
     seq [Lit ''extends'', Plus Space, Plus Word]
   ]"

text \<open>
  \<open>cppPatterns\<close> (lines 525 to 542), as the source writes them:
  \<^enum> \<^verbatim>\<open>/#include\s*<\w+>/\<close>
  \<^enum> \<^verbatim>\<open>/^class\s+\w+\s*[:{]/m\<close>
  \<^enum> \<^verbatim>\<open>/^namespace\s+\w+/m\<close>
  \<^enum> \<^verbatim>\<open>/std::/\<close>
  \<^enum> \<^verbatim>\<open>/public:|private:|protected:/\<close>
  \<^enum> \<^verbatim>\<open>/virtual\s+/\<close>
  \<^enum> \<^verbatim>\<open>/template\s*</\<close>
  \<^enum> \<^verbatim>\<open>/typename\s+/\<close>
  \<^enum> \<^verbatim>\<open>/using\s+namespace/\<close>
  \<^enum> \<^verbatim>\<open>/new\s+\w+\(/\<close>
  \<^enum> \<^verbatim>\<open>/delete\s+\w+/\<close>
  \<^enum> \<^verbatim>\<open>/nullptr/\<close>
  \<^enum> \<^verbatim>\<open>/auto\s+\w+\s*=/\<close>
  \<^enum> \<^verbatim>\<open>/cout\s*<<|cin\s*>>/\<close>
  \<^enum> \<^verbatim>\<open>/constexpr\s+/\<close>
  \<^enum> \<^verbatim>\<open>/->\s*\w+\s*\(/\<close>
  \<^enum> \<^verbatim>\<open>/::\s*\w+\s*\(/\<close>
  \<^enum> \<^verbatim>\<open>/unique_ptr|shared_ptr|make_unique|make_shared/\<close>
\<close>

definition cppPatterns :: "rx list" where
  "cppPatterns = [
     seq [Lit ''#include'', Star Space, Lit ''<'', Plus Word, Lit ''>''],
     seq [LineStart, Lit ''class'', Plus Space, Plus Word, Star Space, OneOf [Ch CHR '':'',
       Ch CHR ''{'']],
     seq [LineStart, Lit ''namespace'', Plus Space, Plus Word],
     Lit ''std::'',
     alt [Lit ''public:'', Lit ''private:'', Lit ''protected:''],
     seq [Lit ''virtual'', Plus Space],
     seq [Lit ''template'', Star Space, Lit ''<''],
     seq [Lit ''typename'', Plus Space],
     seq [Lit ''using'', Plus Space, Lit ''namespace''],
     seq [Lit ''new'', Plus Space, Plus Word, Lit ''(''],
     seq [Lit ''delete'', Plus Space, Plus Word],
     Lit ''nullptr'',
     seq [Lit ''auto'', Plus Space, Plus Word, Star Space, Lit ''=''],
     alt [seq [Lit ''cout'', Star Space, Lit ''<<''], seq [Lit ''cin'', Star Space, Lit ''>>'']],
     seq [Lit ''constexpr'', Plus Space],
     seq [Lit ''->'', Star Space, Plus Word, Star Space, Lit ''(''],
     seq [Lit ''::'', Star Space, Plus Word, Star Space, Lit ''(''],
     alt [Lit ''unique_ptr'', Lit ''shared_ptr'', Lit ''make_unique'', Lit ''make_shared'']
   ]"

text \<open>
  \<open>cPatterns\<close> (lines 558 to 573), as the source writes them:
  \<^enum> \<^verbatim>\<open>/#include\s*<stdio\.h>/\<close>
  \<^enum> \<^verbatim>\<open>/#include\s*<stdlib\.h>/\<close>
  \<^enum> \<^verbatim>\<open>/#include\s*<string\.h>/\<close>
  \<^enum> \<^verbatim>\<open>/#define\s+\w+/\<close>
  \<^enum> \<^verbatim>\<open>/^typedef\s+struct/m\<close>
  \<^enum> \<^verbatim>\<open>/^struct\s+\w+\s*\{/m\<close>
  \<^enum> \<^verbatim>\<open>/int\s+main\s*\(/\<close>
  \<^enum> \<^verbatim>\<open>/printf\s*\(/\<close>
  \<^enum> \<^verbatim>\<open>/scanf\s*\(/\<close>
  \<^enum> \<^verbatim>\<open>/malloc\s*\(/\<close>
  \<^enum> \<^verbatim>\<open>/free\s*\(/\<close>
  \<^enum> \<^verbatim>\<open>/sizeof\s*\(/\<close>
  \<^enum> \<^verbatim>\<open>/NULL/\<close>
  \<^enum> \<^verbatim>\<open>/->|&\w+|\*\w+/\<close>
  \<^enum> \<^verbatim>\<open>/unsigned\s+(int|char|long)/\<close>
  \<^enum> \<^verbatim>\<open>/void\s*\*/\<close>
\<close>

definition cPatterns :: "rx list" where
  "cPatterns = [
     seq [Lit ''#include'', Star Space, Lit ''<stdio.h>''],
     seq [Lit ''#include'', Star Space, Lit ''<stdlib.h>''],
     seq [Lit ''#include'', Star Space, Lit ''<string.h>''],
     seq [Lit ''#define'', Plus Space, Plus Word],
     seq [LineStart, Lit ''typedef'', Plus Space, Lit ''struct''],
     seq [LineStart, Lit ''struct'', Plus Space, Plus Word, Star Space, Lit ''{''],
     seq [Lit ''int'', Plus Space, Lit ''main'', Star Space, Lit ''(''],
     seq [Lit ''printf'', Star Space, Lit ''(''],
     seq [Lit ''scanf'', Star Space, Lit ''(''],
     seq [Lit ''malloc'', Star Space, Lit ''(''],
     seq [Lit ''free'', Star Space, Lit ''(''],
     seq [Lit ''sizeof'', Star Space, Lit ''(''],
     Lit ''NULL'',
     alt [Lit ''->'', seq [Lit ''&'', Plus Word], seq [Lit ''*'', Plus Word]],
     seq [Lit ''unsigned'', Plus Space, alt [Lit ''int'', Lit ''char'', Lit ''long'']],
     seq [Lit ''void'', Star Space, Lit ''*'']
   ]"

text \<open>
  \<open>strongJsPatterns\<close> (lines 594 to 649), as the source writes them:
  \<^enum> \<^verbatim>\<open>/^import\s+.*\s+from\s+['"]/m\<close>
  \<^enum> \<^verbatim>\<open>/^import\s+\{[^}]+\}\s+from\s+['"]/m\<close>
  \<^enum> \<^verbatim>\<open>/^export\s+(default|const|function|class|type|interface)\s+/m\<close>
  \<^enum> \<^verbatim>\<open>/^export\s+\{/m\<close>
  \<^enum> \<^verbatim>\<open>/\bconst\s+\w+\s*=\s*\(/\<close>
  \<^enum> \<^verbatim>\<open>/\blet\s+\w+\s*=\s*[\[{('"]/\<close>
  \<^enum> \<^verbatim>\<open>/\bvar\s+\w+\s*=/\<close>
  \<^enum> \<^verbatim>\<open>/=>\s*[\{(]/\<close>
  \<^enum> \<^verbatim>\<open>/\bfunction\s*\*?\s*\w*\s*\([^)]*\)\s*\{/\<close>
  \<^enum> \<^verbatim>\<open>/\bclass\s+\w+\s*(extends\s+\w+\s*)?\{/\<close>
  \<^enum> \<^verbatim>\<open>/:\s*(string|number|boolean|any|void|never|unknown|null|undefined)\s*[;,)=\]]/\<close>
  \<^enum> \<^verbatim>\<open>/interface\s+\w+\s*(<[^>]+>)?\s*\{/\<close>
  \<^enum> \<^verbatim>\<open>/type\s+\w+\s*(<[^>]+>)?\s*=/\<close>
  \<^enum> \<^verbatim>\<open>/as\s+(const|string|number|any|unknown)/\<close>
  \<^enum> \<^verbatim>\<open>/<\w+(\s*,\s*\w+)*>\s*\(/\<close>
  \<^enum> \<^verbatim>\<open>/\.then\s*\(\s*(async\s*)?\(?/\<close>
  \<^enum> \<^verbatim>\<open>/\.catch\s*\(\s*\(?/\<close>
  \<^enum> \<^verbatim>\<open>/async\s+(function|\(|\w+\s*=>)/\<close>
  \<^enum> \<^verbatim>\<open>/await\s+\w+/\<close>
  \<^enum> \<^verbatim>\<open>/console\.(log|error|warn|info|debug)\s*\(/\<close>
  \<^enum> \<^verbatim>\<open>/require\s*\(\s*['"]/\<close>
  \<^enum> \<^verbatim>\<open>/module\.exports\s*=/\<close>
  \<^enum> \<^verbatim>\<open>/Object\.(keys|values|entries|assign|freeze)\s*\(/\<close>
  \<^enum> \<^verbatim>\<open>/Array\.(isArray|from|of)\s*\(/\<close>
  \<^enum> \<^verbatim>\<open>/JSON\.(parse|stringify)\s*\(/\<close>
  \<^enum> \<^verbatim>\<open>/Promise\.(all|race|resolve|reject)\s*\(/\<close>
  \<^enum> \<^verbatim>\<open>/\bethers\b|\bviem\b|\bwagmi\b/\<close>
  \<^enum> \<^verbatim>\<open>/\bweb3\b|\bWeb3\b/\<close>
  \<^enum> \<^verbatim>\<open>/\bprovider\b.*\bgetSigner\b|\bgetSigner\b.*\bprovider\b/\<close>
  \<^enum> \<^verbatim>\<open>/\buseAccount\b|\buseConnect\b|\buseDisconnect\b/\<close>
  \<^enum> \<^verbatim>\<open>/\bconnectAsync\b|\bdisconnectAsync\b/\<close>
  \<^enum> \<^verbatim>\<open>/\bRainbowKit\b|\brainbow\b/\<close>
  \<^enum> \<^verbatim>\<open>/\bMetaMask\b|\bmetamask\b/\<close>
  \<^enum> \<^verbatim>\<open>/\bcontract\b.*\babi\b|\babi\b.*\bcontract\b/i\<close>
  \<^enum> \<^verbatim>\<open>/0x[a-fA-F0-9]{40}/\<close>
  \<^enum> \<^verbatim>\<open>/@(Component|Injectable|NgModule|Directive|Pipe|Input|Output)\s*\(/\<close>
  \<^enum> \<^verbatim>\<open>/\bngOnInit\b|\bngOnDestroy\b|\bngOnChanges\b/\<close>
  \<^enum> \<^verbatim>\<open>/\bObservable\b|\bSubject\b|\bBehaviorSubject\b/\<close>
  \<^enum> \<^verbatim>\<open>/\.subscribe\s*\(/\<close>
  \<^enum> \<^verbatim>\<open>/\bfrom\s*\(\s*['"]rxjs['"]/\<close>
  \<^enum> \<^verbatim>\<open>/\buseState\b|\buseEffect\b|\buseCallback\b|\buseMemo\b|\buseRef\b/\<close>
  \<^enum> \<^verbatim>\<open>/\bReact\.(createElement|Component|Fragment|memo|forwardRef)\b/\<close>
  \<^enum> \<^verbatim>\<open>/\b_?jsx\b|\b_?jsxs\b/\<close>
  \<^enum> \<^verbatim>\<open>/process\.(env|argv|cwd|exit)/\<close>
  \<^enum> \<^verbatim>\<open>/\b__dirname\b|\b__filename\b/\<close>
  \<^enum> \<^verbatim>\<open>/document\.(getElementById|querySelector|createElement)/\<close>
  \<^enum> \<^verbatim>\<open>/window\.(location|localStorage|sessionStorage|addEventListener)/\<close>
\<close>

definition strongJsPatterns :: "rx list" where
  "strongJsPatterns = [
     seq [LineStart, Lit ''import'', Plus Space, Star AnyChar, Plus Space, Lit ''from'',
       Plus Space, OneOf [Ch CHR 0x27, Ch CHR 0x22]],
     seq [LineStart, Lit ''import'', Plus Space, Lit ''{'', Plus (NoneOf [Ch CHR ''}'']),
       Lit ''}'', Plus Space, Lit ''from'', Plus Space, OneOf [Ch CHR 0x27, Ch CHR 0x22]],
     seq [LineStart, Lit ''export'', Plus Space, alt [Lit ''default'', Lit ''const'',
       Lit ''function'', Lit ''class'', Lit ''type'', Lit ''interface''], Plus Space],
     seq [LineStart, Lit ''export'', Plus Space, Lit ''{''],
     seq [WordB, Lit ''const'', Plus Space, Plus Word, Star Space, Lit ''='', Star Space,
       Lit ''(''],
     seq [WordB, Lit ''let'', Plus Space, Plus Word, Star Space, Lit ''='', Star Space,
       OneOf [Ch CHR ''['', Ch CHR ''{'', Ch CHR ''('', Ch CHR 0x27, Ch CHR 0x22]],
     seq [WordB, Lit ''var'', Plus Space, Plus Word, Star Space, Lit ''=''],
     seq [Lit ''=>'', Star Space, OneOf [Ch CHR ''{'', Ch CHR ''('']],
     seq [WordB, Lit ''function'', Star Space, Opt (Lit ''*''), Star Space, Star Word,
       Star Space, Lit ''('', Star (NoneOf [Ch CHR '')'']), Lit '')'', Star Space, Lit ''{''],
     seq [WordB, Lit ''class'', Plus Space, Plus Word, Star Space, Opt (seq [Lit ''extends'',
       Plus Space, Plus Word, Star Space]), Lit ''{''],
     seq [Lit '':'', Star Space, alt [Lit ''string'', Lit ''number'', Lit ''boolean'',
       Lit ''any'', Lit ''void'', Lit ''never'', Lit ''unknown'', Lit ''null'',
       Lit ''undefined''], Star Space, OneOf [Ch CHR '';'', Ch CHR '','', Ch CHR '')'',
       Ch CHR ''='', Ch CHR '']'']],
     seq [Lit ''interface'', Plus Space, Plus Word, Star Space, Opt (seq [Lit ''<'',
       Plus (NoneOf [Ch CHR ''>'']), Lit ''>'']), Star Space, Lit ''{''],
     seq [Lit ''type'', Plus Space, Plus Word, Star Space, Opt (seq [Lit ''<'',
       Plus (NoneOf [Ch CHR ''>'']), Lit ''>'']), Star Space, Lit ''=''],
     seq [Lit ''as'', Plus Space, alt [Lit ''const'', Lit ''string'', Lit ''number'',
       Lit ''any'', Lit ''unknown'']],
     seq [Lit ''<'', Plus Word, Star (seq [Star Space, Lit '','', Star Space, Plus Word]),
       Lit ''>'', Star Space, Lit ''(''],
     seq [Lit ''.then'', Star Space, Lit ''('', Star Space, Opt (seq [Lit ''async'',
       Star Space]), Opt (Lit ''('')],
     seq [Lit ''.catch'', Star Space, Lit ''('', Star Space, Opt (Lit ''('')],
     seq [Lit ''async'', Plus Space, alt [Lit ''function'', Lit ''('', seq [Plus Word,
       Star Space, Lit ''=>'']]],
     seq [Lit ''await'', Plus Space, Plus Word],
     seq [Lit ''console.'', alt [Lit ''log'', Lit ''error'', Lit ''warn'', Lit ''info'',
       Lit ''debug''], Star Space, Lit ''(''],
     seq [Lit ''require'', Star Space, Lit ''('', Star Space, OneOf [Ch CHR 0x27, Ch CHR 0x22]],
     seq [Lit ''module.exports'', Star Space, Lit ''=''],
     seq [Lit ''Object.'', alt [Lit ''keys'', Lit ''values'', Lit ''entries'', Lit ''assign'',
       Lit ''freeze''], Star Space, Lit ''(''],
     seq [Lit ''Array.'', alt [Lit ''isArray'', Lit ''from'', Lit ''of''], Star Space, Lit ''(''],
     seq [Lit ''JSON.'', alt [Lit ''parse'', Lit ''stringify''], Star Space, Lit ''(''],
     seq [Lit ''Promise.'', alt [Lit ''all'', Lit ''race'', Lit ''resolve'', Lit ''reject''],
       Star Space, Lit ''(''],
     alt [seq [WordB, Lit ''ethers'', WordB], seq [WordB, Lit ''viem'', WordB], seq [WordB,
       Lit ''wagmi'', WordB]],
     alt [seq [WordB, Lit ''web3'', WordB], seq [WordB, Lit ''Web3'', WordB]],
     alt [seq [WordB, Lit ''provider'', WordB, Star AnyChar, WordB, Lit ''getSigner'', WordB],
       seq [WordB, Lit ''getSigner'', WordB, Star AnyChar, WordB, Lit ''provider'', WordB]],
     alt [seq [WordB, Lit ''useAccount'', WordB], seq [WordB, Lit ''useConnect'', WordB],
       seq [WordB, Lit ''useDisconnect'', WordB]],
     alt [seq [WordB, Lit ''connectAsync'', WordB], seq [WordB, Lit ''disconnectAsync'', WordB]],
     alt [seq [WordB, Lit ''RainbowKit'', WordB], seq [WordB, Lit ''rainbow'', WordB]],
     alt [seq [WordB, Lit ''MetaMask'', WordB], seq [WordB, Lit ''metamask'', WordB]],
     alt [seq [WordB, LitI ''contract'', WordB, Star AnyChar, WordB, LitI ''abi'', WordB],
       seq [WordB, LitI ''abi'', WordB, Star AnyChar, WordB, LitI ''contract'', WordB]],
     seq [Lit ''0x'', Rep 40 40 (OneOf [Rg CHR ''a'' CHR ''f'', Rg CHR ''A'' CHR ''F'',
       Rg CHR ''0'' CHR ''9''])],
     seq [Lit ''@'', alt [Lit ''Component'', Lit ''Injectable'', Lit ''NgModule'',
       Lit ''Directive'', Lit ''Pipe'', Lit ''Input'', Lit ''Output''], Star Space, Lit ''(''],
     alt [seq [WordB, Lit ''ngOnInit'', WordB], seq [WordB, Lit ''ngOnDestroy'', WordB],
       seq [WordB, Lit ''ngOnChanges'', WordB]],
     alt [seq [WordB, Lit ''Observable'', WordB], seq [WordB, Lit ''Subject'', WordB],
       seq [WordB, Lit ''BehaviorSubject'', WordB]],
     seq [Lit ''.subscribe'', Star Space, Lit ''(''],
     seq [WordB, Lit ''from'', Star Space, Lit ''('', Star Space, OneOf [Ch CHR 0x27,
       Ch CHR 0x22], Lit ''rxjs'', OneOf [Ch CHR 0x27, Ch CHR 0x22]],
     alt [seq [WordB, Lit ''useState'', WordB], seq [WordB, Lit ''useEffect'', WordB],
       seq [WordB, Lit ''useCallback'', WordB], seq [WordB, Lit ''useMemo'', WordB], seq [WordB,
       Lit ''useRef'', WordB]],
     seq [WordB, Lit ''React.'', alt [Lit ''createElement'', Lit ''Component'', Lit ''Fragment'',
       Lit ''memo'', Lit ''forwardRef''], WordB],
     alt [seq [WordB, Opt (Lit ''_''), Lit ''jsx'', WordB], seq [WordB, Opt (Lit ''_''),
       Lit ''jsxs'', WordB]],
     seq [Lit ''process.'', alt [Lit ''env'', Lit ''argv'', Lit ''cwd'', Lit ''exit'']],
     alt [seq [WordB, Lit ''__dirname'', WordB], seq [WordB, Lit ''__filename'', WordB]],
     seq [Lit ''document.'', alt [Lit ''getElementById'', Lit ''querySelector'',
       Lit ''createElement'']],
     seq [Lit ''window.'', alt [Lit ''location'', Lit ''localStorage'', Lit ''sessionStorage'',
       Lit ''addEventListener'']]
   ]"

text \<open>
  \<open>weakJsPatterns\<close> (lines 662 to 671), as the source writes them:
  \<^enum> \<^verbatim>\<open>/\bconst\s+\w+\s*=/\<close>
  \<^enum> \<^verbatim>\<open>/\blet\s+\w+\s*=/\<close>
  \<^enum> \<^verbatim>\<open>/\.map\s*\(/\<close>
  \<^enum> \<^verbatim>\<open>/\.filter\s*\(/\<close>
  \<^enum> \<^verbatim>\<open>/\.reduce\s*\(/\<close>
  \<^enum> \<^verbatim>\<open>/\.forEach\s*\(/\<close>
  \<^enum> \<^verbatim>\<open>/\bnew\s+\w+\s*\(/\<close>
  \<^enum> \<^verbatim>\<open>/\bthrow\s+new\s+\w*Error/\<close>
  \<^enum> \<^verbatim>\<open>/\btry\s*\{/\<close>
  \<^enum> \<^verbatim>\<open>/\bcatch\s*\(\w+\)\s*\{/\<close>
\<close>

definition weakJsPatterns :: "rx list" where
  "weakJsPatterns = [
     seq [WordB, Lit ''const'', Plus Space, Plus Word, Star Space, Lit ''=''],
     seq [WordB, Lit ''let'', Plus Space, Plus Word, Star Space, Lit ''=''],
     seq [Lit ''.map'', Star Space, Lit ''(''],
     seq [Lit ''.filter'', Star Space, Lit ''(''],
     seq [Lit ''.reduce'', Star Space, Lit ''(''],
     seq [Lit ''.forEach'', Star Space, Lit ''(''],
     seq [WordB, Lit ''new'', Plus Space, Plus Word, Star Space, Lit ''(''],
     seq [WordB, Lit ''throw'', Plus Space, Lit ''new'', Plus Space, Star Word, Lit ''Error''],
     seq [WordB, Lit ''try'', Star Space, Lit ''{''],
     seq [WordB, Lit ''catch'', Star Space, Lit ''('', Plus Word, Lit '')'', Star Space,
       Lit ''{'']
   ]"

text \<open>
  \<open>strongMinifiedPatterns\<close> (lines 702 to 714), as the source writes them:
  \<^enum> \<^verbatim>\<open>/webpackJsonp|__webpack_require__|__webpack_exports__/\<close>
  \<^enum> \<^verbatim>\<open>/\["__esModule"\]/\<close>
  \<^enum> \<^verbatim>\<open>/__TURBOPACK__|__turbopack_/\<close>
  \<^enum> \<^verbatim>\<open>/\b_interopRequireDefault\b|\b_interopRequireWildcard\b/\<close>
  \<^enum> \<^verbatim>\<open>/\bdefineProperty\s*\(\s*exports\s*,/\<close>
  \<^enum> \<^verbatim>\<open>/void\s*0\b/\<close>
  \<^enum> \<^verbatim>\<open>/!0\b|!1\b/\<close>
  \<^enum> \<^verbatim>\<open>/\btypeof\s+\w\s*[!=]==/\<close>
  \<^enum> \<^verbatim>\<open>/[;,]\w=[^,;]{1,30}[;,]\w=/\<close>
  \<^enum> \<^verbatim>\<open>/\)\s*\{[^}]{0,50}\}\s*\(/\<close>
  \<^enum> \<^verbatim>\<open>/\w\.\w\.\w\.\w\.\w/\<close>
\<close>

definition strongMinifiedPatterns :: "rx list" where
  "strongMinifiedPatterns = [
     alt [Lit ''webpackJsonp'', Lit ''__webpack_require__'', Lit ''__webpack_exports__''],
     seq [Lit ''['', Lit [CHR 0x22], Lit ''__esModule'', Lit [CHR 0x22], Lit '']''],
     alt [Lit ''__TURBOPACK__'', Lit ''__turbopack_''],
     alt [seq [WordB, Lit ''_interopRequireDefault'', WordB], seq [WordB,
       Lit ''_interopRequireWildcard'', WordB]],
     seq [WordB, Lit ''defineProperty'', Star Space, Lit ''('', Star Space, Lit ''exports'',
       Star Space, Lit '',''],
     seq [Lit ''void'', Star Space, Lit ''0'', WordB],
     alt [seq [Lit ''!0'', WordB], seq [Lit ''!1'', WordB]],
     seq [WordB, Lit ''typeof'', Plus Space, Word, Star Space, OneOf [Ch CHR ''!'',
       Ch CHR ''=''], Lit ''==''],
     seq [OneOf [Ch CHR '';'', Ch CHR '',''], Word, Lit ''='', Rep 1 30 (NoneOf [Ch CHR '','',
       Ch CHR '';'']), OneOf [Ch CHR '';'', Ch CHR '',''], Word, Lit ''=''],
     seq [Lit '')'', Star Space, Lit ''{'', Rep 0 50 (NoneOf [Ch CHR ''}'']), Lit ''}'',
       Star Space, Lit ''(''],
     seq [Word, Lit ''.'', Word, Lit ''.'', Word, Lit ''.'', Word, Lit ''.'', Word]
   ]"

text \<open>
  \<open>iifePatterns\<close> (lines 726 to 729), as the source writes them:
  \<^enum> \<^verbatim>\<open>/^\s*[\!\(]function\s*\(/\<close>
  \<^enum> \<^verbatim>\<open>/^\s*\(function\s*\(\w?,?\w?,?\w?\)\s*\{/\<close>
  \<^enum> \<^verbatim>\<open>/^\s*\(\s*\(\s*\)\s*=>\s*\{/\<close>
  \<^enum> \<^verbatim>\<open>/^\s*\(\s*function\s*\(\s*\)\s*\{/\<close>
\<close>

definition iifePatterns :: "rx list" where
  "iifePatterns = [
     seq [Start, Star Space, OneOf [Ch CHR ''!'', Ch CHR ''(''], Lit ''function'', Star Space,
       Lit ''(''],
     seq [Start, Star Space, Lit ''(function'', Star Space, Lit ''('', Opt Word, Opt (Lit '',''),
       Opt Word, Opt (Lit '',''), Opt Word, Lit '')'', Star Space, Lit ''{''],
     seq [Start, Star Space, Lit ''('', Star Space, Lit ''('', Star Space, Lit '')'', Star Space,
       Lit ''=>'', Star Space, Lit ''{''],
     seq [Start, Star Space, Lit ''('', Star Space, Lit ''function'', Star Space, Lit ''('',
       Star Space, Lit '')'', Star Space, Lit ''{'']
   ]"

text \<open>
  \<open>vuePatterns\<close> (lines 771 to 787), as the source writes them:
  \<^enum> \<^verbatim>\<open>/__VUE__/\<close>
  \<^enum> \<^verbatim>\<open>/createVNode\(/\<close>
  \<^enum> \<^verbatim>\<open>/createElementVNode\(/\<close>
  \<^enum> \<^verbatim>\<open>/defineComponent\(/\<close>
  \<^enum> \<^verbatim>\<open>/_createVNode\(/\<close>
  \<^enum> \<^verbatim>\<open>/_createElementVNode\(/\<close>
  \<^enum> \<^verbatim>\<open>/_resolveComponent\(/\<close>
  \<^enum> \<^verbatim>\<open>/\bref\s*\(/\<close>
  \<^enum> \<^verbatim>\<open>/\breactive\s*\(/\<close>
  \<^enum> \<^verbatim>\<open>/\bcomputed\s*\(/\<close>
  \<^enum> \<^verbatim>\<open>/onMounted\s*\(/\<close>
  \<^enum> \<^verbatim>\<open>/onUnmounted\s*\(/\<close>
  \<^enum> \<^verbatim>\<open>/useRouter\s*\(\)/\<close>
  \<^enum> \<^verbatim>\<open>/useRoute\s*\(\)/\<close>
  \<^enum> \<^verbatim>\<open>/defineNuxtConfig/\<close>
  \<^enum> \<^verbatim>\<open>/useFetch\s*\(/\<close>
  \<^enum> \<^verbatim>\<open>/useAsyncData\s*\(/\<close>
\<close>

definition vuePatterns :: "rx list" where
  "vuePatterns = [
     Lit ''__VUE__'',
     Lit ''createVNode('',
     Lit ''createElementVNode('',
     Lit ''defineComponent('',
     Lit ''_createVNode('',
     Lit ''_createElementVNode('',
     Lit ''_resolveComponent('',
     seq [WordB, Lit ''ref'', Star Space, Lit ''(''],
     seq [WordB, Lit ''reactive'', Star Space, Lit ''(''],
     seq [WordB, Lit ''computed'', Star Space, Lit ''(''],
     seq [Lit ''onMounted'', Star Space, Lit ''(''],
     seq [Lit ''onUnmounted'', Star Space, Lit ''(''],
     seq [Lit ''useRouter'', Star Space, Lit ''()''],
     seq [Lit ''useRoute'', Star Space, Lit ''()''],
     Lit ''defineNuxtConfig'',
     seq [Lit ''useFetch'', Star Space, Lit ''(''],
     seq [Lit ''useAsyncData'', Star Space, Lit ''('']
   ]"

text \<open>
  \<open>reactPatterns\<close> (lines 804 to 872), as the source writes them:
  \<^enum> \<^verbatim>\<open>/__REACT/\<close>
  \<^enum> \<^verbatim>\<open>/React\.createElement/\<close>
  \<^enum> \<^verbatim>\<open>/React\.(Component|PureComponent|Fragment|memo|forwardRef|lazy|Suspense)/\<close>
  \<^enum> \<^verbatim>\<open>/\bjsx\s*\(|\bjsxs\s*\(/\<close>
  \<^enum> \<^verbatim>\<open>/_jsx\s*\(|_jsxs\s*\(/\<close>
  \<^enum> \<^verbatim>\<open>/createRoot\s*\(|hydrateRoot\s*\(/\<close>
  \<^enum> \<^verbatim>\<open>/ReactDOM\.(render|createRoot|hydrateRoot)/\<close>
  \<^enum> \<^verbatim>\<open>/\buseState\s*\(/\<close>
  \<^enum> \<^verbatim>\<open>/\buseEffect\s*\(/\<close>
  \<^enum> \<^verbatim>\<open>/\buseCallback\s*\(/\<close>
  \<^enum> \<^verbatim>\<open>/\buseMemo\s*\(/\<close>
  \<^enum> \<^verbatim>\<open>/\buseRef\s*\(/\<close>
  \<^enum> \<^verbatim>\<open>/\buseContext\s*\(/\<close>
  \<^enum> \<^verbatim>\<open>/\buseReducer\s*\(/\<close>
  \<^enum> \<^verbatim>\<open>/\buseLayoutEffect\s*\(/\<close>
  \<^enum> \<^verbatim>\<open>/\buseImperativeHandle\s*\(/\<close>
  \<^enum> \<^verbatim>\<open>/\buseDebugValue\s*\(/\<close>
  \<^enum> \<^verbatim>\<open>/\buseTransition\s*\(/\<close>
  \<^enum> \<^verbatim>\<open>/\buseDeferredValue\s*\(/\<close>
  \<^enum> \<^verbatim>\<open>/\buseId\s*\(/\<close>
  \<^enum> \<^verbatim>\<open>/\buseSyncExternalStore\s*\(/\<close>
  \<^enum> \<^verbatim>\<open>/useRouter\s*\(\)/\<close>
  \<^enum> \<^verbatim>\<open>/usePathname\s*\(\)/\<close>
  \<^enum> \<^verbatim>\<open>/useSearchParams\s*\(\)/\<close>
  \<^enum> \<^verbatim>\<open>/useParams\s*\(\)/\<close>
  \<^enum> \<^verbatim>\<open>/"use client"/\<close>
  \<^enum> \<^verbatim>\<open>/"use server"/\<close>
  \<^enum> \<^verbatim>\<open>/\bnext\/\w+/\<close>
  \<^enum> \<^verbatim>\<open>/getServerSideProps|getStaticProps|getStaticPaths/\<close>
  \<^enum> \<^verbatim>\<open>/\buseQuery\s*\(/\<close>
  \<^enum> \<^verbatim>\<open>/\buseMutation\s*\(/\<close>
  \<^enum> \<^verbatim>\<open>/\buseInfiniteQuery\s*\(/\<close>
  \<^enum> \<^verbatim>\<open>/QueryClient|QueryClientProvider/\<close>
  \<^enum> \<^verbatim>\<open>/\buseAccount\s*\(/\<close>
  \<^enum> \<^verbatim>\<open>/\buseConnect\s*\(/\<close>
  \<^enum> \<^verbatim>\<open>/\buseDisconnect\s*\(/\<close>
  \<^enum> \<^verbatim>\<open>/\buseNetwork\s*\(/\<close>
  \<^enum> \<^verbatim>\<open>/\buseBalance\s*\(/\<close>
  \<^enum> \<^verbatim>\<open>/\buseContractRead\s*\(/\<close>
  \<^enum> \<^verbatim>\<open>/\buseContractWrite\s*\(/\<close>
  \<^enum> \<^verbatim>\<open>/\busePrepareContractWrite\s*\(/\<close>
  \<^enum> \<^verbatim>\<open>/\buseWaitForTransaction\s*\(/\<close>
  \<^enum> \<^verbatim>\<open>/\buseSignMessage\s*\(/\<close>
  \<^enum> \<^verbatim>\<open>/\buseSendTransaction\s*\(/\<close>
  \<^enum> \<^verbatim>\<open>/RainbowKitProvider|ConnectButton/\<close>
  \<^enum> \<^verbatim>\<open>/WagmiConfig|WagmiProvider/\<close>
  \<^enum> \<^verbatim>\<open>/\buseSelector\s*\(/\<close>
  \<^enum> \<^verbatim>\<open>/\buseDispatch\s*\(/\<close>
  \<^enum> \<^verbatim>\<open>/\buseStore\s*\(/\<close>
  \<^enum> \<^verbatim>\<open>/\buseAtom\s*\(/\<close>
  \<^enum> \<^verbatim>\<open>/\buseRecoilState\s*\(/\<close>
  \<^enum> \<^verbatim>\<open>/\buseRecoilValue\s*\(/\<close>
  \<^enum> \<^verbatim>\<open>/\bstyled\s*\./\<close>
  \<^enum> \<^verbatim>\<open>/\bcss\s*\x60/\<close>
  \<^enum> \<^verbatim>\<open>/\bclassName\s*=/\<close>
  \<^enum> \<^verbatim>\<open>/\bclassNames\s*\(/\<close>
  \<^enum> \<^verbatim>\<open>/\bclsx\s*\(/\<close>
  \<^enum> \<^verbatim>\<open>/\bcn\s*\(/\<close>
  \<^enum> \<^verbatim>\<open>/\buseForm\s*\(/\<close>
  \<^enum> \<^verbatim>\<open>/\buseFormContext\s*\(/\<close>
  \<^enum> \<^verbatim>\<open>/\bregister\s*\(/\<close>
  \<^enum> \<^verbatim>\<open>/\bhandleSubmit\s*\(/\<close>
  \<^medskip> Here \<^verbatim>\<open>\x60\<close> stands for the backquote of the source.
\<close>

definition reactPatterns :: "rx list" where
  "reactPatterns = [
     Lit ''__REACT'',
     Lit ''React.createElement'',
     seq [Lit ''React.'', alt [Lit ''Component'', Lit ''PureComponent'', Lit ''Fragment'',
       Lit ''memo'', Lit ''forwardRef'', Lit ''lazy'', Lit ''Suspense'']],
     alt [seq [WordB, Lit ''jsx'', Star Space, Lit ''(''], seq [WordB, Lit ''jsxs'', Star Space,
       Lit ''('']],
     alt [seq [Lit ''_jsx'', Star Space, Lit ''(''], seq [Lit ''_jsxs'', Star Space, Lit ''('']],
     alt [seq [Lit ''createRoot'', Star Space, Lit ''(''], seq [Lit ''hydrateRoot'', Star Space,
       Lit ''('']],
     seq [Lit ''ReactDOM.'', alt [Lit ''render'', Lit ''createRoot'', Lit ''hydrateRoot'']],
     seq [WordB, Lit ''useState'', Star Space, Lit ''(''],
     seq [WordB, Lit ''useEffect'', Star Space, Lit ''(''],
     seq [WordB, Lit ''useCallback'', Star Space, Lit ''(''],
     seq [WordB, Lit ''useMemo'', Star Space, Lit ''(''],
     seq [WordB, Lit ''useRef'', Star Space, Lit ''(''],
     seq [WordB, Lit ''useContext'', Star Space, Lit ''(''],
     seq [WordB, Lit ''useReducer'', Star Space, Lit ''(''],
     seq [WordB, Lit ''useLayoutEffect'', Star Space, Lit ''(''],
     seq [WordB, Lit ''useImperativeHandle'', Star Space, Lit ''(''],
     seq [WordB, Lit ''useDebugValue'', Star Space, Lit ''(''],
     seq [WordB, Lit ''useTransition'', Star Space, Lit ''(''],
     seq [WordB, Lit ''useDeferredValue'', Star Space, Lit ''(''],
     seq [WordB, Lit ''useId'', Star Space, Lit ''(''],
     seq [WordB, Lit ''useSyncExternalStore'', Star Space, Lit ''(''],
     seq [Lit ''useRouter'', Star Space, Lit ''()''],
     seq [Lit ''usePathname'', Star Space, Lit ''()''],
     seq [Lit ''useSearchParams'', Star Space, Lit ''()''],
     seq [Lit ''useParams'', Star Space, Lit ''()''],
     seq [Lit [CHR 0x22], Lit ''use client'', Lit [CHR 0x22]],
     seq [Lit [CHR 0x22], Lit ''use server'', Lit [CHR 0x22]],
     seq [WordB, Lit ''next/'', Plus Word],
     alt [Lit ''getServerSideProps'', Lit ''getStaticProps'', Lit ''getStaticPaths''],
     seq [WordB, Lit ''useQuery'', Star Space, Lit ''(''],
     seq [WordB, Lit ''useMutation'', Star Space, Lit ''(''],
     seq [WordB, Lit ''useInfiniteQuery'', Star Space, Lit ''(''],
     alt [Lit ''QueryClient'', Lit ''QueryClientProvider''],
     seq [WordB, Lit ''useAccount'', Star Space, Lit ''(''],
     seq [WordB, Lit ''useConnect'', Star Space, Lit ''(''],
     seq [WordB, Lit ''useDisconnect'', Star Space, Lit ''(''],
     seq [WordB, Lit ''useNetwork'', Star Space, Lit ''(''],
     seq [WordB, Lit ''useBalance'', Star Space, Lit ''(''],
     seq [WordB, Lit ''useContractRead'', Star Space, Lit ''(''],
     seq [WordB, Lit ''useContractWrite'', Star Space, Lit ''(''],
     seq [WordB, Lit ''usePrepareContractWrite'', Star Space, Lit ''(''],
     seq [WordB, Lit ''useWaitForTransaction'', Star Space, Lit ''(''],
     seq [WordB, Lit ''useSignMessage'', Star Space, Lit ''(''],
     seq [WordB, Lit ''useSendTransaction'', Star Space, Lit ''(''],
     alt [Lit ''RainbowKitProvider'', Lit ''ConnectButton''],
     alt [Lit ''WagmiConfig'', Lit ''WagmiProvider''],
     seq [WordB, Lit ''useSelector'', Star Space, Lit ''(''],
     seq [WordB, Lit ''useDispatch'', Star Space, Lit ''(''],
     seq [WordB, Lit ''useStore'', Star Space, Lit ''(''],
     seq [WordB, Lit ''useAtom'', Star Space, Lit ''(''],
     seq [WordB, Lit ''useRecoilState'', Star Space, Lit ''(''],
     seq [WordB, Lit ''useRecoilValue'', Star Space, Lit ''(''],
     seq [WordB, Lit ''styled'', Star Space, Lit ''.''],
     seq [WordB, Lit ''css'', Star Space, Lit [CHR 0x60]],
     seq [WordB, Lit ''className'', Star Space, Lit ''=''],
     seq [WordB, Lit ''classNames'', Star Space, Lit ''(''],
     seq [WordB, Lit ''clsx'', Star Space, Lit ''(''],
     seq [WordB, Lit ''cn'', Star Space, Lit ''(''],
     seq [WordB, Lit ''useForm'', Star Space, Lit ''(''],
     seq [WordB, Lit ''useFormContext'', Star Space, Lit ''(''],
     seq [WordB, Lit ''register'', Star Space, Lit ''(''],
     seq [WordB, Lit ''handleSubmit'', Star Space, Lit ''('']
   ]"

text \<open>Line 739 of the source: \<^verbatim>\<open>/function\s*\(\s*\w\s*,\s*\w\s*,\s*\w\s*\)/\<close>\<close>

definition functionOfThree :: rx where
  "functionOfThree = seq [Lit ''function'', Star Space, Lit ''('', Star Space, Word, Star Space,
     Lit '','', Star Space, Word, Star Space, Lit '','', Star Space, Word, Star Space, Lit '')'']"

text \<open>Line 740 of the source: \<^verbatim>\<open>/\(\s*\w\s*,\s*\w\s*\)\s*=>/\<close>\<close>

definition arrowOfTwo :: rx where
  "arrowOfTwo = seq [Lit ''('', Star Space, Word, Star Space, Lit '','', Star Space, Word,
     Star Space, Lit '')'', Star Space, Lit ''=>'']"

text \<open>Line 741 of the source: \<^verbatim>\<open>/\bvar\s+\w\s*,\s*\w\s*,\s*\w\s*[,;=]/\<close>\<close>

definition varOfThree :: rx where
  "varOfThree = seq [WordB, Lit ''var'', Plus Space, Word, Star Space, Lit '','', Star Space,
     Word, Star Space, Lit '','', Star Space, Word, Star Space, OneOf [Ch CHR '','',
     Ch CHR '';'', Ch CHR ''='']]"

text \<open>Line 760 of the source: \<^verbatim>\<open>/\/\*[\s\S]{10,}?\*\//\<close>\<close>

definition blockComment :: rx where
  "blockComment = seq [Lit ''/*'', AtLeast 10 (OneOf [Sp, NotSp]), Lit ''*/'']"

text \<open>Line 761 of the source: \<^verbatim>\<open>/\/\/[^\n]{5,}/\<close>\<close>

definition lineComment :: rx where
  "lineComment = seq [Lit ''//'', AtLeast 5 (NoneOf [Ch CHR 0x0A])]"

subsection \<open>The heuristics\<close>

text \<open>
  The loop shared by the heuristics: \<open>for (const pattern of patterns) if (pattern.test(text))
  { matches++; if (enough) return true; }\<close>. It either returns \<open>true\<close> from inside the loop or
  ends with the number of matches counted so far.
\<close>

datatype outcome = ReturnedTrue | Counted nat

fun count_until :: "(nat \<Rightarrow> bool) \<Rightarrow> rx list \<Rightarrow> string \<Rightarrow> nat \<Rightarrow> outcome" where
  "count_until enough [] text matches = Counted matches"
| "count_until enough (pattern # others) text matches =
     (if test pattern text
      then (if enough (Suc matches) then ReturnedTrue
            else count_until enough others text (Suc matches))
      else count_until enough others text matches)"

definition isHtml :: "string \<Rightarrow> bool" where
  "isHtml text \<longleftrightarrow> count_until (\<lambda>matches. 3 \<le> matches) htmlPatterns text 0 = ReturnedTrue"

definition isCss :: "string \<Rightarrow> bool" where
  "isCss text \<longleftrightarrow> count_until (\<lambda>matches. 2 \<le> matches) cssPatterns text 0 = ReturnedTrue"

text \<open>\<open>String.prototype.trim\<close> removes white space and line terminators at both ends.\<close>

definition trim :: "string \<Rightarrow> string" where
  "trim s = rev (dropWhile js_space (rev (dropWhile js_space s)))"

text \<open>
  One round of the loop of \<open>isJson\<close> over the variables \<open>braces\<close>, \<open>brackets\<close>, \<open>inString\<close>
  and \<open>escaped\<close>.
\<close>

fun json_char :: "int \<times> int \<times> bool \<times> bool \<Rightarrow> char \<Rightarrow> int \<times> int \<times> bool \<times> bool" where
  "json_char (braces, brackets, inString, escaped) char =
     (if escaped then (braces, brackets, inString, False)
      else if char = CHR 0x5C then (braces, brackets, inString, True)
      else if char = CHR 0x22 then (braces, brackets, \<not> inString, escaped)
      else if inString then (braces, brackets, inString, escaped)
      else if char = CHR ''{'' then (braces + 1, brackets, inString, escaped)
      else if char = CHR ''}'' then (braces - 1, brackets, inString, escaped)
      else if char = CHR ''['' then (braces, brackets + 1, inString, escaped)
      else if char = CHR '']'' then (braces, brackets - 1, inString, escaped)
      else (braces, brackets, inString, escaped))"

definition isJson :: "string \<Rightarrow> bool" where
  "isJson text =
     (let trimmed = trim text in
      if \<not> startsWith trimmed ''{'' \<and> \<not> startsWith trimmed ''[''  then False
      else case foldl json_char (0, 0, False, False) (take 1000 trimmed) of
             (braces, brackets, inString, escaped) \<Rightarrow> 0 \<le> braces \<and> 0 \<le> brackets)"

definition isPython :: "string \<Rightarrow> bool" where
  "isPython text =
     (case count_until (\<lambda>strongMatches. 2 \<le> strongMatches) strongPythonPatterns text 0 of
        ReturnedTrue \<Rightarrow> True
      | Counted strongMatches \<Rightarrow>
          if 1 \<le> strongMatches
          then count_until (\<lambda>weakMatches. 3 \<le> strongMatches + weakMatches)
                 weakPythonPatterns text 0 = ReturnedTrue
          else False)"

definition isRust :: "string \<Rightarrow> bool" where
  "isRust text \<longleftrightarrow> count_until (\<lambda>matches. 3 \<le> matches) rustPatterns text 0 = ReturnedTrue"

definition isGo :: "string \<Rightarrow> bool" where
  "isGo text \<longleftrightarrow> count_until (\<lambda>matches. 3 \<le> matches) goPatterns text 0 = ReturnedTrue"

definition isJava :: "string \<Rightarrow> bool" where
  "isJava text \<longleftrightarrow> count_until (\<lambda>matches. 3 \<le> matches) javaPatterns text 0 = ReturnedTrue"

definition isCpp :: "string \<Rightarrow> bool" where
  "isCpp text \<longleftrightarrow> count_until (\<lambda>matches. 3 \<le> matches) cppPatterns text 0 = ReturnedTrue"

definition isC :: "string \<Rightarrow> bool" where
  "isC text =
     (if isCpp text then False
      else count_until (\<lambda>matches. 3 \<le> matches) cPatterns text 0 = ReturnedTrue)"

definition isJavaScriptOrTypeScript :: "string \<Rightarrow> bool" where
  "isJavaScriptOrTypeScript text =
     (case count_until (\<lambda>matches. 2 \<le> matches) strongJsPatterns text 0 of
        ReturnedTrue \<Rightarrow> True
      | Counted matches \<Rightarrow>
          if 1 \<le> matches
          then count_until (\<lambda>matches. 3 \<le> matches) weakJsPatterns text matches = ReturnedTrue
          else False)"

text \<open>
  \<open>isMinifiedJs\<close>. The loops over \<open>strongMinifiedPatterns\<close> and \<open>iifePatterns\<close> add to the
  score for every pattern that matches. The source compares quotients of lengths with
  \<open>500\<close>, \<open>0.08\<close>, \<open>0.12\<close> and \<open>0.002\<close>; the model compares the products, which gives the same
  answers for the lengths a string can have. \<open>text.split('\n').length\<close> is one more than the
  number of line feeds, so \<open>Math.max(lines.length, 1)\<close> is that number.
\<close>

fun add_matches :: "nat \<Rightarrow> rx list \<Rightarrow> string \<Rightarrow> nat \<Rightarrow> nat" where
  "add_matches points [] sample minifiedScore = minifiedScore"
| "add_matches points (pattern # others) sample minifiedScore =
     add_matches points others sample
       (if test pattern sample then minifiedScore + points else minifiedScore)"

definition isMinifiedJs :: "string \<Rightarrow> bool" where
  "isMinifiedJs text =
     (let lines = Suc (count_list text CHR 0x0A) in
      if 500 * max lines 1 < length text then True
      else
        let sample = take 8000 text;
            score1 = add_matches 2 strongMinifiedPatterns sample 0;
            score2 = add_matches 1 iifePatterns sample score1;
            score3 = (if test functionOfThree sample then score2 + 1 else score2);
            score4 = (if test arrowOfTwo sample then score3 + 1 else score3);
            score5 = (if test varOfThree sample then score4 + 1 else score4);
            whitespace = length (filter js_space sample);
            newlines = count_list sample CHR 0x0A;
            score6 =
              (if 25 * whitespace < 2 * length sample \<and> 1000 < length sample then score5 + 3
               else if 25 * whitespace < 3 * length sample \<and> 1000 < length sample
               then score5 + 2 else score5);
            score7 =
              (if 500 * newlines < length sample \<and> 2000 < length sample then score6 + 2
               else score6);
            hasBlockComments = test blockComment sample;
            hasLineComments = test lineComment sample;
            score8 =
              (if \<not> hasBlockComments \<and> \<not> hasLineComments \<and> 3000 < length sample
               then score7 + 1 else score7)
        in 3 \<le> score8)"

definition isVue :: "string \<Rightarrow> bool" where
  "isVue text \<longleftrightarrow> count_until (\<lambda>matches. 2 \<le> matches) vuePatterns text 0 = ReturnedTrue"

definition isReact :: "string \<Rightarrow> bool" where
  "isReact text \<longleftrightarrow> count_until (\<lambda>matches. 2 \<le> matches) reactPatterns text 0 = ReturnedTrue"

subsection \<open>\<open>detectDictionaryType\<close>\<close>

text \<open>
  The type \<open>DictionaryType\<close> of src/core/types.ts. The function is modelled for a
  \<open>content\<close> that is a string; of a \<open>Buffer\<close> the source takes the first 50000 bytes,
  decoded as UTF-8, as the text.
\<close>

datatype DictionaryType = React | Vue | TypeScript | JavaScript | Css | Html | Json
  | Python | Rust | Go | Java | C | Cpp | NodeModules | Auto

definition detectDictionaryType :: "string \<Rightarrow> DictionaryType" where
  "detectDictionaryType text =
     (if isHtml text then Html
      else if isCss text then Css
      else if isJson text then Json
      else if isMinifiedJs text then JavaScript
      else if isJavaScriptOrTypeScript text then
        (if isVue text then Vue
         else if isReact text then React
         else TypeScript)
      else if isPython text then Python
      else if isRust text then Rust
      else if isGo text then Go
      else if isJava text then Java
      else if isCpp text then Cpp
      else if isC text then C
      else TypeScript)"

text \<open>The number of patterns of a list that match a text.\<close>

definition hits :: "rx list \<Rightarrow> string \<Rightarrow> nat" where
  "hits patterns text = length (filter (\<lambda>pattern. test pattern text) patterns)"


section \<open>Inputs of the evaluations\<close>

subsection \<open>A dependency chain without end\<close>

text \<open>
  A registry in which every package has the single version \<open>1.0.0\<close> and depends on the
  package whose name is one \<open>x\<close> longer: the chain \<open>x\<close>, \<open>xx\<close>, \<open>xxx\<close>, ... The manifest
  depends on \<open>x\<close>; nothing is in the store, no tarball can be downloaded.
\<close>

definition chain_name :: "nat \<Rightarrow> string" where
  "chain_name k = replicate k CHR ''x''"

definition chain_data :: "string \<Rightarrow> version_data" where
  "chain_data name =
     \<lparr> vd_dist = None, vd_dependencies = Some [(name @ ''x'', ''*'')],
       vd_peerDependencies = None, vd_optionalDependencies = None \<rparr>"

definition chain_registry :: registry where
  "chain_registry name = Some (Some [(''1.0.0'', chain_data name)])"

definition chain_pkg :: "nat \<Rightarrow> ResolvedPackage" where
  "chain_pkg k = make_package (chain_name k) ''1.0.0'' (chain_data (chain_name k))"

definition chain_resolved :: "nat \<Rightarrow> resolved_map" where
  "chain_resolved k = map (\<lambda>i. (chain_name (Suc i), chain_pkg (Suc i))) [0..<k]"

text \<open>A task with \<open>j\<close> calls in flight around it, the outermost at depth \<open>d\<close>.\<close>

fun nest :: "nat \<Rightarrow> nat \<Rightarrow> task \<Rightarrow> task" where
  "nest d 0 t = t"
| "nest d (Suc j) t = Awaiting (Frame d [nest (Suc d) j t] [])"

definition chain_state :: "nat \<Rightarrow> rstate" where
  "chain_state k =
     \<lparr> st_resolved = chain_resolved k, st_warnings = [],
       st_answered = map (\<lambda>d. (d, chain_name (Suc d))) [0..<k],
       st_root = nest 0 (Suc k) (Fetching (chain_name (Suc k)) ''*'') \<rparr>"


definition chain_env :: env where
  "chain_env =
     \<lparr> package_json = Parsed \<lparr> pj_dependencies = Some [(''x'', ''*'')], pj_devDependencies = None \<rparr>,
       lock_file = Missing,
       index_file = Missing,
       existing = [],
       registry = chain_registry,
       schedule = replicate 51 0,
       tarball = (\<lambda>url. DownloadFailed),
       link_throws = (\<lambda>p. False),
       sha256_hex = (\<lambda>s. s),
       PACKAGES_DIR = ''/store/packages'',
       NUM_CPUS = 1,
       opt_dev = False,
       opt_production = False,
       opt_parallel = None \<rparr>"

subsection \<open>Two dependents of one package\<close>

text \<open>
  \<open>a\<close> and \<open>b\<close> are direct dependencies; \<open>a\<close> needs \<open>c@^1.0.0\<close> and \<open>b\<close> needs \<open>c@^2.0.0\<close>;
  the registry has \<open>c\<close> in versions \<open>1.0.0\<close> and \<open>2.0.0\<close>.
\<close>

definition plain_data :: "deps \<Rightarrow> version_data" where
  "plain_data ds =
     \<lparr> vd_dist = None, vd_dependencies = Some ds,
       vd_peerDependencies = None, vd_optionalDependencies = None \<rparr>"

definition race_registry :: registry where
  "race_registry name =
     (if name = ''a'' then Some (Some [(''1.0.0'', plain_data [(''c'', ''^1.0.0'')])])
      else if name = ''b'' then Some (Some [(''1.0.0'', plain_data [(''c'', ''^2.0.0'')])])
      else if name = ''c'' then Some (Some [(''1.0.0'', plain_data []), (''2.0.0'', plain_data [])])
      else None)"

subsection \<open>A store entry whose directory is gone\<close>

text \<open>
  The index records \<open>a@1.0.0\<close> under a path that no longer exists; the registry and the
  tarball host answer.
\<close>

definition stale_index :: StoreIndex where
  "stale_index =
     \<lparr> si_version = 1,
       si_packages =
         [(''a'', [(''1.0.0'', \<lparr> se_integrity = ''sha512-a'', se_compressedSize = 10,
                                se_originalSize = 20, se_dictionary = ''node_modules'',
                                se_extractedPath = Some ''/store/packages/gone'' \<rparr>)])] \<rparr>"

definition stale_registry :: registry where
  "stale_registry name =
     (if name = ''a'' then
        Some (Some [(''1.0.0'',
          \<lparr> vd_dist = Some \<lparr> dist_integrity = Some ''sha512-a'', dist_shasum = None,
                              dist_tarball = Some ''https://registry.npmjs.org/a/-/a-1.0.0.tgz'' \<rparr>,
            vd_dependencies = None, vd_peerDependencies = None,
            vd_optionalDependencies = None \<rparr>)])
      else None)"

definition stale_env :: env where
  "stale_env =
     \<lparr> package_json = Parsed \<lparr> pj_dependencies = Some [(''a'', ''^1.0.0'')], pj_devDependencies = None \<rparr>,
       lock_file = Missing,
       index_file = Parsed stale_index,
       existing = [],
       registry = stale_registry,
       schedule = [0],
       tarball = (\<lambda>url. Extracted 10 20),
       link_throws = (\<lambda>p. False),
       sha256_hex = (\<lambda>s. ''00'' @ s),
       PACKAGES_DIR = ''/store/packages'',
       NUM_CPUS = 1,
       opt_dev = False,
       opt_production = False,
       opt_parallel = None \<rparr>"

definition stale_pkg :: ResolvedPackage where
  "stale_pkg =
     \<lparr> rp_name = ''a'', rp_version = ''1.0.0'', rp_integrity = ''sha512-a'',
       rp_tarballUrl = ''https://registry.npmjs.org/a/-/a-1.0.0.tgz'', rp_dependencies = [],
       rp_peerDependencies = None, rp_optionalDependencies = None \<rparr>"

subsection \<open>A download that fails\<close>

text \<open>The same project with an empty store and a tarball host that does not answer.\<close>

definition retry_env :: env where
  "retry_env = stale_env\<lparr> index_file := Missing, tarball := (\<lambda>url. DownloadFailed) \<rparr>"

subsection \<open>A small package tree\<close>

definition sample_tree :: tree where
  "sample_tree =
     Dir [(''index.js'', File [1, 2]),
          (''lib'', Dir [(''util.js'', File [3]), (''data.json'', File [4])])]"

subsection \<open>Inputs of the dictionary detection\<close>

text \<open>
  Two texts of the project's tests for \<open>detectDictionaryType\<close>, the one expected to be
  \<open>python\<close> and the one expected to get the default; a Python function behind the line
  \<open>import x from 'y'\<close>; and the same with a JavaScript constant between the two.
\<close>

definition python_test :: string where
  "python_test =
     [CHR 0x0A] @
     ''def main():'' @ [CHR 0x0A] @
     ''    print('' @ [CHR 0x22] @ ''Hello'' @ [CHR 0x22] @ '')'' @ [CHR 0x0A] @
     [CHR 0x0A] @
     ''class MyClass:'' @ [CHR 0x0A] @
     ''    def __init__(self):'' @ [CHR 0x0A] @
     ''        self.value = 42'' @ [CHR 0x0A] @
     ''    ''"




section \<open>Properties of the version resolver\<close>

subsection \<open>compareVersions orders by the first three components\<close>

lemma nearest_double_exact: "\<bar>d\<bar> \<le> 2 ^ 53 \<Longrightarrow> nearest_double d = d"
  by (simp add: nearest_double_def)

lemma nearest_double_neg: "nearest_double d < 0 \<longleftrightarrow> d < 0"
  by (auto simp: nearest_double_def)

lemma nearest_double_zero: "nearest_double d = 0 \<longleftrightarrow> d = 0"
  by (auto simp: nearest_double_def)

lemma nearest_double_pos: "0 < nearest_double d \<longleftrightarrow> 0 < d"
  by (auto simp: nearest_double_def)

lemma cmp_loop_unroll:
  "cmp_loop 0 pa pb =
     (if at_or_zero pa 0 \<noteq> at_or_zero pb 0 then nearest_double (at_or_zero pa 0 - at_or_zero pb 0)
      else if at_or_zero pa 1 \<noteq> at_or_zero pb 1
        then nearest_double (at_or_zero pa 1 - at_or_zero pb 1)
      else nearest_double (at_or_zero pa 2 - at_or_zero pb 2))"
  by (simp add: cmp_loop.simps [of 0] cmp_loop.simps [of "Suc 0"] cmp_loop.simps [of "Suc (Suc 0)"]
      cmp_loop.simps [of "Suc (Suc (Suc 0))"] numeral_2_eq_2 numeral_3_eq_3 Let_def
      nearest_double_zero)

lemma at_map: "at (map f xs) i = map_option f (at xs i)"
  by (simp add: at_def)

lemma at_or_zero_component:
  "at_or_zero (map parse_or_zero (js_split CHR ''.'' s)) i = component s i"
  by (simp add: at_or_zero_def component_def at_map split: option.splits)

lemma compareVersions_components:
  "compareVersions a b =
     (if component a 0 \<noteq> component b 0 then nearest_double (component a 0 - component b 0)
      else if component a 1 \<noteq> component b 1 then nearest_double (component a 1 - component b 1)
      else nearest_double (component a 2 - component b 2))"
  by (simp add: compareVersions_def Let_def cmp_loop_unroll at_or_zero_component)

lemma compareVersions_neg: "compareVersions a b < 0 \<longleftrightarrow> version_key a < version_key b"
  by (auto simp: compareVersions_components version_key_def less_prod_def less_eq_prod_def
      nearest_double_neg)

lemma compareVersions_zero: "compareVersions a b = 0 \<longleftrightarrow> version_key a = version_key b"
  by (auto simp: compareVersions_components version_key_def nearest_double_zero)

lemma compareVersions_pos: "compareVersions a b > 0 \<longleftrightarrow> version_key b < version_key a"
  by (auto simp: compareVersions_components version_key_def less_prod_def less_eq_prod_def
      nearest_double_pos)

lemma compareVersions_le: "compareVersions a b \<le> 0 \<longleftrightarrow> version_key a \<le> version_key b"
  using compareVersions_pos [of a b] by (simp add: not_less [symmetric])

lemma compareVersions_ge: "compareVersions a b \<ge> 0 \<longleftrightarrow> version_key b \<le> version_key a"
  using compareVersions_neg [of a b] by (simp add: not_less [symmetric])

lemma js_split_nonempty: "js_split c s \<noteq> []"
  by (induction s) (auto split: list.splits)

lemma component_take:
  assumes "take 3 (js_split CHR ''.'' a) = take 3 (js_split CHR ''.'' b)" and "i < 3"
  shows "component a i = component b i"
proof -
  have "at (js_split CHR ''.'' a) i = at (take 3 (js_split CHR ''.'' a)) i"
    using assms(2) by (simp add: at_def)
  also have "\<dots> = at (take 3 (js_split CHR ''.'' b)) i"
    by (simp add: assms(1))
  also have "\<dots> = at (js_split CHR ''.'' b) i"
    using assms(2) by (simp add: at_def)
  finally show ?thesis by (simp add: component_def)
qed

lemma version_key_take:
  "take 3 (js_split CHR ''.'' a) = take 3 (js_split CHR ''.'' b) \<Longrightarrow> version_key a = version_key b"
  using component_take [of a b 0] component_take [of a b 1] component_take [of a b 2]
  by (simp add: version_key_def)

subsection \<open>The head of a stable descending sort\<close>

lemma insert_by_set: "set (insert_by cmp x ys) = insert x (set ys)"
  by (induction ys) auto

lemma sort_by_set: "set (sort_by cmp xs) = set xs"
  by (induction xs) (auto simp: insert_by_set)

lemma sort_by_Nil: "sort_by cmp xs = [] \<longleftrightarrow> xs = []"
  by (metis sort_by_set set_empty)

lemma insert_by_hd:
  "insert_by cmp x ys = (case ys of [] \<Rightarrow> [x] | y # ys' \<Rightarrow> if cmp x y \<le> 0 then x # ys else y # insert_by cmp x ys')"
  by (cases ys) auto

lemma sort_by_head:
  fixes key :: "'a \<Rightarrow> 'k::linorder"
  assumes cmp: "\<And>x y. cmp x y \<le> 0 \<longleftrightarrow> key y \<le> key x"
  shows "sort_by cmp xs = m # rest \<Longrightarrow>
         \<exists>pre post. xs = pre @ m # post \<and> (\<forall>v\<in>set pre. key v < key m) \<and> (\<forall>v\<in>set post. key v \<le> key m)"
proof (induction xs arbitrary: m rest)
  case Nil
  then show ?case by simp
next
  case (Cons x xs)
  show ?case
  proof (cases "sort_by cmp xs")
    case Nil
    then have "xs = []" by (simp add: sort_by_Nil)
    with Cons.prems have "m = x" by simp
    with \<open>xs = []\<close> show ?thesis
      by (intro exI [of _ "[]"]) simp
  next
    case (Cons m' rest')
    from Cons.IH [OF this] obtain pre post where
      xs: "xs = pre @ m' # post" and pre: "\<forall>v\<in>set pre. key v < key m'"
      and post: "\<forall>v\<in>set post. key v \<le> key m'" by blast
    show ?thesis
    proof (cases "cmp x m' \<le> 0")
      case True
      with Cons Cons.prems have "m = x" by simp
      from True cmp [of x m'] have mx: "key m' \<le> key x" by simp
      have "\<forall>v\<in>set xs. key v \<le> key x"
      proof
        fix v assume "v \<in> set xs"
        then have "key v \<le> key m'" using xs pre post by auto
        then show "key v \<le> key x" using mx by (rule order_trans)
      qed
      with \<open>m = x\<close> show ?thesis
        by (intro exI [of _ "[]"] exI [of _ xs]) simp
    next
      case False
      with Cons Cons.prems have "m = m'" by simp
      have "key x < key m'" using False cmp [of x m'] by simp
      with \<open>m = m'\<close> xs pre post show ?thesis
        by (intro exI [of _ "x # pre"] exI [of _ post]) simp
    qed
  qed
qed

subsection \<open>Versions of the grammar, as strings\<close>

lemma of_char_digit_char: "d < 10 \<Longrightarrow> (of_char (digit_char d) :: nat) = 48 + d"
  by (simp add: digit_char_def)

lemma is_digit_digit_char: "d < 10 \<Longrightarrow> is_digit (digit_char d)"
  by (simp add: is_digit_def of_char_digit_char)

lemma digit_val_digit_char: "d < 10 \<Longrightarrow> digit_val (digit_char d) = int d"
  by (simp add: digit_val_def of_char_digit_char)

lemma dec_val_snoc: "dec_val (ds @ [c]) = 10 * dec_val ds + digit_val c"
  by (simp add: dec_val_def)

lemma show_nat_digits: "\<forall>c\<in>set (show_nat n). is_digit c"
proof (induction n rule: show_nat.induct)
  case (1 n)
  then show ?case
    by (subst show_nat.simps) (auto simp: is_digit_digit_char)
qed

lemma show_nat_nonempty: "show_nat n \<noteq> []"
  by (subst show_nat.simps) simp

lemma dec_val_show_nat: "dec_val (show_nat n) = int n"
proof (induction n rule: show_nat.induct)
  case (1 n)
  show ?case
  proof (cases "n < 10")
    case True
    then show ?thesis
      by (subst show_nat.simps) (simp add: dec_val_def digit_val_digit_char)
  next
    case False
    with 1 have "dec_val (show_nat (n div 10)) = int (n div 10)" by simp
    with False show ?thesis
      by (subst show_nat.simps) (simp add: dec_val_snoc digit_val_digit_char zdiv_int zmod_int)
  qed
qed

lemma show_nat_inj:
  assumes "show_nat m = show_nat n"
  shows "m = n"
proof -
  have "int m = dec_val (show_nat m)" by (simp only: dec_val_show_nat)
  also have "\<dots> = dec_val (show_nat n)" by (simp only: assms)
  also have "\<dots> = int n" by (simp only: dec_val_show_nat)
  finally show ?thesis by simp
qed

lemma is_digit_not_space: "is_digit c \<Longrightarrow> \<not> js_space c"
  by (auto simp: is_digit_def js_space_def)

lemma is_digit_not_sign: "is_digit c \<Longrightarrow> c \<noteq> CHR ''-'' \<and> c \<noteq> CHR ''+'' \<and> c \<noteq> CHR ''.'' \<and> c \<noteq> CHR ''v''"
  by (auto simp: is_digit_def)

lemma parseInt_digits:
  assumes "ds \<noteq> []" and "\<forall>c\<in>set ds. is_digit c"
  shows "parseInt ds = Some (dec_val ds)"
proof -
  obtain c cs where ds: "ds = c # cs" using assms(1) by (cases ds) auto
  then have c: "is_digit c" using assms(2) by simp
  have dw: "dropWhile js_space ds = ds"
    using ds c by (simp add: is_digit_not_space)
  have tw: "takeWhile is_digit ds = ds"
    using assms(2) by (simp add: takeWhile_eq_all_conv)
  have sg: "take (Suc 0) ds \<noteq> ''-''" "take (Suc 0) ds \<noteq> ''+''"
    using ds is_digit_not_sign [OF c] by simp_all
  show ?thesis
    by (simp add: parseInt_def Let_def dw tw sg assms(1))
qed

lemma parse_or_zero_show_nat: "parse_or_zero (show_nat n) = int n"
  by (simp add: parse_or_zero_def parseInt_digits show_nat_nonempty show_nat_digits dec_val_show_nat)

lemma js_split_no_sep: "c \<notin> set s \<Longrightarrow> js_split c s = [s]"
  by (induction s) auto

lemma js_split_append:
  "c \<notin> set s \<Longrightarrow> js_split c (s @ c # t) = s # js_split c t"
  by (induction s) auto

lemma show_nat_no_dot: "CHR ''.'' \<notin> set (show_nat n)"
  using show_nat_digits [of n] is_digit_not_sign by blast

lemma js_split_show_version:
  "js_split CHR ''.'' (show_version (a, b, c)) = [show_nat a, show_nat b, show_nat c]"
  by (simp add: js_split_append js_split_no_sep show_nat_no_dot)

lemma component_show_version:
  "component (show_version (a, b, c)) 0 = int a"
  "component (show_version (a, b, c)) (Suc 0) = int b"
  "component (show_version (a, b, c)) 2 = int c"
  by (simp_all add: component_def at_def js_split_show_version parse_or_zero_show_nat
      del: show_version.simps)

lemma version_key_show_version:
  "version_key (show_version (a, b, c)) = (int a, int b, int c)"
  by (simp add: version_key_def component_show_version del: show_version.simps)

lemma show_version_inj: "show_version v = show_version w \<Longrightarrow> v = w"
proof -
  assume eq: "show_version v = show_version w"
  obtain a b c where v: "v = (a, b, c)" by (cases v) auto
  obtain a' b' c' where w: "w = (a', b', c')" by (cases w) auto
  from eq have "version_key (show_version v) = version_key (show_version w)" by simp
  then show "v = w" by (simp add: v w version_key_show_version del: show_version.simps)
qed

lemma key_le_int: "((int a, int b, int c) \<le> (int a', int b', int c')) = ((a, b, c) \<le> (a', b', c'))"
  by (auto simp: less_eq_prod_def less_prod_def)

lemma key_less_int: "((int a, int b, int c) < (int a', int b', int c')) = ((a, b, c) < (a', b', c'))"
  by (auto simp: less_eq_prod_def less_prod_def)

lemma show_version_hd:
  "\<exists>d ds. show_version v = d # ds \<and> is_digit d"
proof -
  obtain a b c where v: "v = (a, b, c)" by (cases v) auto
  obtain d ds where "show_nat a = d # ds" using show_nat_nonempty [of a] by (cases "show_nat a") auto
  moreover from this have "is_digit d" using show_nat_digits [of a] by simp
  ultimately show ?thesis by (simp add: v)
qed

lemma is_digit_not_op:
  "is_digit c \<Longrightarrow> c \<noteq> CHR ''^'' \<and> c \<noteq> CHR ''~'' \<and> c \<noteq> CHR ''>'' \<and> c \<noteq> CHR ''<'' \<and> c \<noteq> CHR ''='' \<and> c \<noteq> CHR ''*'' \<and> c \<noteq> CHR ''l''"
  by (auto simp: is_digit_def)

lemma satisfies_refines:
  "satisfies (show_version v) (show_range r) = satisfies_spec v r"
proof -
  obtain a b c where v: "v = (a, b, c)" by (cases v) auto
  obtain d ds where hd: "show_version v = d # ds" and d: "is_digit d"
    using show_version_hd by blast
  note dn = is_digit_not_sign [OF d] is_digit_not_op [OF d]
  have sv: "strip_v (show_version v) = show_version v"
    using hd dn by (simp add: strip_v_def)
  show ?thesis
  proof (cases r)
    case Any
    then show ?thesis by (simp add: satisfies_def)
  next
    case Latest
    then show ?thesis by (simp add: satisfies_def)
  next
    case (Exact w)
    obtain e es where hw: "show_version w = e # es" and e: "is_digit e"
      using show_version_hd by blast
    note en = is_digit_not_sign [OF e] is_digit_not_op [OF e]
    have "satisfies (show_version v) (show_version w) = (show_version v = show_version w)"
      using hw en sv by (simp add: satisfies_def strip_v_def startsWith_def Let_def)
    moreover have "(show_version v = show_version w) = (v = w)"
      using show_version_inj [of v w] by blast
    ultimately show ?thesis using Exact by (simp del: show_version.simps)
  next
    case (Caret w)
    obtain a' b' c' where w: "w = (a', b', c')" by (cases w) auto
    show ?thesis
      using Caret sv
      by (simp add: satisfies_def strip_v_def startsWith_def Let_def v w at_def js_split_show_version
          compareVersions_ge version_key_show_version key_le_int show_nat_inj del: show_version.simps)
         (auto dest: show_nat_inj)
  next
    case (Tilde w)
    obtain a' b' c' where w: "w = (a', b', c')" by (cases w) auto
    show ?thesis
      using Tilde sv
      by (simp add: satisfies_def strip_v_def startsWith_def Let_def v w at_def js_split_show_version
          compareVersions_ge version_key_show_version key_le_int del: show_version.simps)
         (auto dest: show_nat_inj)
  next
    case (GreaterEq w)
    obtain a' b' c' where w: "w = (a', b', c')" by (cases w) auto
    show ?thesis
      using GreaterEq sv
      by (simp add: satisfies_def strip_v_def startsWith_def Let_def v w
          compareVersions_ge version_key_show_version key_le_int del: show_version.simps)
  next
    case (Greater w)
    obtain a' b' c' where w: "w = (a', b', c')" by (cases w) auto
    obtain e es where hw: "show_version w = e # es" and e: "is_digit e"
      using show_version_hd by blast
    note en = is_digit_not_op [OF e]
    have "\<not> startsWith (''>'' @ show_version w) ''>=''"
      using hw en by (simp add: startsWith_def)
    then show ?thesis
      using Greater sv
      by (simp add: satisfies_def strip_v_def Let_def startsWith_def v w
          compareVersions_pos version_key_show_version key_less_int del: show_version.simps)
  next
    case (LessEq w)
    obtain a' b' c' where w: "w = (a', b', c')" by (cases w) auto
    show ?thesis
      using LessEq sv
      by (simp add: satisfies_def strip_v_def startsWith_def Let_def v w
          compareVersions_le version_key_show_version key_le_int del: show_version.simps)
  next
    case (Less w)
    obtain a' b' c' where w: "w = (a', b', c')" by (cases w) auto
    obtain e es where hw: "show_version w = e # es" and e: "is_digit e"
      using show_version_hd by blast
    note en = is_digit_not_op [OF e]
    have "\<not> startsWith (''<'' @ show_version w) ''<=''"
      using hw en by (simp add: startsWith_def)
    then show ?thesis
      using Less sv
      by (simp add: satisfies_def strip_v_def Let_def startsWith_def v w
          compareVersions_neg version_key_show_version key_less_int del: show_version.simps)
  qed
qed

subsection \<open>findBestVersion\<close>

lemma cmp_desc: "(compareVersions y x \<le> 0) = (version_key y \<le> version_key x)"
  by (rule compareVersions_le)

lemma findBestVersion_Some:
  assumes "findBestVersion vs r = Some m"
  shows "\<exists>pre post. filter (\<lambda>v. satisfies v r) vs = pre @ m # post \<and>
           (\<forall>v\<in>set pre. version_key v < version_key m) \<and>
           (\<forall>v\<in>set post. version_key v \<le> version_key m)"
proof -
  let ?ms = "sort_by (\<lambda>a b. compareVersions b a) (filter (\<lambda>v. satisfies v r) vs)"
  from assms obtain rest where "?ms = m # rest"
    by (auto simp: findBestVersion_def Let_def split: list.splits if_splits)
  then show ?thesis
    by (rule sort_by_head [where key = version_key, rotated]) (rule cmp_desc)
qed

lemma findBestVersion_None:
  assumes "findBestVersion vs r = None" and "[] \<notin> set vs"
  shows "\<forall>v\<in>set vs. \<not> satisfies v r"
proof -
  let ?fs = "filter (\<lambda>v. satisfies v r) vs"
  let ?ms = "sort_by (\<lambda>a b. compareVersions b a) ?fs"
  have "?ms = []"
  proof (cases ?ms)
    case Nil
    then show ?thesis .
  next
    case (Cons m rest)
    then have "m \<in> set ?ms" by simp
    then have "m \<in> set vs" by (simp add: sort_by_set)
    with assms(2) have "m \<noteq> []" by auto
    with Cons assms(1) show ?thesis by (simp add: findBestVersion_def Let_def)
  qed
  then have "?fs = []" by (simp add: sort_by_Nil)
  then show ?thesis by (simp add: filter_empty_conv)
qed

lemma findBestVersion_no_match:
  assumes "\<forall>v\<in>set vs. \<not> satisfies v r"
  shows "findBestVersion vs r = None"
proof -
  from assms have "filter (\<lambda>v. satisfies v r) vs = []" by (simp add: filter_empty_conv)
  then show ?thesis by (simp add: findBestVersion_def)
qed

text \<open>
  Claim C3. For every list of candidate version strings (non-empty strings whose compared
  components are exact) and every range, \<open>findBestVersion\<close> returns \<open>null\<close> exactly when
  no candidate satisfies the range, and otherwise a candidate that satisfies the range and
  is highest under the numeric major.minor.patch ordering among those that do; for
  \<open>["1.0.0","1.2.0","1.1.5"]\<close> and \<open>"^1.0.0"\<close> it returns \<open>"1.2.0"\<close>.
\<close>

theorem findBestVersion_highest:
  assumes "[] \<notin> set vs" and "\<forall>v\<in>set vs. exact_version v"
  shows "(findBestVersion vs r = None \<longleftrightarrow> (\<forall>v\<in>set vs. \<not> satisfies v r)) \<and>
         (\<forall>b. findBestVersion vs r = Some b \<longrightarrow>
            b \<in> set vs \<and> satisfies b r \<and>
            (\<forall>v\<in>set vs. satisfies v r \<longrightarrow> version_key v \<le> version_key b)) \<and>
         findBestVersion [''1.0.0'', ''1.2.0'', ''1.1.5''] ''^1.0.0'' = Some ''1.2.0''"
proof (intro conjI allI impI)
  show "findBestVersion vs r = None \<longleftrightarrow> (\<forall>v\<in>set vs. \<not> satisfies v r)"
    using findBestVersion_None [OF _ assms(1)] findBestVersion_no_match by blast
next
  fix b assume b: "findBestVersion vs r = Some b"
  from findBestVersion_Some [OF b] obtain pre post where
    f: "filter (\<lambda>v. satisfies v r) vs = pre @ b # post"
    and pre: "\<forall>v\<in>set pre. version_key v < version_key b"
    and post: "\<forall>v\<in>set post. version_key v \<le> version_key b" by blast
  have "b \<in> set (filter (\<lambda>v. satisfies v r) vs)" by (simp add: f)
  then show "b \<in> set vs" and "satisfies b r" by simp_all
  show "\<forall>v\<in>set vs. satisfies v r \<longrightarrow> version_key v \<le> version_key b"
  proof (intro ballI impI)
    fix v assume "v \<in> set vs" and "satisfies v r"
    then have "v \<in> set (pre @ b # post)" by (simp add: f [symmetric])
    then show "version_key v \<le> version_key b"
      using pre post by (auto simp: less_imp_le)
  qed
next
  show "findBestVersion [''1.0.0'', ''1.2.0'', ''1.1.5''] ''^1.0.0'' = Some ''1.2.0''"
    by code_simp
qed

theorem findBestVersion_highest_witness:
  "[] \<notin> set [''2.0.0'', ''1.4.0'', ''1.10.2''] \<and>
   exact_version ''2.0.0'' \<and> exact_version ''1.4.0'' \<and> exact_version ''1.10.2'' \<and>
   findBestVersion [''2.0.0'', ''1.4.0'', ''1.10.2''] ''~1.4.0'' = Some ''1.4.0'' \<and>
   findBestVersion [''2.0.0'', ''1.4.0'', ''1.10.2''] ''^1.0.0'' = Some ''1.10.2'' \<and>
   version_key ''1.4.0'' \<le> version_key ''1.10.2'' \<and>
   findBestVersion [''2.0.0'', ''1.4.0'', ''1.10.2''] ''^3.0.0'' = None \<and>
   \<not> satisfies ''2.0.0'' ''^3.0.0''"
proof -
  let ?vs = "[''2.0.0'', ''1.4.0'', ''1.10.2'']"
  have ne: "[] \<notin> set ?vs" by simp
  have e1: "exact_version ''2.0.0''" and e2: "exact_version ''1.4.0''"
    and e3: "exact_version ''1.10.2''" by code_simp+
  then have ex: "\<forall>v\<in>set ?vs. exact_version v" by simp
  have s1: "satisfies ''1.4.0'' ''^1.0.0''" by code_simp
  have b1: "findBestVersion ?vs ''^1.0.0'' = Some ''1.10.2''" by code_simp
  have b2: "findBestVersion ?vs ''~1.4.0'' = Some ''1.4.0''" by code_simp
  have b3: "findBestVersion ?vs ''^3.0.0'' = None" by code_simp
  from findBestVersion_highest [OF ne ex, of "''^1.0.0''"] b1 s1
  have k: "version_key ''1.4.0'' \<le> version_key ''1.10.2''" by simp
  from findBestVersion_highest [OF ne ex, of "''^3.0.0''"] b3
  have n: "\<not> satisfies ''2.0.0'' ''^3.0.0''" by simp
  from ne e1 e2 e3 b1 b2 b3 k n show ?thesis by blast
qed

lemma satisfies_star: "satisfies s ''*''" "satisfies s ''latest''"
  by (simp_all add: satisfies_def)

lemma satisfies_ge: "satisfies s (''>='' @ b) \<longleftrightarrow> version_key b \<le> version_key (strip_v s)"
  by (simp add: satisfies_def strip_v_def startsWith_def Let_def compareVersions_ge)

lemma satisfies_le: "satisfies s (''<='' @ b) \<longleftrightarrow> version_key (strip_v s) \<le> version_key b"
  by (simp add: satisfies_def strip_v_def startsWith_def Let_def compareVersions_le)

lemma satisfies_gt:
  "\<not> startsWith b ''='' \<Longrightarrow> satisfies s (''>'' @ b) \<longleftrightarrow> version_key b < version_key (strip_v s)"
  by (simp add: satisfies_def strip_v_def startsWith_def Let_def compareVersions_pos)

lemma satisfies_lt:
  "\<not> startsWith b ''='' \<Longrightarrow> satisfies s (''<'' @ b) \<longleftrightarrow> version_key (strip_v s) < version_key b"
  by (simp add: satisfies_def strip_v_def startsWith_def Let_def compareVersions_neg)

text \<open>
  Claim C4. \<open>satisfies\<close> is a total function which, on every version and range of the
  grammar, agrees with the meaning the specification gives: exact equality, \<open>*\<close> and
  \<open>latest\<close> always true, caret same major and at least the base, tilde same major and
  minor and at least the base, and the four comparison operators. On arbitrary strings the
  comparison operators compare the numeric keys, in which a non-numeric component counts
  as \<open>0\<close>. \<open>satisfies("4.17.21", "^4.17.0")\<close> holds and \<open>satisfies("5.0.0", "^4.17.0")\<close>
  does not.
\<close>

theorem satisfies_implements_grammar:
  assumes "version_ok v" and "range_ok r" and "exact_version (strip_v s)" and "exact_version b"
  shows "satisfies (show_version v) (show_range r) = satisfies_spec v r \<and>
         satisfies s ''*'' \<and> satisfies s ''latest'' \<and>
         (satisfies s (''>='' @ b) \<longleftrightarrow> version_key b \<le> version_key (strip_v s)) \<and>
         (\<not> startsWith b ''='' \<longrightarrow>
            (satisfies s (''>'' @ b) \<longleftrightarrow> version_key b < version_key (strip_v s))) \<and>
         (satisfies s (''<='' @ b) \<longleftrightarrow> version_key (strip_v s) \<le> version_key b) \<and>
         (\<not> startsWith b ''='' \<longrightarrow>
            (satisfies s (''<'' @ b) \<longleftrightarrow> version_key (strip_v s) < version_key b)) \<and>
         satisfies ''4.17.21'' ''^4.17.0'' \<and> \<not> satisfies ''5.0.0'' ''^4.17.0''"
proof (intro conjI impI)
  show "satisfies (show_version v) (show_range r) = satisfies_spec v r"
    by (rule satisfies_refines)
  show "satisfies s ''*''" and "satisfies s ''latest''"
    by (rule satisfies_star)+
  show "satisfies s (''>='' @ b) \<longleftrightarrow> version_key b \<le> version_key (strip_v s)"
    by (rule satisfies_ge)
  show "satisfies s (''<='' @ b) \<longleftrightarrow> version_key (strip_v s) \<le> version_key b"
    by (rule satisfies_le)
  show "satisfies ''4.17.21'' ''^4.17.0''" by code_simp
  show "\<not> satisfies ''5.0.0'' ''^4.17.0''" by code_simp
next
  assume "\<not> startsWith b ''=''"
  then show "satisfies s (''>'' @ b) \<longleftrightarrow> version_key b < version_key (strip_v s)"
    by (rule satisfies_gt)
next
  assume "\<not> startsWith b ''=''"
  then show "satisfies s (''<'' @ b) \<longleftrightarrow> version_key (strip_v s) < version_key b"
    by (rule satisfies_lt)
qed

theorem satisfies_implements_grammar_witness:
  "version_ok (4, 17, 21) \<and> range_ok (Tilde (4, 17, 0)) \<and>
   exact_version (strip_v ''v1.x.7'') \<and> exact_version ''1.0.7'' \<and>
   \<not> startsWith ''1.0.7'' ''='' \<and>
   satisfies (show_version (4, 17, 21)) (show_range (Tilde (4, 17, 0))) \<and>
   satisfies ''v1.x.7'' ''>=1.0.7'' \<and> \<not> satisfies ''v1.x.7'' ''>1.0.7'' \<and>
   satisfies ''v1.x.7'' ''<=1.0.7'' \<and> \<not> satisfies ''v1.x.7'' ''<1.0.7''"
proof -
  have h1: "version_ok (4, 17, 21)" by (simp add: version_ok_def)
  have h2: "range_ok (Tilde (4, 17, 0))" by (simp add: version_ok_def)
  have h3: "exact_version (strip_v ''v1.x.7'')" by code_simp
  have h4: "exact_version ''1.0.7''" by code_simp
  have h5: "\<not> startsWith ''1.0.7'' ''=''" by code_simp
  have sp: "satisfies_spec (4, 17, 21) (Tilde (4, 17, 0))" by (simp add: less_eq_prod_def)
  have k: "version_key (strip_v ''v1.x.7'') = version_key ''1.0.7''" by code_simp
  note inst = satisfies_implements_grammar [OF h1 h2 h3 h4]
  from inst sp have c1: "satisfies (show_version (4, 17, 21)) (show_range (Tilde (4, 17, 0)))"
    by blast
  from inst have "satisfies ''v1.x.7'' (''>='' @ ''1.0.7'') \<longleftrightarrow>
      version_key ''1.0.7'' \<le> version_key (strip_v ''v1.x.7'')" by blast
  then have c2: "satisfies ''v1.x.7'' ''>=1.0.7''" by (simp add: k)
  from inst h5 have "satisfies ''v1.x.7'' (''>'' @ ''1.0.7'') \<longleftrightarrow>
      version_key ''1.0.7'' < version_key (strip_v ''v1.x.7'')" by blast
  then have c3: "\<not> satisfies ''v1.x.7'' ''>1.0.7''" by (simp add: k)
  from inst have "satisfies ''v1.x.7'' (''<='' @ ''1.0.7'') \<longleftrightarrow>
      version_key (strip_v ''v1.x.7'') \<le> version_key ''1.0.7''" by blast
  then have c4: "satisfies ''v1.x.7'' ''<=1.0.7''" by (simp add: k)
  from inst h5 have "satisfies ''v1.x.7'' (''<'' @ ''1.0.7'') \<longleftrightarrow>
      version_key (strip_v ''v1.x.7'') < version_key ''1.0.7''" by blast
  then have c5: "\<not> satisfies ''v1.x.7'' ''<1.0.7''" by (simp add: k)
  from h1 h2 h3 h4 h5 c1 c2 c3 c4 c5 show ?thesis by blast
qed

text \<open>
  Claim C10. \<open>compareVersions\<close> looks at the first three dot-separated components only,
  each read as an integer with a missing or non-numeric component counting as \<open>0\<close>: it
  returns the double nearest to the first difference that is not \<open>0\<close> (the difference
  itself up to \<open>2^53\<close>), so its sign is the order of the numeric keys; strings that agree
  on the three components compare as equal, as \<open>1.2.3\<close>, \<open>1.2.3-beta\<close> and \<open>1.2.3.9\<close>
  do. \<open>findBestVersion\<close> returns, among the matching candidates of highest key, the one
  that comes first in the list, which may be a pre-release string.
\<close>

theorem compareVersions_first_three:
  assumes "exact_version a" and "exact_version b" and "\<forall>v\<in>set vs. exact_version v"
  shows "compareVersions a b =
           (if component a 0 \<noteq> component b 0
              then nearest_double (component a 0 - component b 0)
            else if component a 1 \<noteq> component b 1
              then nearest_double (component a 1 - component b 1)
            else nearest_double (component a 2 - component b 2)) \<and>
         (compareVersions a b < 0 \<longleftrightarrow> version_key a < version_key b) \<and>
         (compareVersions a b > 0 \<longleftrightarrow> version_key b < version_key a) \<and>
         (version_key a = version_key b \<longrightarrow> compareVersions a b = 0) \<and>
         (take 3 (js_split CHR ''.'' a) = take 3 (js_split CHR ''.'' b) \<longrightarrow>
            compareVersions a b = 0) \<and>
         compareVersions ''1.2.3'' ''1.2.3-beta'' = 0 \<and>
         compareVersions ''1.2.3-beta'' ''1.2.3.9'' = 0 \<and>
         compareVersions ''1.2.3'' ''1.2.3.9'' = 0 \<and>
         (\<forall>m. findBestVersion vs r = Some m \<longrightarrow>
            (\<exists>pre post. filter (\<lambda>v. satisfies v r) vs = pre @ m # post \<and>
               (\<forall>v\<in>set pre. version_key v < version_key m) \<and>
               (\<forall>v\<in>set post. version_key v \<le> version_key m))) \<and>
         findBestVersion [''1.2.3-beta'', ''1.2.3'', ''1.2.3.9''] ''^1.2.0'' = Some ''1.2.3-beta''"
proof (intro conjI allI impI)
  show "compareVersions a b =
           (if component a 0 \<noteq> component b 0
              then nearest_double (component a 0 - component b 0)
            else if component a 1 \<noteq> component b 1
              then nearest_double (component a 1 - component b 1)
            else nearest_double (component a 2 - component b 2))"
    by (rule compareVersions_components)
  show "compareVersions a b < 0 \<longleftrightarrow> version_key a < version_key b"
    by (rule compareVersions_neg)
  show "compareVersions a b > 0 \<longleftrightarrow> version_key b < version_key a"
    by (rule compareVersions_pos)
  show "compareVersions ''1.2.3'' ''1.2.3-beta'' = 0" by code_simp
  show "compareVersions ''1.2.3-beta'' ''1.2.3.9'' = 0" by code_simp
  show "compareVersions ''1.2.3'' ''1.2.3.9'' = 0" by code_simp
  show "findBestVersion [''1.2.3-beta'', ''1.2.3'', ''1.2.3.9''] ''^1.2.0'' = Some ''1.2.3-beta''"
    by code_simp
next
  assume "version_key a = version_key b"
  then show "compareVersions a b = 0" by (simp only: compareVersions_zero)
next
  assume "take 3 (js_split CHR ''.'' a) = take 3 (js_split CHR ''.'' b)"
  then have "version_key a = version_key b" by (rule version_key_take)
  then show "compareVersions a b = 0" by (simp only: compareVersions_zero)
next
  fix m assume "findBestVersion vs r = Some m"
  then show "\<exists>pre post. filter (\<lambda>v. satisfies v r) vs = pre @ m # post \<and>
               (\<forall>v\<in>set pre. version_key v < version_key m) \<and>
               (\<forall>v\<in>set post. version_key v \<le> version_key m)"
    by (rule findBestVersion_Some)
qed

theorem compareVersions_first_three_witness:
  "exact_version ''2.0.1.7'' \<and> exact_version ''2.0.1-rc.1'' \<and>
   exact_version ''1.9.9'' \<and>
   take 3 (js_split CHR ''.'' ''2.0.1.7'') \<noteq> take 3 (js_split CHR ''.'' ''2.0.1-rc.1'') \<and>
   version_key ''2.0.1.7'' = version_key ''2.0.1-rc.1'' \<and>
   compareVersions ''2.0.1.7'' ''2.0.1-rc.1'' = 0 \<and>
   compareVersions ''1.9.9'' ''2.0.1.7'' = - 1 \<and>
   version_key ''1.9.9'' < version_key ''2.0.1.7'' \<and>
   findBestVersion [''1.9.9'', ''2.0.1-rc.1'', ''2.0.1.7''] ''>=1.0.0'' = Some ''2.0.1-rc.1'' \<and>
   (\<exists>pre post. filter (\<lambda>v. satisfies v ''>=1.0.0'') [''1.9.9'', ''2.0.1-rc.1'', ''2.0.1.7'']
        = pre @ ''2.0.1-rc.1'' # post) \<and>
   exact_version ''9007199254740991'' \<and> exact_version ''-9007199254740990'' \<and>
   compareVersions ''9007199254740991'' ''-9007199254740990'' = 18014398509481980"
proof -
  let ?vs = "[''1.9.9'', ''2.0.1-rc.1'', ''2.0.1.7'']"
  have e1: "exact_version ''2.0.1.7''" and e2: "exact_version ''2.0.1-rc.1''"
    and e3: "exact_version ''1.9.9''" by code_simp+
  then have ex: "\<forall>v\<in>set ?vs. exact_version v" by simp
  have t: "take 3 (js_split CHR ''.'' ''2.0.1.7'') \<noteq> take 3 (js_split CHR ''.'' ''2.0.1-rc.1'')"
    by code_simp
  have k: "version_key ''2.0.1.7'' = version_key ''2.0.1-rc.1''" by code_simp
  have f: "findBestVersion ?vs ''>=1.0.0'' = Some ''2.0.1-rc.1''" by code_simp
  note inst = compareVersions_first_three [OF e1 e2 ex, of "''>=1.0.0''"]
  from inst k have c: "compareVersions ''2.0.1.7'' ''2.0.1-rc.1'' = 0" by blast
  from inst f have p: "\<exists>pre post. filter (\<lambda>v. satisfies v ''>=1.0.0'') ?vs = pre @ ''2.0.1-rc.1'' # post"
    by blast
  have d: "compareVersions ''1.9.9'' ''2.0.1.7'' = - 1" by code_simp
  note inst2 = compareVersions_first_three [OF e3 e1 ex, of "''>=1.0.0''"]
  from inst2 d have l: "version_key ''1.9.9'' < version_key ''2.0.1.7''" by simp
  have b1: "exact_version ''9007199254740991''" and b2: "exact_version ''-9007199254740990''"
    by code_simp+
  have c1: "component ''9007199254740991'' 0 = 9007199254740991"
    and c2: "component ''-9007199254740990'' 0 = - 9007199254740990" by code_simp+
  note inst3 = compareVersions_first_three [OF b1 b2 ex, of "''>=1.0.0''"]
  have r: "compareVersions ''9007199254740991'' ''-9007199254740990'' = 18014398509481980"
    using inst3 by (simp add: c1 c2 nearest_double_def)
  from e1 e2 e3 t k c d l f p b1 b2 r show ?thesis by blast
qed


section \<open>Properties of the dependency graph resolver\<close>

subsection \<open>Resolving the chain\<close>

lemma pending_nest:
  "pending_task e (nest d (Suc j) (Fetching n r)) = [(replicate (Suc j) 0, d + j, n, r)]"
  by (induction j arbitrary: d e) simp_all

lemma put_nest: "put_task (replicate j 0) new (nest d j t) = nest d j new"
  by (induction j arbitrary: d) simp_all

lemma next_batch_Nil: "next_batch bs res d [] = None"
  by (simp add: next_batch.simps)

lemma nest_Done: "nest d j t = Done \<longleftrightarrow> j = 0 \<and> t = Done"
  by (cases j) auto

lemma settle_nest:
  "settle_task bs res (nest d j t) =
     (if settle_task bs res t = Done then Done else nest d j (settle_task bs res t))"
  by (induction j arbitrary: d) (auto simp: all_done_def next_batch_Nil nest_Done)

lemma nest_nest: "e = d + j \<Longrightarrow> nest d j (nest e i t) = nest d (j + i) t"
  by (induction j arbitrary: d) simp_all

lemma chain_name_inj: "chain_name i = chain_name j \<longleftrightarrow> i = j"
  by (metis chain_name_def length_replicate)

lemma chain_name_Suc: "chain_name k @ ''x'' = chain_name (Suc k)"
  by (simp add: chain_name_def replicate_append_same)

lemma map_has_chain: "map_has (chain_resolved k) (chain_name m) \<longleftrightarrow> 1 \<le> m \<and> m \<le> k"
  by (auto simp: map_has_def chain_resolved_def chain_name_inj image_iff Bex_def intro: exI [of _ "m - 1"])

lemma map_set_fresh: "\<not> map_has m k \<Longrightarrow> map_set m k v = m @ [(k, v)]"
  by (induction m) (auto simp: map_has_def)

lemma chain_resolved_Suc:
  "chain_resolved (Suc k) = chain_resolved k @ [(chain_name (Suc k), chain_pkg (Suc k))]"
  by (simp add: chain_resolved_def)

lemma findBest_star: "findBestVersion [''1.0.0''] ''*'' = Some ''1.0.0''"
  by code_simp

lemma chain_pkg_deps: "rp_dependencies (chain_pkg k) = [(chain_name (Suc k), ''*'')]"
  by (simp add: chain_pkg_def make_package_def chain_data_def chain_name_Suc)

lemma batchSize_1: "batchSize (Suc 0) = 4" "batchSize 1 = 4"
  by (simp_all add: batchSize_def)

lemma call_chain:
  assumes "k < 50"
  shows "call_resolveDependencies (Suc 0) (rp_dependencies (chain_pkg (Suc k))) (chain_resolved (Suc k)) (Suc k)
         = Inr (Some (Frame (Suc k) [Fetching (chain_name (Suc (Suc k))) ''*''] []))"
proof -
  have nh: "\<not> map_has (chain_resolved (Suc k)) (chain_name (Suc (Suc k)))"
    by (simp add: map_has_chain)
  have "next_batch 4 (chain_resolved (Suc k)) (Suc k) [(chain_name (Suc (Suc k)), ''*'')]
        = Some (Frame (Suc k) [Fetching (chain_name (Suc (Suc k))) ''*''] [])"
    by (subst next_batch.simps) (simp add: start_task_def nh all_done_def)
  then show ?thesis
    using assms by (simp add: call_resolveDependencies_def chain_pkg_deps nh batchSize_1)
qed

lemma call_chain_50:
  "call_resolveDependencies (Suc 0) (rp_dependencies (chain_pkg 51)) (chain_resolved 51) 51
     = Inl DepthExceeded"
  by (simp add: call_resolveDependencies_def)

lemma on_metadata_chain_set:
  "on_metadata (Suc 0) (chain_resolved k) k (chain_name (Suc k)) ''*'' (chain_registry (chain_name (Suc k))) =
     (case call_resolveDependencies (Suc 0) (rp_dependencies (chain_pkg (Suc k)))
             (chain_resolved (Suc k)) (Suc k) of
        Inl e \<Rightarrow> (chain_resolved (Suc k), [FailedToResolve (chain_name (Suc k)) e], Done)
      | Inr None \<Rightarrow> (chain_resolved (Suc k), [], Done)
      | Inr (Some f) \<Rightarrow> (chain_resolved (Suc k), [], Awaiting f))"
proof -
  have nh: "\<not> map_has (chain_resolved k) (chain_name (Suc k))"
    by (simp add: map_has_chain)
  have set: "map_set (chain_resolved k) (chain_name (Suc k)) (chain_pkg (Suc k)) = chain_resolved (Suc k)"
    by (simp add: map_set_fresh [OF nh] chain_resolved_Suc)
  have pk: "make_package (chain_name (Suc k)) ''1.0.0'' (chain_data (chain_name (Suc k))) = chain_pkg (Suc k)"
    by (simp add: chain_pkg_def)
  show ?thesis
    by (simp add: on_metadata_def chain_registry_def findBest_star pk set Let_def chain_pkg_deps
        split: sum.split option.split)
qed

lemma deliver_chain:
  assumes "k < 50"
  shows "deliver (Suc 0) chain_registry 0 (chain_state k) = chain_state (Suc k)"
proof -
  have om: "on_metadata (Suc 0) (chain_resolved k) k (chain_name (Suc k)) ''*'' (chain_registry (chain_name (Suc k)))
      = (chain_resolved (Suc k), [], nest (Suc k) (Suc 0) (Fetching (chain_name (Suc (Suc k))) ''*''))"
    by (simp add: on_metadata_chain_set call_chain [OF assms])
  let ?leaf = "Fetching (chain_name (Suc (Suc k))) ''*''"
  have put: "put_task (replicate (Suc k) 0) (nest (Suc k) (Suc 0) ?leaf)
           (nest 0 (Suc k) (Fetching (chain_name (Suc k)) ''*''))
         = nest 0 (Suc k) (nest (Suc k) (Suc 0) ?leaf)"
    by (rule put_nest)
  have join: "nest 0 (Suc k) (nest (Suc k) (Suc 0) ?leaf) = nest 0 (Suc (Suc k)) ?leaf"
    using nest_nest [of "Suc k" 0 "Suc k" "Suc 0" ?leaf] by (simp del: nest.simps)
  have settle: "settle_task (batchSize (Suc 0)) (chain_resolved (Suc k)) (nest 0 (Suc (Suc k)) ?leaf)
         = nest 0 (Suc (Suc k)) ?leaf"
    by (subst settle_nest) simp
  have tree: "settle_task (batchSize (Suc 0)) (chain_resolved (Suc k))
        (put_task (replicate (Suc k) 0) (nest (Suc k) (Suc 0) ?leaf)
           (nest 0 (Suc k) (Fetching (chain_name (Suc k)) ''*'')))
      = nest 0 (Suc (Suc k)) ?leaf"
    by (simp only: put join settle)
  show ?thesis
    unfolding deliver_def chain_state_def
    by (simp only: rstate.simps pending_nest Let_def) (simp add: om tree del: nest.simps replicate.simps)
qed

lemma deliver_chain_last:
  assumes "k = 50"
  shows "deliver (Suc 0) chain_registry 0 (chain_state k) =
     \<lparr> st_resolved = chain_resolved (Suc k),
       st_warnings = [FailedToResolve (chain_name (Suc k)) DepthExceeded],
       st_answered = map (\<lambda>d. (d, chain_name (Suc d))) [0..<Suc k],
       st_root = Done \<rparr>"
proof -
  have call: "call_resolveDependencies (Suc 0) (rp_dependencies (chain_pkg (Suc k)))
      (chain_resolved (Suc k)) (Suc k) = Inl DepthExceeded"
    using assms by (simp add: call_resolveDependencies_def)
  have om: "on_metadata (Suc 0) (chain_resolved k) k (chain_name (Suc k)) ''*''
        (chain_registry (chain_name (Suc k)))
      = (chain_resolved (Suc k), [FailedToResolve (chain_name (Suc k)) DepthExceeded], Done)"
    by (simp only: on_metadata_chain_set call) simp
  have put: "put_task (replicate (Suc k) 0) Done (nest 0 (Suc k) (Fetching (chain_name (Suc k)) ''*''))
      = nest 0 (Suc k) Done"
    by (rule put_nest)
  have settle: "settle_task (batchSize (Suc 0)) (chain_resolved (Suc k)) (nest 0 (Suc k) Done) = Done"
    by (subst settle_nest) simp
  show ?thesis
    unfolding deliver_def chain_state_def
    by (simp only: rstate.simps pending_nest Let_def)
       (simp add: om put settle del: nest.simps replicate.simps)
qed

lemma run_chain:
  "k \<le> 50 \<Longrightarrow> run_schedule (Suc 0) chain_registry (replicate k 0) (chain_state 0) = chain_state k"
proof (induction k)
  case 0
  then show ?case by (simp add: run_schedule_def)
next
  case (Suc k)
  then have "run_schedule (Suc 0) chain_registry (replicate k 0) (chain_state 0) = chain_state k"
    by simp
  moreover have "replicate (Suc k) (0::nat) = replicate k 0 @ [0]"
    by (simp add: replicate_append_same)
  ultimately show ?case
    using Suc.prems by (simp add: run_schedule_def deliver_chain del: replicate.simps)
qed

lemma resolve_chain:
  assumes "k = 50"
  shows "resolveDependencies (Suc 0) chain_registry (replicate (Suc k) 0) [(''x'', ''*'')] [] 0 =
     Returns \<lparr> st_resolved = chain_resolved (Suc k),
       st_warnings = [FailedToResolve (chain_name (Suc k)) DepthExceeded],
       st_answered = map (\<lambda>d. (d, chain_name (Suc d))) [0..<Suc k],
       st_root = Done \<rparr>"
proof -
  have nb: "next_batch 4 [] 0 [(''x'', ''*'')] = Some (Frame 0 [Fetching ''x'' ''*''] [])"
    by (subst next_batch.simps) (simp add: start_task_def map_has_def all_done_def)
  have call: "call_resolveDependencies (Suc 0) [(''x'', ''*'')] [] 0
      = Inr (Some (Frame 0 [Fetching ''x'' ''*''] []))"
    by (simp add: call_resolveDependencies_def map_has_def batchSize_1 nb)
  have start: "start_state [] (Some (Frame 0 [Fetching ''x'' ''*''] [])) = chain_state 0"
    by (simp add: start_state_def chain_state_def chain_resolved_def chain_name_def)
  have split: "replicate (Suc k) (0::nat) = replicate k 0 @ [0]"
    by (simp add: replicate_append_same)
  have rc: "run_schedule (Suc 0) chain_registry (replicate k 0) (chain_state 0) = chain_state k"
    by (rule run_chain) (simp add: assms)
  have "run_schedule (Suc 0) chain_registry (replicate (Suc k) 0) (chain_state 0)
      = deliver (Suc 0) chain_registry 0
          (run_schedule (Suc 0) chain_registry (replicate k 0) (chain_state 0))"
    by (simp only: split run_schedule_def foldl_append foldl.simps)
  then have "run_schedule (Suc 0) chain_registry (replicate (Suc k) 0) (chain_state 0)
      = deliver (Suc 0) chain_registry 0 (chain_state k)"
    by (simp only: rc)
  then show ?thesis
    by (simp only: resolveDependencies_def call sum.case start Let_def deliver_chain_last [OF assms])
       simp
qed

lemma resolve_chain_env:
  "resolveDependencies 1 chain_registry (replicate 51 0) [(''x'', ''*'')] [] 0 =
     Returns \<lparr> st_resolved = chain_resolved 51,
       st_warnings = [FailedToResolve (chain_name 51) DepthExceeded],
       st_answered = map (\<lambda>d. (d, chain_name (Suc d))) [0..<51],
       st_root = Done \<rparr>"
  using resolve_chain [of 50] by simp


subsection \<open>Two requests for one name\<close>

text \<open>
  Claim C2 (one entry per package name, never replaced). The map holds one entry per name,
  but an entry can be replaced: \<open>a\<close> and \<open>b\<close> are in one batch, and when both answers
  arrive before the answer for \<open>c\<close>, each callback has asked for \<open>c\<close> while \<open>c\<close> was not
  in the map. \<open>c\<close> is requested twice; the first answer sets \<open>c@1.0.0\<close> (the range of
  \<open>a\<close>), the second replaces it by \<open>c@2.0.0\<close> (the range of \<open>b\<close>).
\<close>

theorem in_flight_request_replaces_entry:
  "map (\<lambda>(n, p). (n, rp_version p))
       (st_resolved (run_schedule 1 race_registry [0, 1, 0]
          (start_state [] (Some (Frame 0 [Fetching ''a'' ''*'', Fetching ''b'' ''*''] [])))))
     = [(''a'', ''1.0.0''), (''b'', ''1.0.0''), (''c'', ''1.0.0'')] \<and>
   call_resolveDependencies 1 [(''a'', ''*''), (''b'', ''*'')] [] 0
     = Inr (Some (Frame 0 [Fetching ''a'' ''*'', Fetching ''b'' ''*''] [])) \<and>
   (case resolveDependencies 1 race_registry [0, 1, 0, 0] [(''a'', ''*''), (''b'', ''*'')] [] 0 of
      Returns st \<Rightarrow>
        Some (map (\<lambda>(n, p). (n, rp_version p)) (st_resolved st), st_warnings st, st_answered st)
    | _ \<Rightarrow> None)
     = Some ([(''a'', ''1.0.0''), (''b'', ''1.0.0''), (''c'', ''2.0.0'')], [],
             [(0, ''a''), (0, ''b''), (1, ''c''), (1, ''c'')])"
proof (intro conjI)
  show "map (\<lambda>(n, p). (n, rp_version p))
       (st_resolved (run_schedule 1 race_registry [0, 1, 0]
          (start_state [] (Some (Frame 0 [Fetching ''a'' ''*'', Fetching ''b'' ''*''] [])))))
     = [(''a'', ''1.0.0''), (''b'', ''1.0.0''), (''c'', ''1.0.0'')]"
    by code_simp
  show "call_resolveDependencies 1 [(''a'', ''*''), (''b'', ''*'')] [] 0
     = Inr (Some (Frame 0 [Fetching ''a'' ''*'', Fetching ''b'' ''*''] []))"
    by code_simp
  show "(case resolveDependencies 1 race_registry [0, 1, 0, 0] [(''a'', ''*''), (''b'', ''*'')] [] 0 of
      Returns st \<Rightarrow>
        Some (map (\<lambda>(n, p). (n, rp_version p)) (st_resolved st), st_warnings st, st_answered st)
    | _ \<Rightarrow> None)
     = Some ([(''a'', ''1.0.0''), (''b'', ''1.0.0''), (''c'', ''2.0.0'')], [],
             [(0, ''a''), (0, ''b''), (1, ''c''), (1, ''c'')])"
    by code_simp
qed

section \<open>Properties of install\<close>

subsection \<open>When install returns\<close>

lemma createVirtualStore_total:
  assumes "\<And>p. \<not> link_throws e p"
  shows "\<exists>ls ws. createVirtualStore e idx paths res = Some (ls, ws)"
proof (induction res)
  case Nil
  then show ?case by simp
next
  case (Cons entry res)
  obtain name pkg where entry: "entry = (name, pkg)" by (cases entry) auto
  from Cons obtain ls ws where "createVirtualStore e idx paths res = Some (ls, ws)" by blast
  then show ?case
    by (simp add: entry assms split: option.split)
qed

lemma install_Returns:
  assumes pj: "package_json e = Parsed pj"
    and rp: "resolve_phase e pj = Returns (res, reqs, ws)"
    and lim: "0 < parallelLimit e"
    and nl: "\<And>p. \<not> link_throws e p"
  shows "\<exists>out. install e = Returns out \<and> out_resolved out = res \<and> out_requests out = reqs \<and>
           out_lockfile out = make_lockfile res \<and> Resolving ` set ws \<subseteq> set (out_warnings out)"
proof -
  obtain cachedCount st where
    fp: "fetch_phase e (loadStoreIndex (index_file e)) res = Some (cachedCount, st)"
    using lim by (auto simp: fetch_phase_def Let_def)
  obtain ls nis where cv: "createVirtualStore e (fs_index st) (fs_paths st) res = Some (ls, nis)"
    using createVirtualStore_total [OF nl] by blast
  show ?thesis
    by (simp add: install_def pj rp fp cv Let_def)
qed


subsection \<open>The depth limit\<close>

lemma resolve_phase_chain:
  "resolve_phase chain_env \<lparr> pj_dependencies = Some [(''x'', ''*'')], pj_devDependencies = None \<rparr> =
     Returns (chain_resolved 51, map (\<lambda>d. (d, chain_name (Suc d))) [0..<51],
              [FailedToResolve (chain_name 51) DepthExceeded])"
proof -
  have deps: "allDeps chain_env \<lparr> pj_dependencies = Some [(''x'', ''*'')], pj_devDependencies = None \<rparr>
      = [(''x'', ''*'')]"
    by (simp add: allDeps_def object_assign_def chain_env_def)
  have fields: "NUM_CPUS chain_env = 1" "registry chain_env = chain_registry"
    "schedule chain_env = replicate 51 0" "lock_file chain_env = Missing"
    by (simp_all add: chain_env_def)
  show ?thesis
    by (simp only: resolve_phase_def network_resolution_def fields loadLockfile_def json_file.case
          deps option.case resolve_chain_env run.case rstate.simps)
qed

text \<open>
  Claim C1 (depth limit). On a dependency chain longer than the limit, the call at depth 51
  throws before it asks the registry, but the callback at depth 50 that awaits it catches
  the error and logs it as a warning for its own package. \<open>install\<close> returns: the registry
  was asked at depths 0 to 50 only, the 51 packages resolved are kept, and the lockfile is
  written from them.
\<close>

theorem depth_limit_is_caught:
  "\<exists>out. install chain_env = Returns out \<and>
     out_requests out = map (\<lambda>d. (d, chain_name (Suc d))) [0..<51] \<and>
     Resolving (FailedToResolve (chain_name 51) DepthExceeded) \<in> set (out_warnings out) \<and>
     out_resolved out = chain_resolved 51 \<and>
     out_lockfile out = make_lockfile (chain_resolved 51)"
proof -
  have pj: "package_json chain_env =
      Parsed \<lparr> pj_dependencies = Some [(''x'', ''*'')], pj_devDependencies = None \<rparr>"
    by (simp add: chain_env_def)
  have lim: "0 < parallelLimit chain_env"
    by (simp add: parallelLimit_def chain_env_def)
  have nl: "\<And>p. \<not> link_throws chain_env p"
    by (simp add: chain_env_def)
  from install_Returns [OF pj resolve_phase_chain lim nl] show ?thesis
    by auto
qed

subsection \<open>The fetch phase\<close>

lemma in_store_iff:
  "in_store idx paths (rp_name pkg) (rp_version pkg) \<longleftrightarrow> entry_with_directory idx paths pkg"
  by (auto simp: in_store_def entry_with_directory_def split: option.splits)

lemma download_loop_foldl:
  "0 < limit \<Longrightarrow> download_loop e limit rest st = foldl (download_one e) st rest"
proof (induction e limit rest st rule: download_loop.induct)
  case (1 e limit rest st)
  show ?case
  proof (cases "rest = []")
    case True
    then show ?thesis by (simp add: download_loop.simps)
  next
    case False
    with 1 have "download_loop e limit (drop limit rest) (foldl (download_one e) st (take limit rest))
        = foldl (download_one e) (foldl (download_one e) st (take limit rest)) (drop limit rest)"
      by simp
    also have "\<dots> = foldl (download_one e) st (take limit rest @ drop limit rest)"
      by (simp only: foldl_append)
    finally show ?thesis
      using False 1(2) by (subst download_loop.simps) simp
  qed
qed

lemma attempts_download_one:
  "fs_attempts (download_one e st pkg) = fs_attempts st @ [rp_tarballUrl pkg]"
  by (simp add: download_one_def Let_def split: download_result.split)

lemma attempts_foldl:
  "fs_attempts (foldl (download_one e) st pkgs) = fs_attempts st @ map rp_tarballUrl pkgs"
  by (induction pkgs arbitrary: st) (simp_all add: attempts_download_one)

lemma map_of_map_set: "map_of (map_set m k v) = (map_of m)(k \<mapsto> v)"
  by (induction m) (auto simp: fun_eq_iff)

lemma index_lookup_store:
  "index_lookup (index_store idx n v entry) n' v' =
     (if n' = n \<and> v' = v then Some entry else index_lookup idx n' v')"
  by (auto simp: index_lookup_def index_store_def Let_def map_of_map_set split: option.splits)

lemma stored_in_store: "stored e st n v \<Longrightarrow> in_store (fs_index st) (fs_paths st) n v"
  by (auto simp: stored_def in_store_def existsSync_def getPackageDir_def)

lemma download_one_keeps: "stored e st n v \<Longrightarrow> stored e (download_one e st pkg) n v"
  by (auto simp: stored_def download_one_def Let_def index_lookup_store split: download_result.split)

lemma download_one_stores:
  "tarball e (rp_tarballUrl pkg) = Extracted a b \<Longrightarrow>
     stored e (download_one e st pkg) (rp_name pkg) (rp_version pkg)"
  by (simp add: stored_def download_one_def Let_def index_lookup_store)

lemma foldl_keeps: "stored e st n v \<Longrightarrow> stored e (foldl (download_one e) st pkgs) n v"
  by (induction pkgs arbitrary: st) (simp_all add: download_one_keeps)

lemma foldl_stores:
  assumes "pkg \<in> set pkgs" and "tarball e (rp_tarballUrl pkg) = Extracted a b"
  shows "stored e (foldl (download_one e) st pkgs) (rp_name pkg) (rp_version pkg)"
  using assms(1)
proof (induction pkgs arbitrary: st)
  case Nil
  then show ?case by simp
next
  case (Cons x xs)
  show ?case
  proof (cases "x = pkg")
    case True
    then show ?thesis
      by (simp add: foldl_keeps download_one_stores [OF assms(2)])
  next
    case False
    with Cons show ?thesis by simp
  qed
qed

lemma fetch_phase_Some:
  assumes "0 < parallelLimit e"
  shows "fetch_phase e idx res =
     Some (length (filter (\<lambda>pkg. in_store idx (existing e) (rp_name pkg) (rp_version pkg)) (map snd res)),
           foldl (download_one e)
             \<lparr> fs_index = idx, fs_paths = existing e, fs_downloadCount = 0,
               fs_attempts = [], fs_failed = [] \<rparr>
             (filter (\<lambda>pkg. \<not> in_store idx (existing e) (rp_name pkg) (rp_version pkg)) (map snd res)))"
proof -
  from assms have "0 < nat (parallelLimit e)" by simp
  then show ?thesis
    using assms by (simp add: fetch_phase_def Let_def download_loop_foldl)
qed

text \<open>
  Claim C5 (cache hit). For resolved packages whose names are not names of properties of
  \<open>Object.prototype\<close> and whose versions are not \<open>__proto__\<close>: in the fetch phase a
  resolved package is counted as cached exactly when the index has an entry for its name
  and version that names an extracted path which exists; every other package, one whose
  recorded directory is gone included, is downloaded again, and when that download and
  extraction succeed the package is in the store afterwards. Nothing of this makes
  \<open>install\<close> throw: with a manifest that parses, a resolution that returns, a positive
  parallel limit and no error while linking, \<open>install\<close> returns.
\<close>

theorem cached_iff_entry_and_directory:
  assumes pj: "package_json e = Parsed pj"
    and rp: "resolve_phase e pj = Returns (res, reqs, ws)"
    and names: "plain_names res"
    and lim: "0 < parallelLimit e"
    and nl: "\<forall>p. \<not> link_throws e p"
  shows "\<exists>out. install e = Returns out \<and>
     out_cachedCount out =
       length (filter (entry_with_directory (loadStoreIndex (index_file e)) (existing e)) (map snd res)) \<and>
     out_attempts out =
       map rp_tarballUrl
         (filter (\<lambda>pkg. \<not> entry_with_directory (loadStoreIndex (index_file e)) (existing e) pkg)
            (map snd res)) \<and>
     (\<forall>pkg\<in>set (map snd res).
        \<not> entry_with_directory (loadStoreIndex (index_file e)) (existing e) pkg \<and>
        (\<exists>a b. tarball e (rp_tarballUrl pkg) = Extracted a b) \<longrightarrow>
        in_store (out_index out) (out_paths out) (rp_name pkg) (rp_version pkg))"
proof -
  let ?idx = "loadStoreIndex (index_file e)"
  let ?st0 = "\<lparr> fs_index = ?idx, fs_paths = existing e, fs_downloadCount = 0,
                 fs_attempts = [], fs_failed = [] \<rparr>"
  let ?miss = "filter (\<lambda>pkg. \<not> entry_with_directory ?idx (existing e) pkg) (map snd res)"
  let ?st = "foldl (download_one e) ?st0 ?miss"
  have fp: "fetch_phase e ?idx res =
      Some (length (filter (entry_with_directory ?idx (existing e)) (map snd res)), ?st)"
    by (simp add: fetch_phase_Some [OF lim] in_store_iff)
  from nl have nl': "\<And>p. \<not> link_throws e p" by simp
  obtain ls nis where cv: "createVirtualStore e (fs_index ?st) (fs_paths ?st) res = Some (ls, nis)"
    using createVirtualStore_total [OF nl'] by blast
  let ?out = "\<lparr> out_resolved = res, out_requests = reqs,
      out_cachedCount = length (filter (entry_with_directory ?idx (existing e)) (map snd res)),
      out_downloadCount = fs_downloadCount ?st, out_attempts = fs_attempts ?st,
      out_index = fs_index ?st, out_paths = fs_paths ?st, out_linked = ls,
      out_lockfile = make_lockfile res,
      out_warnings = map Resolving ws @ fs_failed ?st @ nis \<rparr>"
  have inst: "install e = Returns ?out"
    by (simp add: install_def pj rp fp cv Let_def)
  have att: "out_attempts ?out = map rp_tarballUrl ?miss"
    by (simp add: attempts_foldl)
  have again: "\<forall>pkg\<in>set (map snd res).
        \<not> entry_with_directory ?idx (existing e) pkg \<and>
        (\<exists>a b. tarball e (rp_tarballUrl pkg) = Extracted a b) \<longrightarrow>
        in_store (out_index ?out) (out_paths ?out) (rp_name pkg) (rp_version pkg)"
  proof (intro ballI impI)
    fix pkg
    assume mem: "pkg \<in> set (map snd res)"
      and h: "\<not> entry_with_directory ?idx (existing e) pkg \<and>
              (\<exists>a b. tarball e (rp_tarballUrl pkg) = Extracted a b)"
    then obtain a b where ex: "tarball e (rp_tarballUrl pkg) = Extracted a b" by blast
    from mem h have "pkg \<in> set ?miss" by simp
    then have "stored e ?st (rp_name pkg) (rp_version pkg)"
      using ex by (rule foldl_stores)
    then show "in_store (out_index ?out) (out_paths ?out) (rp_name pkg) (rp_version pkg)"
      by (simp add: stored_in_store)
  qed
  from inst att again show ?thesis
    by (intro exI [of _ ?out]) simp
qed

theorem cached_iff_entry_and_directory_witness:
  "package_json stale_env =
     Parsed \<lparr> pj_dependencies = Some [(''a'', ''^1.0.0'')], pj_devDependencies = None \<rparr> \<and>
   resolve_phase stale_env \<lparr> pj_dependencies = Some [(''a'', ''^1.0.0'')], pj_devDependencies = None \<rparr>
     = Returns ([(''a'', stale_pkg)], [(0, ''a'')], []) \<and>
   plain_names [(''a'', stale_pkg)] \<and>
   0 < parallelLimit stale_env \<and>
   index_lookup (loadStoreIndex (index_file stale_env)) ''a'' ''1.0.0'' \<noteq> None \<and>
   \<not> entry_with_directory (loadStoreIndex (index_file stale_env)) (existing stale_env) stale_pkg \<and>
   (\<exists>out. install stale_env = Returns out \<and> out_cachedCount out = 0 \<and>
      out_attempts out = [''https://registry.npmjs.org/a/-/a-1.0.0.tgz''] \<and>
      in_store (out_index out) (out_paths out) ''a'' ''1.0.0'')"
proof -
  let ?pj = "\<lparr> pj_dependencies = Some [(''a'', ''^1.0.0'')], pj_devDependencies = None \<rparr>"
  have pj: "package_json stale_env = Parsed ?pj" by (simp add: stale_env_def)
  have rp: "resolve_phase stale_env ?pj = Returns ([(''a'', stale_pkg)], [(0, ''a'')], [])"
    by code_simp
  have names: "plain_names [(''a'', stale_pkg)]" by code_simp
  have lim: "0 < parallelLimit stale_env" by (simp add: parallelLimit_def stale_env_def)
  have nl: "\<forall>p. \<not> link_throws stale_env p" by (simp add: stale_env_def)
  have look: "index_lookup (loadStoreIndex (index_file stale_env)) ''a'' ''1.0.0'' \<noteq> None"
    by code_simp
  have "\<not> in_store (loadStoreIndex (index_file stale_env)) (existing stale_env)
            (rp_name stale_pkg) (rp_version stale_pkg)"
    by code_simp
  then have miss: "\<not> entry_with_directory (loadStoreIndex (index_file stale_env))
      (existing stale_env) stale_pkg"
    using in_store_iff [of "loadStoreIndex (index_file stale_env)" "existing stale_env" stale_pkg]
    by blast
  have tb: "\<exists>a b. tarball stale_env (rp_tarballUrl stale_pkg) = Extracted a b"
    by (simp add: stale_env_def)
  have url: "rp_tarballUrl stale_pkg = ''https://registry.npmjs.org/a/-/a-1.0.0.tgz''"
    and nm: "rp_name stale_pkg = ''a''" and vs: "rp_version stale_pkg = ''1.0.0''"
    by (simp_all add: stale_pkg_def)
  from cached_iff_entry_and_directory [OF pj rp names lim nl] obtain out where
    inst: "install stale_env = Returns out"
    and cc: "out_cachedCount out =
       length (filter (entry_with_directory (loadStoreIndex (index_file stale_env)) (existing stale_env))
                 (map snd [(''a'', stale_pkg)]))"
    and att: "out_attempts out =
       map rp_tarballUrl
         (filter (\<lambda>pkg. \<not> entry_with_directory (loadStoreIndex (index_file stale_env))
                     (existing stale_env) pkg) (map snd [(''a'', stale_pkg)]))"
    and again: "\<forall>pkg\<in>set (map snd [(''a'', stale_pkg)]).
        \<not> entry_with_directory (loadStoreIndex (index_file stale_env)) (existing stale_env) pkg \<and>
        (\<exists>a b. tarball stale_env (rp_tarballUrl pkg) = Extracted a b) \<longrightarrow>
        in_store (out_index out) (out_paths out) (rp_name pkg) (rp_version pkg)"
    by blast
  from cc miss have c0: "out_cachedCount out = 0" by simp
  from att miss url have a1: "out_attempts out = [''https://registry.npmjs.org/a/-/a-1.0.0.tgz'']"
    by simp
  from again miss tb have "in_store (out_index out) (out_paths out) (rp_name stale_pkg) (rp_version stale_pkg)"
    by simp
  then have st: "in_store (out_index out) (out_paths out) ''a'' ''1.0.0''"
    by (simp only: nm vs)
  from inst c0 a1 st have "\<exists>out. install stale_env = Returns out \<and> out_cachedCount out = 0 \<and>
      out_attempts out = [''https://registry.npmjs.org/a/-/a-1.0.0.tgz''] \<and>
      in_store (out_index out) (out_paths out) ''a'' ''1.0.0''"
    by blast
  with pj rp names lim look miss show ?thesis by blast
qed


subsection \<open>A lockfile that does not parse\<close>


lemma download_one_lock_file:
  "download_one (e\<lparr> lock_file := x \<rparr>) = download_one (e\<lparr> lock_file := y \<rparr>)"
  by (simp add: fun_eq_iff download_one_def)

lemma download_loop_lock_file:
  "download_loop (e\<lparr> lock_file := x \<rparr>) limit rest st = download_loop (e\<lparr> lock_file := y \<rparr>) limit rest st"
proof (induction "e\<lparr> lock_file := x \<rparr>" limit rest st rule: download_loop.induct)
  case (1 limit rest st)
  show ?case
  proof (cases "rest = [] \<or> limit = 0")
    case True
    then show ?thesis by (simp add: download_loop.simps)
  next
    case False
    with 1 have "download_loop (e\<lparr> lock_file := x \<rparr>) limit (drop limit rest)
          (foldl (download_one (e\<lparr> lock_file := x \<rparr>)) st (take limit rest))
        = download_loop (e\<lparr> lock_file := y \<rparr>) limit (drop limit rest)
          (foldl (download_one (e\<lparr> lock_file := x \<rparr>)) st (take limit rest))"
      by simp
    then show ?thesis
      using False
      by (subst download_loop.simps, subst (2) download_loop.simps)
         (simp add: download_one_lock_file [where e = e and x = x and y = y])
  qed
qed

lemma createVirtualStore_lock_file:
  "createVirtualStore (e\<lparr> lock_file := x \<rparr>) idx paths res =
   createVirtualStore (e\<lparr> lock_file := y \<rparr>) idx paths res"
  by (induction res) (auto split: option.splits)

lemma network_resolution_lock_file:
  "network_resolution (e\<lparr> lock_file := x \<rparr>) pj = network_resolution (e\<lparr> lock_file := y \<rparr>) pj"
  by (simp add: network_resolution_def allDeps_def)

lemma parallelLimit_lock_file: "parallelLimit (e\<lparr> lock_file := x \<rparr>) = parallelLimit e"
  by (simp add: parallelLimit_def split: option.split)

lemma fetch_phase_lock_file:
  "fetch_phase (e\<lparr> lock_file := x \<rparr>) idx res = fetch_phase (e\<lparr> lock_file := y \<rparr>) idx res"
  by (simp add: fetch_phase_def Let_def parallelLimit_lock_file
        download_loop_lock_file [where e = e and x = x and y = y])

text \<open>
  Claim C7 (malformed lockfile). \<open>loadLockfile\<close> returns \<open>null\<close> for a lockfile that does not
  parse, as for one that is absent; the resolution phase then is the resolution over the
  network, and \<open>install\<close> as a whole does what it does without a lockfile.
\<close>

theorem malformed_lockfile_as_absent:
  "loadLockfile Unparsable = None \<and> loadLockfile Missing = None \<and>
   resolve_phase (e\<lparr> lock_file := Unparsable \<rparr>) pj
     = network_resolution (e\<lparr> lock_file := Unparsable \<rparr>) pj \<and>
   install (e\<lparr> lock_file := Unparsable \<rparr>) = install (e\<lparr> lock_file := Missing \<rparr>)"
proof (intro conjI)
  show "loadLockfile Unparsable = None" and "loadLockfile Missing = None"
    by (simp_all add: loadLockfile_def)
  show "resolve_phase (e\<lparr> lock_file := Unparsable \<rparr>) pj
      = network_resolution (e\<lparr> lock_file := Unparsable \<rparr>) pj"
    by (simp add: resolve_phase_def loadLockfile_def)
  have rp: "resolve_phase (e\<lparr> lock_file := Unparsable \<rparr>) pj
      = resolve_phase (e\<lparr> lock_file := Missing \<rparr>) pj" for pj
    by (simp add: resolve_phase_def loadLockfile_def
          network_resolution_lock_file [where e = e and x = Unparsable and y = Missing])
  show "install (e\<lparr> lock_file := Unparsable \<rparr>) = install (e\<lparr> lock_file := Missing \<rparr>)"
    by (simp add: install_def rp fetch_phase_lock_file [where e = e and x = Unparsable and y = Missing]
          createVirtualStore_lock_file [where e = e and x = Unparsable and y = Missing]
          split: json_file.split run.split option.split)
qed

subsection \<open>The resolved map has one entry per name\<close>

lemma map_set_keys:
  "map fst (map_set m k v) = (if k \<in> set (map fst m) then map fst m else map fst m @ [k])"
  by (induction m) (force split: if_splits)+

lemma map_set_subset: "set (map_set m k v) \<subseteq> insert (k, v) (set m)"
  by (induction m) (auto split: if_splits)

lemma keyed_map_set:
  assumes "keyed_by_name m" and "rp_name v = k"
  shows "keyed_by_name (map_set m k v)"
proof -
  have "distinct (map fst (map_set m k v))"
    using assms(1) by (simp add: keyed_by_name_def map_set_keys)
  moreover have "\<forall>entry\<in>set (map_set m k v). rp_name (snd entry) = fst entry"
    using assms map_set_subset [of m k v] by (auto simp: keyed_by_name_def)
  ultimately show ?thesis by (simp add: keyed_by_name_def)
qed

lemma rp_name_make_package: "rp_name (make_package name v d) = name"
  by (simp add: make_package_def)

lemma on_metadata_keyed:
  assumes "on_metadata nc res d n r ans = (res', ws, t)" and "keyed_by_name res"
  shows "keyed_by_name res'"
proof -
  have "res' = res \<or> (\<exists>v vd. res' = map_set res n (make_package n v vd))"
    using assms(1)
    by (auto simp: on_metadata_def Let_def split: option.splits if_splits sum.splits)
  then show ?thesis
    using assms(2) by (auto intro: keyed_map_set simp: rp_name_make_package)
qed

lemma deliver_keyed:
  assumes "keyed_by_name (st_resolved st)"
  shows "keyed_by_name (st_resolved (deliver nc reg k st))"
proof (cases "k < length (pending_task 0 (st_root st))")
  case False
  then show ?thesis using assms by (simp add: deliver_def Let_def)
next
  case True
  obtain path d n r where p: "pending_task 0 (st_root st) ! k = (path, d, n, r)"
    by (cases "pending_task 0 (st_root st) ! k") auto
  obtain res' ws t where om: "on_metadata nc (st_resolved st) d n r (reg n) = (res', ws, t)"
    by (cases "on_metadata nc (st_resolved st) d n r (reg n)") auto
  have "st_resolved (deliver nc reg k st) = res'"
    using True by (simp add: deliver_def Let_def p om)
  with on_metadata_keyed [OF om assms] show ?thesis by simp
qed

lemma run_schedule_keyed:
  "keyed_by_name (st_resolved st) \<Longrightarrow> keyed_by_name (st_resolved (run_schedule nc reg sched st))"
  unfolding run_schedule_def
  by (induction sched arbitrary: st) (simp_all add: deliver_keyed)

lemma resolveDependencies_keyed:
  assumes "resolveDependencies nc reg sched ds [] depth = Returns st"
  shows "keyed_by_name (st_resolved st)"
proof -
  from assms obtain started where
    st: "st = run_schedule nc reg sched (start_state [] started)"
    by (auto simp: resolveDependencies_def Let_def split: sum.splits if_splits)
  have "keyed_by_name (st_resolved (start_state [] started))"
    by (simp add: start_state_def keyed_by_name_def)
  then show ?thesis unfolding st by (rule run_schedule_keyed)
qed

lemma foldl_map_set_keyed:
  assumes "keyed_by_name m" and "\<And>x. rp_name (g x) = f x"
  shows "keyed_by_name (foldl (\<lambda>m x. map_set m (f x) (g x)) m xs)"
  using assms(1) by (induction xs arbitrary: m) (simp_all add: keyed_map_set assms(2))

lemma from_lockfile_keyed: "keyed_by_name (from_lockfile l)"
  unfolding from_lockfile_def Let_def
  by (rule foldl_map_set_keyed) (simp_all add: keyed_by_name_def)

lemma resolve_phase_keyed:
  assumes "resolve_phase e pj = Returns (res, reqs, ws)"
  shows "keyed_by_name res"
proof -
  have "res = from_lockfile (the (loadLockfile (lock_file e))) \<or>
        (\<exists>st. resolveDependencies (NUM_CPUS e) (registry e) (schedule e) (allDeps e pj) [] 0 = Returns st \<and>
           res = st_resolved st)"
    using assms
    by (auto simp: resolve_phase_def network_resolution_def split: option.splits if_splits run.splits)
  then show ?thesis
    by (auto simp: from_lockfile_keyed resolveDependencies_keyed)
qed

lemma install_Returns_fields:
  assumes "install e = Returns out"
  shows "keyed_by_name (out_resolved out) \<and> out_lockfile out = make_lockfile (out_resolved out)"
proof -
  from assms obtain pj reqs ws where
    "resolve_phase e pj = Returns (out_resolved out, reqs, ws)"
    and "out_lockfile out = make_lockfile (out_resolved out)"
    by (auto simp: install_def Let_def split: json_file.splits run.splits option.splits prod.splits)
  then show ?thesis by (simp add: resolve_phase_keyed)
qed

subsection \<open>The lockfile read back\<close>

lemma name_of_key_join:
  assumes "v \<noteq> []" and "CHR ''@'' \<notin> set v"
  shows "name_of_key (n @ ''@'' @ v) = n"
proof -
  have "takeWhile (\<lambda>c. c \<noteq> CHR ''@'') (rev v @ (CHR ''@'' # rev n))
      = rev v @ takeWhile (\<lambda>c. c \<noteq> CHR ''@'') (CHR ''@'' # rev n)"
    by (rule takeWhile_append2) (use assms(2) in auto)
  then have "takeWhile (\<lambda>c. c \<noteq> CHR ''@'') (rev (n @ ''@'' @ v)) = rev v"
    by simp
  then show ?thesis
    using assms(1) by (simp add: name_of_key_def Let_def)
qed

lemma foldl_map_set_fresh:
  assumes "distinct (map fst m @ map f xs)"
  shows "foldl (\<lambda>m x. map_set m (f x) (g x)) m xs = m @ map (\<lambda>x. (f x, g x)) xs"
  using assms
proof (induction xs arbitrary: m)
  case Nil
  then show ?case by simp
next
  case (Cons x xs)
  have fresh: "\<not> map_has m (f x)" using Cons.prems by (auto simp: map_has_def)
  have "distinct (map fst (m @ [(f x, g x)]) @ map f xs)" using Cons.prems by auto
  from Cons.IH [OF this] show ?case
    by (simp add: map_set_fresh [OF fresh])
qed

lemma make_lockfile_alt:
  "make_lockfile res =
     \<lparr> lf_lockfileVersion = 1,
       lf_packages = foldl (\<lambda>m entry. map_set m (lock_key entry) (lock_value entry)) [] res \<rparr>"
  by (simp add: make_lockfile_def lock_key_def lock_value_def)

lemma name_of_lock_key:
  "sound_versions res \<Longrightarrow> entry \<in> set res \<Longrightarrow> name_of_key (lock_key entry) = fst entry"
  unfolding lock_key_def
  by (rule name_of_key_join) (auto simp: sound_versions_def)

lemma lock_keys_distinct:
  assumes "keyed_by_name res" and "sound_versions res"
  shows "distinct (map lock_key res)"
proof -
  have "inj_on lock_key (set res)"
  proof (rule inj_onI)
    fix x y assume x: "x \<in> set res" and y: "y \<in> set res" and eq: "lock_key x = lock_key y"
    then have "fst x = fst y"
      using name_of_lock_key [OF assms(2) x] name_of_lock_key [OF assms(2) y] by simp
    moreover have "inj_on fst (set res)"
      using assms(1) by (simp add: keyed_by_name_def distinct_map)
    ultimately show "x = y" using x y by (auto dest: inj_onD)
  qed
  moreover have "distinct res" using assms(1) by (auto simp: keyed_by_name_def distinct_map)
  ultimately show ?thesis by (simp add: distinct_map)
qed

lemma make_lockfile_packages:
  assumes "keyed_by_name res" and "sound_versions res"
  shows "lf_packages (make_lockfile res) = map (\<lambda>entry. (lock_key entry, lock_value entry)) res"
  using foldl_map_set_fresh [of "[]" lock_key res lock_value] lock_keys_distinct [OF assms]
  by (simp add: make_lockfile_alt)

subsection \<open>Installing twice\<close>

lemma without_optional_fields:
  "\<lparr> rp_name = rp_name p, rp_version = rp_version p, rp_integrity = rp_integrity p,
     rp_tarballUrl = rp_tarballUrl p, rp_dependencies = rp_dependencies p,
     rp_peerDependencies = None, rp_optionalDependencies = None \<rparr> = without_optional p"
  by (cases p) (simp add: without_optional_def)

lemma from_lockfile_round_trip:
  assumes k: "keyed_by_name res" and s: "sound_versions res"
  shows "from_lockfile (make_lockfile res) = map (\<lambda>entry. (fst entry, without_optional (snd entry))) res"
proof -
  let ?step = "\<lambda>resolved entry.
         let name = name_of_key (fst entry); pkg = snd entry in
         map_set resolved name
           \<lparr> rp_name = name,
             rp_version = le_version pkg,
             rp_integrity = le_integrity pkg,
             rp_tarballUrl = or_else (le_tarballUrl pkg) (default_tarballUrl name (le_version pkg)),
             rp_dependencies = le_dependencies pkg,
             rp_peerDependencies = None,
             rp_optionalDependencies = None \<rparr>"
  have "from_lockfile (make_lockfile res)
      = foldl ?step [] (map (\<lambda>entry. (lock_key entry, lock_value entry)) res)"
    by (simp only: from_lockfile_def make_lockfile_packages [OF k s])
  also have "\<dots> = foldl (\<lambda>m entry. ?step m (lock_key entry, lock_value entry)) [] res"
    by (simp only: foldl_map)
  also have "\<dots> = foldl (\<lambda>m entry. map_set m (fst entry) (without_optional (snd entry))) [] res"
  proof (rule foldl_cong [OF refl refl])
    fix m entry assume mem: "entry \<in> set res"
    have n: "name_of_key (lock_key entry) = fst entry"
      by (rule name_of_lock_key [OF s mem])
    have nm: "rp_name (snd entry) = fst entry"
      using k mem by (simp add: keyed_by_name_def)
    have url: "rp_tarballUrl (snd entry) \<noteq> []"
      using s mem by (simp add: sound_versions_def)
    show "?step m (lock_key entry, lock_value entry)
        = map_set m (fst entry) (without_optional (snd entry))"
      using url
      by (simp add: Let_def n lock_value_def or_else_def nm [symmetric]
            without_optional_fields [of "snd entry"])
  qed
  also have "\<dots> = map (\<lambda>entry. (fst entry, without_optional (snd entry))) res"
    using foldl_map_set_fresh [of "[]" fst res "\<lambda>entry. without_optional (snd entry)"] k
    by (simp add: keyed_by_name_def)
  finally show ?thesis .
qed

lemma make_lockfile_without_optional:
  "make_lockfile (map (\<lambda>entry. (fst entry, without_optional (snd entry))) res) = make_lockfile res"
  by (simp add: make_lockfile_def foldl_map without_optional_def)

lemma fetch_phase_all_cached:
  assumes "\<forall>entry\<in>set res. in_store idx (existing e) (rp_name (snd entry)) (rp_version (snd entry))"
  shows "fetch_phase e idx res =
     Some (length res, \<lparr> fs_index = idx, fs_paths = existing e, fs_downloadCount = 0,
                         fs_attempts = [], fs_failed = [] \<rparr>)"
proof -
  have none: "filter (\<lambda>pkg. \<not> in_store idx (existing e) (rp_name pkg) (rp_version pkg)) (map snd res) = []"
    using assms by (simp add: filter_empty_conv)
  have all: "filter (\<lambda>pkg. in_store idx (existing e) (rp_name pkg) (rp_version pkg)) (map snd res) = map snd res"
    using assms by (simp add: filter_id_conv)
  show ?thesis
    by (simp add: fetch_phase_def Let_def none all download_loop.simps)
qed

text \<open>
  Claim C6 (second install), as stated: the second of two installs downloads nothing and
  finds every package in the store. It fails when the first run could not download a
  package: the lockfile still lists it, so the second run resolves it from the lockfile,
  does not find it in the store and downloads again; with the host back it downloads one
  package.
\<close>

theorem second_install_counterexample:
  "map_option out_downloadCount (returned (install retry_env)) = Some 0 \<and>
   map_option out_attempts (returned (install (next_env retry_env)))
     = Some [''https://registry.npmjs.org/a/-/a-1.0.0.tgz''] \<and>
   map_option out_cachedCount (returned (install (next_env retry_env))) = Some 0 \<and>
   map_option out_downloadCount
     (returned (install ((next_env retry_env)\<lparr> tarball := (\<lambda>url. Extracted 10 20) \<rparr>))) = Some 1"
proof (intro conjI)
  show "map_option out_downloadCount (returned (install retry_env)) = Some 0"
    by code_simp
  show "map_option out_attempts (returned (install (next_env retry_env)))
     = Some [''https://registry.npmjs.org/a/-/a-1.0.0.tgz'']"
    by code_simp
  show "map_option out_cachedCount (returned (install (next_env retry_env))) = Some 0"
    by code_simp
  show "map_option out_downloadCount
     (returned (install ((next_env retry_env)\<lparr> tarball := (\<lambda>url. Extracted 10 20) \<rparr>))) = Some 1"
    by code_simp
qed

text \<open>
  Claim C6, amended. When the first run returned with at least one package resolved, every
  package it resolved is in the store with a tarball URL and a version that the lockfile
  gives back unchanged, and the second run finds the same manifest, the lockfile and the
  index the first run wrote and the paths it left, and nothing throws while linking: the
  second run returns, asks the registry nothing, attempts no download, counts every package
  as cached, and writes the same lockfile. Registry, tarball hosts, schedule and options of
  the second run are arbitrary.
\<close>

theorem second_install_uses_lockfile:
  assumes first: "install e = Returns out1"
    and some: "out_resolved out1 \<noteq> []"
    and stored: "\<forall>entry\<in>set (out_resolved out1).
        in_store (out_index out1) (out_paths out1) (fst entry) (rp_version (snd entry))"
    and sound: "sound_versions (out_resolved out1)"
    and pj2: "package_json e2 = package_json e"
    and lf2: "lock_file e2 = Parsed (out_lockfile out1)"
    and if2: "index_file e2 = Parsed (out_index out1)"
    and ex2: "existing e2 = out_paths out1"
    and nl: "\<forall>p. \<not> link_throws e2 p"
  shows "\<exists>out2. install e2 = Returns out2 \<and> out_requests out2 = [] \<and> out_attempts out2 = [] \<and>
     out_downloadCount out2 = 0 \<and> out_cachedCount out2 = length (out_resolved out2) \<and>
     map fst (out_resolved out2) = map fst (out_resolved out1) \<and>
     out_lockfile out2 = out_lockfile out1"
proof -
  let ?res1 = "out_resolved out1"
  let ?res2 = "map (\<lambda>entry. (fst entry, without_optional (snd entry))) ?res1"
  from install_Returns_fields [OF first] have k: "keyed_by_name ?res1"
    and l1: "out_lockfile out1 = make_lockfile ?res1" by simp_all
  from first obtain pj where pj: "package_json e = Parsed pj"
    by (auto simp: install_def split: json_file.splits)
  have packages: "lf_packages (make_lockfile ?res1) \<noteq> []"
    using some by (simp add: make_lockfile_packages [OF k sound])
  have rp: "resolve_phase e2 pj = Returns (?res2, [], [])"
    using packages
    by (simp add: resolve_phase_def lf2 l1 loadLockfile_def from_lockfile_round_trip [OF k sound])
  have cached: "\<forall>entry\<in>set ?res2.
      in_store (out_index out1) (existing e2) (rp_name (snd entry)) (rp_version (snd entry))"
    using stored k by (auto simp: ex2 keyed_by_name_def without_optional_def)
  let ?st = "\<lparr> fs_index = out_index out1, fs_paths = existing e2, fs_downloadCount = 0,
                fs_attempts = [], fs_failed = [] \<rparr>"
  have fp: "fetch_phase e2 (loadStoreIndex (index_file e2)) ?res2 = Some (length ?res2, ?st)"
    using fetch_phase_all_cached [OF cached] by (simp add: if2 loadStoreIndex_def)
  from nl have nl': "\<And>p. \<not> link_throws e2 p" by simp
  obtain ls nis where
    cv: "createVirtualStore e2 (fs_index ?st) (fs_paths ?st) ?res2 = Some (ls, nis)"
    using createVirtualStore_total [OF nl'] by blast
  let ?out2 = "\<lparr> out_resolved = ?res2, out_requests = [], out_cachedCount = length ?res2,
      out_downloadCount = 0, out_attempts = [], out_index = out_index out1,
      out_paths = existing e2, out_linked = ls, out_lockfile = make_lockfile ?res2,
      out_warnings = nis \<rparr>"
  have "install e2 = Returns ?out2"
    using cv by (simp add: install_def pj2 pj rp fp Let_def)
  moreover have "out_lockfile ?out2 = out_lockfile out1"
    by (simp add: l1 make_lockfile_without_optional)
  moreover have "map fst (out_resolved ?out2) = map fst ?res1"
    by (simp add: comp_def)
  ultimately show ?thesis
    by (intro exI [of _ ?out2]) simp
qed

theorem second_install_uses_lockfile_witness:
  "map_option out_resolved (returned (install stale_env)) = Some [(''a'', stale_pkg)] \<and>
   map_option out_downloadCount (returned (install stale_env)) = Some 1 \<and>
   sound_versions [(''a'', stale_pkg)] \<and>
   (\<exists>out2. install (next_env stale_env) = Returns out2 \<and> out_requests out2 = [] \<and>
      out_attempts out2 = [] \<and> out_downloadCount out2 = 0 \<and> out_cachedCount out2 = 1 \<and>
      map_option out_lockfile (returned (install stale_env)) = Some (out_lockfile out2))"
proof -
  have r1: "map_option out_resolved (returned (install stale_env)) = Some [(''a'', stale_pkg)]"
    by code_simp
  have d1: "map_option out_downloadCount (returned (install stale_env)) = Some 1"
    by code_simp
  have s1: "map_option
      (\<lambda>out. list_all (\<lambda>entry. in_store (out_index out) (out_paths out) (fst entry)
                                  (rp_version (snd entry))) (out_resolved out))
      (returned (install stale_env)) = Some True"
    by code_simp
  have sv: "sound_versions [(''a'', stale_pkg)]"
    by code_simp
  from r1 obtain out1 where first: "install stale_env = Returns out1"
    by (cases "install stale_env") (simp_all add: returned_def)
  from r1 first have res: "out_resolved out1 = [(''a'', stale_pkg)]"
    by (simp add: returned_def)
  from s1 first have stored: "\<forall>entry\<in>set (out_resolved out1).
        in_store (out_index out1) (out_paths out1) (fst entry) (rp_version (snd entry))"
    by (simp add: returned_def list_all_iff)
  have some: "out_resolved out1 \<noteq> []" by (simp add: res)
  have sound: "sound_versions (out_resolved out1)" by (simp add: res sv)
  have ne: "next_env stale_env = after_install stale_env out1"
    by (simp add: next_env_def first)
  have nl: "\<forall>p. \<not> link_throws (next_env stale_env) p"
    by (simp only: ne) (simp add: after_install_def stale_env_def)
  from second_install_uses_lockfile [OF first some stored sound, of "next_env stale_env"] nl
  obtain out2 where "install (next_env stale_env) = Returns out2" "out_requests out2 = []"
    "out_attempts out2 = []" "out_downloadCount out2 = 0"
    "out_cachedCount out2 = length (out_resolved out2)"
    "map fst (out_resolved out2) = map fst (out_resolved out1)"
    "out_lockfile out2 = out_lockfile out1"
    by (auto simp: ne after_install_def)
  moreover from this res have "out_cachedCount out2 = 1"
    by (metis length_map list.size(3,4) One_nat_def add_0)
  moreover have "map_option out_lockfile (returned (install stale_env)) = Some (out_lockfile out1)"
    by (simp add: first returned_def)
  ultimately have "\<exists>out2. install (next_env stale_env) = Returns out2 \<and> out_requests out2 = [] \<and>
      out_attempts out2 = [] \<and> out_downloadCount out2 = 0 \<and> out_cachedCount out2 = 1 \<and>
      map_option out_lockfile (returned (install stale_env)) = Some (out_lockfile out2)"
    by auto
  with r1 d1 sv show ?thesis by blast
qed

section \<open>Properties of linkPackage\<close>

lemma map_of_map_delete: "map_of (map_delete m k) = (map_of m)(k := None)"
  by (induction m) (auto simp: fun_eq_iff map_delete_def)

lemma link_file_result:
  assumes "link_file links mode srcDir name content dest = Inr dest'"
  shows "map_of dest' = (map_of dest)(name \<mapsto> linked_entry links mode (srcDir @ [name]) content)"
  using assms
  by (auto simp: link_file_def Let_def map_of_map_set map_of_map_delete fun_eq_iff
      split: option.splits entry.splits if_splits)

lemma dest_entry_Cons:
  "dest_entry es (n # p) =
     (if p = [] then map_of es n
      else case map_of es n of Some (Folder sub) \<Rightarrow> dest_entry sub p | _ \<Rightarrow> None)"
  by (cases p) (simp_all split: option.split entry.split)

lemma src_file_Dir_nonempty: "src_file (Dir entries) p = Some content \<Longrightarrow> p \<noteq> []"
  by (cases p) simp_all

lemma src_file_Dir_Nil: "src_file (Dir []) rel = None"
  by (cases rel) simp_all

lemma link_both:
  "(listing src \<longrightarrow> linkPackage links mode srcDir src destNode = Inr dest' \<longrightarrow>
      (\<forall>rel content. src_file src rel = Some content \<longrightarrow>
         dest_entry dest' rel = Some (linked_entry links mode (srcDir @ rel) content)))"
  "(listing (Dir entries) \<longrightarrow> link_entries links mode srcDir entries dest = Inr dest'' \<longrightarrow>
      (\<forall>rel content. src_file (Dir entries) rel = Some content \<longrightarrow>
         dest_entry dest'' rel = Some (linked_entry links mode (srcDir @ rel) content)) \<and>
      (\<forall>n. n \<notin> set (map fst entries) \<longrightarrow> map_of dest'' n = map_of dest n))"
proof (induction links mode srcDir src destNode and links mode srcDir entries dest
    arbitrary: dest' and dest'' rule: linkPackage_link_entries.induct)
  case (1 links mode srcDir src destNode)
  show ?case
  proof (intro impI allI)
    fix rel content
    assume l: "listing src" and r: "linkPackage links mode srcDir src destNode = Inr dest'"
      and f: "src_file src rel = Some content"
    from r obtain dest entries where d: "(case destNode of None \<Rightarrow> Inr []
            | Some (Folder es) \<Rightarrow> Inr es | Some (SymLink target) \<Rightarrow> Inl FollowsLink
            | Some other \<Rightarrow> Inl (Thrown EEXIST)) = Inr dest"
      and s: "src = Dir entries" and le: "link_entries links mode srcDir entries dest = Inr dest'"
      by (auto split: sum.splits tree.splits)
    from "1.IH" [OF d s] l le f s
    show "dest_entry dest' rel = Some (linked_entry links mode (srcDir @ rel) content)"
      by blast
  qed
next
  case (2 links mode srcDir dest)
  then show ?case by (simp add: src_file_Dir_Nil)
next
  case (3 links mode srcDir name node rest dest)
  show ?case
  proof (intro impI)
    assume l: "listing (Dir ((name, node) # rest))"
      and r: "link_entries links mode srcDir ((name, node) # rest) dest = Inr dest''"
    from l have fresh: "name \<notin> set (map fst rest)" and lrest: "listing (Dir rest)"
      and lnode: "listing node" by simp_all
    show "(\<forall>rel content. src_file (Dir ((name, node) # rest)) rel = Some content \<longrightarrow>
         dest_entry dest'' rel = Some (linked_entry links mode (srcDir @ rel) content)) \<and>
      (\<forall>n. n \<notin> set (map fst ((name, node) # rest)) \<longrightarrow> map_of dest'' n = map_of dest n)"
    proof (cases node)
      case (File c)
      from r File obtain dest1 where
        lf: "link_file links mode srcDir name c dest = Inr dest1"
        and rest: "link_entries links mode srcDir rest dest1 = Inr dest''"
        by (auto split: sum.splits)
      from "3.IH"(1) [OF File lf] lrest rest have
        ih1: "\<And>rel content. src_file (Dir rest) rel = Some content \<Longrightarrow>
           dest_entry dest'' rel = Some (linked_entry links mode (srcDir @ rel) content)"
        and ih2: "\<And>n. n \<notin> set (map fst rest) \<Longrightarrow> map_of dest'' n = map_of dest1 n"
        by blast+
      have m1: "map_of dest1 = (map_of dest)(name \<mapsto> linked_entry links mode (srcDir @ [name]) c)"
        by (rule link_file_result [OF lf])
      show ?thesis
      proof (intro conjI allI impI)
        fix rel content
        assume f: "src_file (Dir ((name, node) # rest)) rel = Some content"
        then obtain n p where rel: "rel = n # p" by (cases rel) simp_all
        show "dest_entry dest'' rel = Some (linked_entry links mode (srcDir @ rel) content)"
        proof (cases "n = name")
          case True
          with f rel File have p: "p = []" and c: "content = c"
            by (cases p; simp)+
          have "map_of dest'' name = map_of dest1 name" by (rule ih2 [OF fresh])
          then show ?thesis by (simp add: rel True p c m1)
        next
          case False
          with f rel have "src_file (Dir rest) rel = Some content" by simp
          then show ?thesis by (rule ih1)
        qed
      next
        fix n assume "n \<notin> set (map fst ((name, node) # rest))"
        then have "n \<noteq> name" and "n \<notin> set (map fst rest)" by auto
        then show "map_of dest'' n = map_of dest n"
          using ih2 [of n] by (simp add: m1)
      qed
    next
      case (Dir sub)
      from r Dir obtain es where
        lp: "linkPackage links mode (srcDir @ [name]) node (map_of dest name) = Inr es"
        and rest: "link_entries links mode srcDir rest (map_set dest name (Folder es)) = Inr dest''"
        by (auto split: sum.splits)
      from "3.IH"(2) [OF Dir] lnode lp have
        ihs: "\<And>rel content. src_file node rel = Some content \<Longrightarrow>
           dest_entry es rel = Some (linked_entry links mode ((srcDir @ [name]) @ rel) content)"
        by blast
      from "3.IH"(3) [OF Dir lp] lrest rest have
        ih1: "\<And>rel content. src_file (Dir rest) rel = Some content \<Longrightarrow>
           dest_entry dest'' rel = Some (linked_entry links mode (srcDir @ rel) content)"
        and ih2: "\<And>n. n \<notin> set (map fst rest) \<Longrightarrow>
           map_of dest'' n = map_of (map_set dest name (Folder es)) n"
        by blast+
      show ?thesis
      proof (intro conjI allI impI)
        fix rel content
        assume f: "src_file (Dir ((name, node) # rest)) rel = Some content"
        then obtain n p where rel: "rel = n # p" by (cases rel) simp_all
        show "dest_entry dest'' rel = Some (linked_entry links mode (srcDir @ rel) content)"
        proof (cases "n = name")
          case True
          with f rel have fp: "src_file node p = Some content" by simp
          with Dir have pne: "p \<noteq> []" by (auto dest: src_file_Dir_nonempty)
          have "map_of dest'' name = Some (Folder es)"
            using ih2 [OF fresh] by (simp add: map_of_map_set)
          then have "dest_entry dest'' rel = dest_entry es p"
            using pne by (simp add: rel True dest_entry_Cons)
          with ihs [OF fp] show ?thesis by (simp add: rel True)
        next
          case False
          with f rel have "src_file (Dir rest) rel = Some content" by simp
          then show ?thesis by (rule ih1)
        qed
      next
        fix n assume "n \<notin> set (map fst ((name, node) # rest))"
        then have "n \<noteq> name" and "n \<notin> set (map fst rest)" by auto
        then show "map_of dest'' n = map_of dest n"
          using ih2 [of n] by (simp add: map_of_map_set)
      qed
    qed
  qed
qed

lemma link_total:
  "(listing src \<longrightarrow> (\<exists>entries. src = Dir entries) \<longrightarrow> destNode = None \<longrightarrow>
      (\<exists>d. linkPackage links mode srcDir src destNode = Inr d))"
  "(listing (Dir entries) \<longrightarrow> (\<forall>n\<in>set (map fst entries). map_of dest n = None) \<longrightarrow>
      (\<exists>d. link_entries links mode srcDir entries dest = Inr d))"
proof (induction links mode srcDir src destNode and links mode srcDir entries dest
    rule: linkPackage_link_entries.induct)
  case (1 links mode srcDir src destNode)
  show ?case
  proof (intro impI)
    assume l: "listing src" and "\<exists>entries. src = Dir entries" and n: "destNode = None"
    then obtain entries where s: "src = Dir entries" by blast
    have d: "(case destNode of None \<Rightarrow> Inr []
            | Some (Folder es) \<Rightarrow> Inr es | Some (SymLink target) \<Rightarrow> Inl FollowsLink
            | Some other \<Rightarrow> Inl (Thrown EEXIST)) = Inr []"
      by (simp add: n)
    from "1.IH" [OF d s] l s obtain r where "link_entries links mode srcDir entries [] = Inr r"
      by auto
    then show "\<exists>d. linkPackage links mode srcDir src destNode = Inr d"
      by (simp add: n s)
  qed
next
  case (2 links mode srcDir dest)
  then show ?case by simp
next
  case (3 links mode srcDir name node rest dest)
  show ?case
  proof (intro impI)
    assume l: "listing (Dir ((name, node) # rest))"
      and free: "\<forall>n\<in>set (map fst ((name, node) # rest)). map_of dest n = None"
    from l have fresh: "name \<notin> set (map fst rest)" and lrest: "listing (Dir rest)"
      and lnode: "listing node" by simp_all
    from free have none: "map_of dest name = None" by simp
    show "\<exists>d. link_entries links mode srcDir ((name, node) # rest) dest = Inr d"
    proof (cases node)
      case (File c)
      let ?dest1 = "map_set dest name (linked_entry links mode (srcDir @ [name]) c)"
      have lf: "link_file links mode srcDir name c dest = Inr ?dest1"
        by (simp add: link_file_def none)
      have "\<forall>n\<in>set (map fst rest). map_of ?dest1 n = None"
        using free fresh by (auto simp: map_of_map_set)
      with "3.IH"(1) [OF File lf] lrest obtain d where
        "link_entries links mode srcDir rest ?dest1 = Inr d" by blast
      then show ?thesis by (simp add: File lf)
    next
      case (Dir sub)
      from "3.IH"(2) [OF Dir] lnode Dir none obtain es where
        lp: "linkPackage links mode (srcDir @ [name]) node (map_of dest name) = Inr es"
        by auto
      have "\<forall>n\<in>set (map fst rest). map_of (map_set dest name (Folder es)) n = None"
        using free fresh by (auto simp: map_of_map_set)
      with "3.IH"(3) [OF Dir lp] lrest obtain d where
        "link_entries links mode srcDir rest (map_set dest name (Folder es)) = Inr d" by blast
      then show ?thesis using lp by (simp add: Dir del: linkPackage.simps)
    qed
  qed
qed

lemma link_file_no_stop:
  assumes "\<forall>d. map_of dest name = Some d \<longrightarrow> symlink_free d"
  shows "link_file links mode srcDir name content dest \<noteq> Inl FollowsLink"
  using assms by (auto simp: link_file_def Let_def split: option.splits entry.splits)

lemma symlink_free_entries:
  "list_all (\<lambda>e. symlink_free (snd e)) es \<Longrightarrow> map_of es n = Some d \<Longrightarrow> symlink_free d"
  by (induction es) (auto split: if_splits)

lemma link_no_stop:
  "(listing src \<longrightarrow> (\<forall>d. destNode = Some d \<longrightarrow> symlink_free d) \<longrightarrow>
      linkPackage links mode srcDir src destNode \<noteq> Inl FollowsLink)"
  "(listing (Dir entries) \<longrightarrow>
      (\<forall>n\<in>set (map fst entries). \<forall>d. map_of dest n = Some d \<longrightarrow> symlink_free d) \<longrightarrow>
      link_entries links mode srcDir entries dest \<noteq> Inl FollowsLink)"
proof (induction links mode srcDir src destNode and links mode srcDir entries dest
    rule: linkPackage_link_entries.induct)
  case (1 links mode srcDir src destNode)
  show ?case
  proof (intro impI)
    assume l: "listing src" and f: "\<forall>d. destNode = Some d \<longrightarrow> symlink_free d"
    show "linkPackage links mode srcDir src destNode \<noteq> Inl FollowsLink"
    proof (cases "(case destNode of None \<Rightarrow> Inr []
            | Some (Folder es) \<Rightarrow> Inr es | Some (SymLink target) \<Rightarrow> Inl FollowsLink
            | Some other \<Rightarrow> Inl (Thrown EEXIST))")
      case (Inl err)
      with f have "err \<noteq> FollowsLink"
        by (auto split: option.splits entry.splits)
      with Inl show ?thesis by simp
    next
      case (Inr dest)
      with f have free: "\<forall>n d. map_of dest n = Some d \<longrightarrow> symlink_free d"
        by (auto split: option.splits entry.splits dest: symlink_free_entries)
      show ?thesis
      proof (cases src)
        case (File c)
        with Inr show ?thesis by simp
      next
        case (Dir entries)
        from "1.IH" [OF Inr Dir] l Dir free
        have "link_entries links mode srcDir entries dest \<noteq> Inl FollowsLink" by blast
        with Inr Dir show ?thesis by simp
      qed
    qed
  qed
next
  case (2 links mode srcDir dest)
  then show ?case by simp
next
  case (3 links mode srcDir name node rest dest)
  show ?case
  proof (intro impI)
    assume l: "listing (Dir ((name, node) # rest))"
      and free: "\<forall>n\<in>set (map fst ((name, node) # rest)).
                  \<forall>d. map_of dest n = Some d \<longrightarrow> symlink_free d"
    from l have fresh: "name \<notin> set (map fst rest)" and lrest: "listing (Dir rest)"
      and lnode: "listing node" by simp_all
    from free have here: "\<forall>d. map_of dest name = Some d \<longrightarrow> symlink_free d" by simp
    show "link_entries links mode srcDir ((name, node) # rest) dest \<noteq> Inl FollowsLink"
    proof (cases node)
      case (File c)
      show ?thesis
      proof (cases "link_file links mode srcDir name c dest")
        case (Inl err)
        with link_file_no_stop [OF here, of links mode srcDir c] have "err \<noteq> FollowsLink"
          by auto
        with Inl File show ?thesis by simp
      next
        case (Inr dest1)
        have "map_of dest1 = (map_of dest)(name \<mapsto> linked_entry links mode (srcDir @ [name]) c)"
          by (rule link_file_result [OF Inr])
        with free fresh
        have "\<forall>n\<in>set (map fst rest). \<forall>d. map_of dest1 n = Some d \<longrightarrow> symlink_free d"
          by auto
        with "3.IH"(1) [OF File Inr] lrest
        have "link_entries links mode srcDir rest dest1 \<noteq> Inl FollowsLink" by blast
        with Inr File show ?thesis by simp
      qed
    next
      case (Dir sub)
      from "3.IH"(2) [OF Dir] lnode here
      have sub: "linkPackage links mode (srcDir @ [name]) node (map_of dest name) \<noteq> Inl FollowsLink"
        by blast
      show ?thesis
      proof (cases "linkPackage links mode (srcDir @ [name]) node (map_of dest name)")
        case (Inl err)
        with sub have "err \<noteq> FollowsLink" by auto
        with Inl Dir show ?thesis by (simp del: linkPackage.simps)
      next
        case (Inr es)
        from free fresh
        have "\<forall>n\<in>set (map fst rest).
                \<forall>d. map_of (map_set dest name (Folder es)) n = Some d \<longrightarrow> symlink_free d"
          by (auto simp: map_of_map_set)
        with "3.IH"(3) [OF Dir Inr] lrest
        have "link_entries links mode srcDir rest (map_set dest name (Folder es)) \<noteq> Inl FollowsLink"
          by blast
        with Inr Dir show ?thesis by (simp del: linkPackage.simps)
      qed
    qed
  qed
qed

lemma read_through_linked:
  assumes "src_file src rel = Some content"
  shows "read_through srcDir src (linked_entry links mode (srcDir @ rel) content) = Some content"
  using assms by (cases mode) (simp_all add: read_through_def linked_entry_def)

text \<open>
  Claim C8 (link with fallback to copy). For a source tree whose listings name each entry
  once: into a destination that does not exist yet \<open>linkPackage\<close> returns without an
  error, whichever link calls fail; and whenever it returns, every file of the source
  has an entry of its own at the same place of the destination, which is the hard link
  (in \<open>hardlink\<close> mode) or the symbolic link (in \<open>symlink\<close> mode) when the link call for
  that file succeeds, and a file with the bytes of the source when it fails or the mode is
  \<open>copy\<close>; reading it gives the content of the source file. This covers every destination
  in which the call follows no symbolic link other than one to the source file it links,
  and every destination without a symbolic link is one of them.
\<close>

theorem linkPackage_falls_back_to_copy:
  assumes "listing (Dir entries)"
  shows "(\<exists>dest. linkPackage links mode srcDir (Dir entries) None = Inr dest) \<and>
     (\<forall>destNode dest rel content.
        linkPackage links mode srcDir (Dir entries) destNode = Inr dest \<and>
        src_file (Dir entries) rel = Some content \<longrightarrow>
        (\<exists>e. dest_entry dest rel = Some e \<and>
           read_through srcDir (Dir entries) e = Some content \<and>
           e = (case mode of
                  Hardlink \<Rightarrow>
                    if links (srcDir @ rel) then HardLink (srcDir @ rel) else Regular content
                | Symlink \<Rightarrow>
                    if links (srcDir @ rel) then SymLink (srcDir @ rel) else Regular content
                | Copy \<Rightarrow> Regular content))) \<and>
     (\<forall>destNode. (\<forall>d. destNode = Some d \<longrightarrow> symlink_free d) \<longrightarrow>
        linkPackage links mode srcDir (Dir entries) destNode \<noteq> Inl FollowsLink)"
proof (intro conjI allI impI)
  show "\<exists>dest. linkPackage links mode srcDir (Dir entries) None = Inr dest"
    using link_total(1) [of "Dir entries" None links mode srcDir] assms by blast
next
  fix destNode dest rel content
  assume h: "linkPackage links mode srcDir (Dir entries) destNode = Inr dest \<and>
        src_file (Dir entries) rel = Some content"
  then have e: "dest_entry dest rel = Some (linked_entry links mode (srcDir @ rel) content)"
    using link_both(1) [of "Dir entries" links mode srcDir destNode dest] assms by blast
  have r: "read_through srcDir (Dir entries) (linked_entry links mode (srcDir @ rel) content)
      = Some content"
    using h by (simp add: read_through_linked)
  show "\<exists>e. dest_entry dest rel = Some e \<and>
           read_through srcDir (Dir entries) e = Some content \<and>
           e = (case mode of
                  Hardlink \<Rightarrow>
                    if links (srcDir @ rel) then HardLink (srcDir @ rel) else Regular content
                | Symlink \<Rightarrow>
                    if links (srcDir @ rel) then SymLink (srcDir @ rel) else Regular content
                | Copy \<Rightarrow> Regular content)"
    using e r by (intro exI [of _ "linked_entry links mode (srcDir @ rel) content"])
      (simp add: linked_entry_def)
next
  fix destNode
  assume "\<forall>d. destNode = Some d \<longrightarrow> symlink_free d"
  then show "linkPackage links mode srcDir (Dir entries) destNode \<noteq> Inl FollowsLink"
    using link_no_stop(1) [of "Dir entries" destNode links mode srcDir] assms by blast
qed

theorem linkPackage_falls_back_to_copy_witness:
  "sample_tree = Dir [(''index.js'', File [1, 2]),
          (''lib'', Dir [(''util.js'', File [3]), (''data.json'', File [4])])] \<and>
   listing sample_tree \<and>
   linkPackage (\<lambda>p. p \<noteq> [''store'', ''pkg'', ''lib'', ''util.js'']) Hardlink [''store'', ''pkg'']
       sample_tree None
     = Inr [(''index.js'', HardLink [''store'', ''pkg'', ''index.js'']),
            (''lib'', Folder [(''util.js'', Regular [3]),
                              (''data.json'', HardLink [''store'', ''pkg'', ''lib'', ''data.json''])])] \<and>
   src_file sample_tree [''lib'', ''util.js''] = Some [3] \<and>
   (\<exists>e. dest_entry [(''index.js'', HardLink [''store'', ''pkg'', ''index.js'']),
            (''lib'', Folder [(''util.js'', Regular [3]),
                              (''data.json'', HardLink [''store'', ''pkg'', ''lib'', ''data.json''])])]
          [''lib'', ''util.js''] = Some e \<and>
        read_through [''store'', ''pkg''] sample_tree e = Some [3] \<and> e = Regular [3]) \<and>
   symlink_free (Folder [(''index.js'', Regular [9]), (''lib'', Folder [])]) \<and>
   linkPackage (\<lambda>p. p \<noteq> [''store'', ''pkg'', ''lib'', ''util.js'']) Hardlink [''store'', ''pkg'']
       sample_tree (Some (Folder [(''index.js'', Regular [9]), (''lib'', Folder [])]))
     \<noteq> Inl FollowsLink \<and>
   linkPackage (\<lambda>p. True) Symlink [''store'', ''pkg''] sample_tree
       (Some (Folder [(''index.js'', SymLink [''store'', ''pkg'', ''index.js''])]))
     = Inr [(''index.js'', SymLink [''store'', ''pkg'', ''index.js'']),
            (''lib'', Folder [(''util.js'', SymLink [''store'', ''pkg'', ''lib'', ''util.js'']),
                              (''data.json'', SymLink [''store'', ''pkg'', ''lib'', ''data.json''])])] \<and>
   linkPackage (\<lambda>p. True) Hardlink [''store'', ''pkg''] sample_tree
       (Some (Folder [(''index.js'', SymLink [''gone''])]))
     = Inl FollowsLink"
proof -
  let ?links = "\<lambda>p. p \<noteq> [''store'', ''pkg'', ''lib'', ''util.js'']"
  let ?dest = "[(''index.js'', HardLink [''store'', ''pkg'', ''index.js'']),
            (''lib'', Folder [(''util.js'', Regular [3]),
                              (''data.json'', HardLink [''store'', ''pkg'', ''lib'', ''data.json''])])]"
  let ?old = "Folder [(''index.js'', Regular [9]), (''lib'', Folder [])]"
  have t: "sample_tree = Dir [(''index.js'', File [1, 2]),
          (''lib'', Dir [(''util.js'', File [3]), (''data.json'', File [4])])]"
    by (simp add: sample_tree_def)
  have l: "listing sample_tree" by code_simp
  have r: "linkPackage ?links Hardlink [''store'', ''pkg''] sample_tree None = Inr ?dest"
    by code_simp
  have f: "src_file sample_tree [''lib'', ''util.js''] = Some [3]" by code_simp
  have sf: "symlink_free ?old" by simp
  have again: "linkPackage (\<lambda>p. True) Symlink [''store'', ''pkg''] sample_tree
       (Some (Folder [(''index.js'', SymLink [''store'', ''pkg'', ''index.js''])]))
     = Inr [(''index.js'', SymLink [''store'', ''pkg'', ''index.js'']),
            (''lib'', Folder [(''util.js'', SymLink [''store'', ''pkg'', ''lib'', ''util.js'']),
                              (''data.json'', SymLink [''store'', ''pkg'', ''lib'', ''data.json''])])]"
    by code_simp
  have gone: "linkPackage (\<lambda>p. True) Hardlink [''store'', ''pkg''] sample_tree
       (Some (Folder [(''index.js'', SymLink [''gone''])])) = Inl FollowsLink"
    by code_simp
  let ?entries = "[(''index.js'', File [1, 2]),
          (''lib'', Dir [(''util.js'', File [3]), (''data.json'', File [4])])]"
  have nl: "?links ([''store'', ''pkg''] @ [''lib'', ''util.js'']) = False" by simp
  from l have l': "listing (Dir ?entries)" by (simp only: t)
  from r have r': "linkPackage ?links Hardlink [''store'', ''pkg''] (Dir ?entries) None = Inr ?dest"
    by (simp only: t)
  from f have f': "src_file (Dir ?entries) [''lib'', ''util.js''] = Some [3]"
    by (simp only: t)
  note inst = linkPackage_falls_back_to_copy [OF l', of ?links Hardlink "[''store'', ''pkg'']"]
  from inst r' f' have "\<exists>e. dest_entry ?dest [''lib'', ''util.js''] = Some e \<and>
        read_through [''store'', ''pkg''] (Dir ?entries) e = Some [3] \<and>
        e = (case Hardlink of
               Hardlink \<Rightarrow>
                 if ?links ([''store'', ''pkg''] @ [''lib'', ''util.js''])
                 then HardLink ([''store'', ''pkg''] @ [''lib'', ''util.js'']) else Regular [3]
             | Symlink \<Rightarrow>
                 if ?links ([''store'', ''pkg''] @ [''lib'', ''util.js''])
                 then SymLink ([''store'', ''pkg''] @ [''lib'', ''util.js'']) else Regular [3]
             | Copy \<Rightarrow> Regular [3])"
    by blast
  then have ex: "\<exists>e. dest_entry ?dest [''lib'', ''util.js''] = Some e \<and>
        read_through [''store'', ''pkg''] sample_tree e = Some [3] \<and> e = Regular [3]"
    by (simp only: link_mode.case nl if_False t)
  from sf have pre: "\<forall>d. Some ?old = Some d \<longrightarrow> symlink_free d" by simp
  from inst have "\<forall>destNode. (\<forall>d. destNode = Some d \<longrightarrow> symlink_free d) \<longrightarrow>
      linkPackage ?links Hardlink [''store'', ''pkg''] (Dir ?entries) destNode \<noteq> Inl FollowsLink"
    by (elim conjE)
  from this [THEN spec, of "Some ?old"] pre
  have "linkPackage ?links Hardlink [''store'', ''pkg''] (Dir ?entries) (Some ?old)
      \<noteq> Inl FollowsLink"
    by (rule mp)
  then have ns: "linkPackage ?links Hardlink [''store'', ''pkg''] sample_tree (Some ?old)
      \<noteq> Inl FollowsLink"
    unfolding t .
  from t l r f ex sf ns again gone show ?thesis by blast
qed

section \<open>Properties of the dictionary detection\<close>

subsection \<open>The character classes by code\<close>

lemma bits_le_horner:
  "length xs = length ys \<Longrightarrow>
   bits_le le xs ys \<longleftrightarrow>
     horner_sum of_bool (2 :: nat) xs < horner_sum of_bool 2 ys
     \<or> horner_sum of_bool (2 :: nat) xs = horner_sum of_bool 2 ys \<and> le"
proof (induction xs arbitrary: ys le)
  case Nil
  then show ?case by simp
next
  case (Cons x xs)
  then obtain y ys' where ys: "ys = y # ys'" and len: "length xs = length ys'"
    by (cases ys) auto
  show ?case
    unfolding ys using Cons.IH [OF len, of "if x = y then le else y"]
    by (cases x; cases y) (auto simp del: horner_sum_of_bool_2_less)
qed

lemma char_le_iff: "char_le c d \<longleftrightarrow> (of_char c :: nat) \<le> of_char d"
  by (cases c; cases d)
    (simp add: char_le_def bits_le_horner le_less del: bits_le.simps horner_sum_simps)

lemma between_iff:
  "between lo hi c \<longleftrightarrow> (of_char lo :: nat) \<le> of_char c \<and> (of_char c :: nat) \<le> of_char hi"
  by (simp add: between_def char_le_iff)

lemma word_char_iff:
  "word_char c \<longleftrightarrow>
     97 \<le> (of_char c :: nat) \<and> (of_char c :: nat) \<le> 122
     \<or> 65 \<le> (of_char c :: nat) \<and> (of_char c :: nat) \<le> 90
     \<or> 48 \<le> (of_char c :: nat) \<and> (of_char c :: nat) \<le> 57
     \<or> (of_char c :: nat) = 95"
proof -
  have "c = CHR ''_'' \<longleftrightarrow> (of_char c :: nat) = of_char CHR ''_''"
    by (metis char_of_char)
  then show ?thesis by (simp add: word_char_def between_iff)
qed

lemma upper_code:
  "(of_char (upper c) :: nat) =
     (if 97 \<le> (of_char c :: nat) \<and> (of_char c :: nat) \<le> 122 then of_char c - 32 else of_char c)"
proof (cases c)
  case (Char b0 b1 b2 b3 b4 b5 b6 b7)
  have b: "between CHR ''a'' CHR ''z'' c \<longleftrightarrow> 97 \<le> (of_char c :: nat) \<and> (of_char c :: nat) \<le> 122"
    by (simp add: between_iff)
  show ?thesis
    unfolding Char upper.simps b [unfolded Char]
    by (cases b0; cases b1; cases b2; cases b3; cases b4; cases b5; cases b6; cases b7) simp_all
qed

subsection \<open>The loops count matches\<close>

lemma count_until_hits:
  "b + m < k \<Longrightarrow>
   count_until (\<lambda>n. k \<le> b + n) ps text m =
     (if k \<le> b + m + hits ps text then ReturnedTrue else Counted (m + hits ps text))"
proof (induction ps arbitrary: m)
  case Nil
  then show ?case by (simp add: hits_def)
next
  case (Cons p ps)
  show ?case
  proof (cases "test p text")
    case False
    then show ?thesis using Cons.IH [OF Cons.prems] by (simp add: hits_def)
  next
    case True
    show ?thesis
    proof (cases "k \<le> b + Suc m")
      case True
      with \<open>test p text\<close> show ?thesis by (simp add: hits_def)
    next
      case False
      then have "b + Suc m < k" by simp
      from Cons.IH [OF this] False \<open>test p text\<close> show ?thesis by (simp add: hits_def)
    qed
  qed
qed

lemma count_until_hits0:
  "m < k \<Longrightarrow>
   count_until (\<lambda>n. k \<le> n) ps text m =
     (if k \<le> m + hits ps text then ReturnedTrue else Counted (m + hits ps text))"
  using count_until_hits [of 0 m k ps "text"] by simp


lemma isPython_iff:
  "isPython text \<longleftrightarrow>
     2 \<le> hits strongPythonPatterns text
     \<or> 1 \<le> hits strongPythonPatterns text
       \<and> 3 \<le> hits strongPythonPatterns text + hits weakPythonPatterns text"
  by (auto simp: isPython_def count_until_hits0 count_until_hits [where m = 0, simplified])

lemma isMinifiedJs_short:
  assumes "length text \<le> 500"
  shows "isMinifiedJs text \<longleftrightarrow>
     3 \<le> add_matches 1 iifePatterns text (add_matches 2 strongMinifiedPatterns text 0)
         + of_bool (test functionOfThree text) + of_bool (test arrowOfTwo text)
         + of_bool (test varOfThree text)"
proof -
  have sample: "take 8000 text = text" using assms by simp
  show ?thesis
    using assms by (simp add: isMinifiedJs_def Let_def sample)
qed

subsection \<open>The Python text of the project's tests\<close>

lemma python_test_result: "detectDictionaryType python_test = Python"
proof -
  have "\<not> isHtml python_test" "\<not> isCss python_test" "\<not> isJson python_test"
    "\<not> isJavaScriptOrTypeScript python_test" "isPython python_test"
    by code_simp+
  moreover have "length python_test \<le> 500" by (simp add: python_test_def)
  moreover have "add_matches 2 strongMinifiedPatterns python_test 0 = 0"
    "add_matches (Suc 0) iifePatterns python_test 0 = 0"
    "\<not> test functionOfThree python_test" "\<not> test arrowOfTwo python_test"
    "\<not> test varOfThree python_test" by code_simp+
  ultimately show ?thesis
    by (simp add: detectDictionaryType_def isMinifiedJs_short)
qed

subsection \<open>One JavaScript import before a Python function\<close>



subsection \<open>Enough JavaScript markers come before the Python heuristics\<close>



end
